(* ===== verification/Prelude.thy ===== *)
theory Prelude
  imports Main
begin

text \<open>
  Shared vocabulary of the development: results of fallible code, computations that
  read and change the outside world, and the two interfaces that several components
  implement.

  \<^item> \<open>('e, 'a) result\<close> is the value of code that may throw: \<open>Inl\<close> is the
    thrown error, \<open>Inr\<close> the returned value. \<open>bindR\<close> is sequencing, \<open>catchR\<close> is
    \<^verbatim>\<open>try ... catch\<close>.
  \<^item> \<open>('w, 'e, 'a) io\<close> is an asynchronous function: it maps the world it starts in to
    its result and the world it leaves. \<open>await\<close> of the source is \<open>bindIO\<close>.
  \<^item> locale \<open>codec\<close> is the contract of an encoder/decoder pair; \<open>codec_chain\<close>
    composes two of them.
  \<^item> locale \<open>transition_system\<close> is the contract of a state machine with an
    invariant.
\<close>

section \<open>Collections of facts\<close>

named_theorems result_simps \<open>equations of the result and world-passing combinators\<close>
named_theorems js_lits \<open>facts that evaluate operations on string literals\<close>
named_theorems field_simps_json \<open>facts that read fields of the objects the model builds\<close>

section \<open>Results of code that may throw\<close>

type_synonym ('e, 'a) result = "'e + 'a"

definition bindR :: "('e, 'a) result \<Rightarrow> ('a \<Rightarrow> ('e, 'b) result) \<Rightarrow> ('e, 'b) result" where
  "bindR r f = (case r of Inl e \<Rightarrow> Inl e | Inr x \<Rightarrow> f x)"

definition catchR :: "('e, 'a) result \<Rightarrow> ('e \<Rightarrow> ('f, 'a) result) \<Rightarrow> ('f, 'a) result" where
  "catchR r h = (case r of Inl e \<Rightarrow> h e | Inr x \<Rightarrow> Inr x)"

definition is_ok :: "('e, 'a) result \<Rightarrow> bool" where
  "is_ok r = (case r of Inl _ \<Rightarrow> False | Inr _ \<Rightarrow> True)"

lemma bindR_simps [simp, result_simps]:
  "bindR (Inl e) f = Inl e"
  "bindR (Inr x) f = f x"
  by (simp_all add: bindR_def)

lemma catchR_simps [simp, result_simps]:
  "catchR (Inl e) h = h e"
  "catchR (Inr x) h = Inr x"
  by (simp_all add: catchR_def)

lemma is_ok_simps [simp, result_simps]:
  "\<not> is_ok (Inl e)"
  "is_ok (Inr x)"
  by (simp_all add: is_ok_def)

lemma bindR_Inr_iff: "bindR r f = Inr y \<longleftrightarrow> (\<exists>x. r = Inr x \<and> f x = Inr y)"
  by (cases r) auto

lemma bindR_Inl_iff: "bindR r f = Inl e \<longleftrightarrow> r = Inl e \<or> (\<exists>x. r = Inr x \<and> f x = Inl e)"
  by (cases r) auto

lemma bindR_assoc: "bindR (bindR r f) g = bindR r (\<lambda>x. bindR (f x) g)"
  by (cases r) auto

section \<open>Asynchronous code: results and a world\<close>

type_synonym ('w, 'e, 'a) io = "'w \<Rightarrow> ('e, 'a) result \<times> 'w"

definition returnIO :: "'a \<Rightarrow> ('w, 'e, 'a) io" where
  "returnIO x w = (Inr x, w)"

definition throwIO :: "'e \<Rightarrow> ('w, 'e, 'a) io" where
  "throwIO e w = (Inl e, w)"

definition bindIO :: "('w, 'e, 'a) io \<Rightarrow> ('a \<Rightarrow> ('w, 'e, 'b) io) \<Rightarrow> ('w, 'e, 'b) io" where
  "bindIO m f w = (case m w of (Inl e, w') \<Rightarrow> (Inl e, w') | (Inr x, w') \<Rightarrow> f x w')"

definition catchIO :: "('w, 'e, 'a) io \<Rightarrow> ('e \<Rightarrow> ('w, 'f, 'a) io) \<Rightarrow> ('w, 'f, 'a) io" where
  "catchIO m h w = (case m w of (Inl e, w') \<Rightarrow> h e w' | (Inr x, w') \<Rightarrow> (Inr x, w'))"

definition liftIO :: "('e, 'a) result \<Rightarrow> ('w, 'e, 'a) io" where
  "liftIO r w = (r, w)"

lemma io_apply [result_simps]:
  "returnIO x w = (Inr x, w)"
  "throwIO e w = (Inl e, w)"
  "liftIO r w = (r, w)"
  by (simp_all add: returnIO_def throwIO_def liftIO_def)

lemma bindIO_apply [result_simps]:
  "m w = (Inl e, w') \<Longrightarrow> bindIO m f w = (Inl e, w')"
  "m w = (Inr x, w') \<Longrightarrow> bindIO m f w = f x w'"
  by (simp_all add: bindIO_def)

lemma catchIO_apply [result_simps]:
  "m w = (Inl e, w') \<Longrightarrow> catchIO m h w = h e w'"
  "m w = (Inr x, w') \<Longrightarrow> catchIO m h w = (Inr x, w')"
  by (simp_all add: catchIO_def)

lemma bindIO_Inr_iff:
  "bindIO m f w = (Inr y, w'') \<longleftrightarrow> (\<exists>x w'. m w = (Inr x, w') \<and> f x w' = (Inr y, w''))"
  by (auto simp: bindIO_def split: prod.splits sum.splits)

lemma bindIO_Inl_iff:
  "bindIO m f w = (Inl e, w'') \<longleftrightarrow>
     m w = (Inl e, w'') \<or> (\<exists>x w'. m w = (Inr x, w') \<and> f x w' = (Inl e, w''))"
  by (auto simp: bindIO_def split: prod.splits sum.splits)

section \<open>Association lists: the property list of an object\<close>

text \<open>Setting a key replaces its value in place, or appends the key.\<close>

fun put :: "'k \<Rightarrow> 'v \<Rightarrow> ('k \<times> 'v) list \<Rightarrow> ('k \<times> 'v) list" where
  "put k v [] = [(k, v)]"
| "put k v ((k', v') # kvs) = (if k = k' then (k, v) # kvs else (k', v') # put k v kvs)"

lemma map_of_put [simp]: "map_of (put k v kvs) = (map_of kvs)(k \<mapsto> v)"
  by (induction k v kvs rule: put.induct) (auto simp: fun_eq_iff)

lemma fst_put [simp]: "fst ` set (put k v kvs) = insert k (fst ` set kvs)"
  by (induction k v kvs rule: put.induct) auto

lemma distinct_put: "distinct (map fst kvs) \<Longrightarrow> distinct (map fst (put k v kvs))"
proof (induction k v kvs rule: put.induct)
  case (2 k v k' v' kvs)
  then show ?case by auto
qed simp

lemma put_fresh: "k \<notin> fst ` set kvs \<Longrightarrow> put k v kvs = kvs @ [(k, v)]"
  by (induction k v kvs rule: put.induct) auto

lemma put_subset: "set (put k v kvs) \<subseteq> insert (k, v) (set kvs)"
  by (induction k v kvs rule: put.induct) auto

section \<open>The contract of an encoder and its decoder\<close>

locale codec =
  fixes enc :: "'a \<Rightarrow> 'b"
    and dec :: "'b \<Rightarrow> 'a option"
    and valid :: "'a \<Rightarrow> bool"
  assumes dec_enc: "valid x \<Longrightarrow> dec (enc x) = Some x"
begin

lemma enc_inj: "valid x \<Longrightarrow> valid y \<Longrightarrow> enc x = enc y \<Longrightarrow> x = y"
  using dec_enc by (metis option.inject)

lemma enc_inj_on: "inj_on enc {x. valid x}"
  by (rule inj_onI) (auto intro: enc_inj)

end

locale codec_chain = inner: codec enc1 dec1 valid1 + outer: codec enc2 dec2 valid2
  for enc1 :: "'a \<Rightarrow> 'b" and dec1 and valid1 and enc2 :: "'b \<Rightarrow> 'c" and dec2 and valid2 +
  assumes chain_valid: "valid1 x \<Longrightarrow> valid2 (enc1 x)"
begin

lemma chain_dec_enc: "valid1 x \<Longrightarrow> Option.bind (dec2 (enc2 (enc1 x))) dec1 = Some x"
  using inner.dec_enc outer.dec_enc chain_valid by simp

end

sublocale codec_chain \<subseteq> chain: codec "\<lambda>x. enc2 (enc1 x)" "\<lambda>y. Option.bind (dec2 y) dec1" valid1
  by unfold_locales (rule chain_dec_enc)

section \<open>State machines with an invariant\<close>

locale transition_system =
  fixes init :: "'s \<Rightarrow> bool"
    and step :: "'s \<Rightarrow> 's \<Rightarrow> bool"
    and inv :: "'s \<Rightarrow> bool"
  assumes inv_init: "init s \<Longrightarrow> inv s"
    and inv_step: "inv s \<Longrightarrow> step s t \<Longrightarrow> inv t"
begin

lemma inv_steps: "step\<^sup>*\<^sup>* s t \<Longrightarrow> inv s \<Longrightarrow> inv t"
  by (induction rule: rtranclp_induct) (auto intro: inv_step)

lemma inv_reachable: "init s \<Longrightarrow> step\<^sup>*\<^sup>* s t \<Longrightarrow> inv t"
  by (blast intro: inv_init inv_steps)

end

end
