(* ===== verification/JsString.thy ===== *)
theory JsString
  imports Prelude "HOL-Library.Word" "HOL-Library.Sublist"
begin

text \<open>
  Strings of the source language. A string is its list of UTF-16 code units, so
  \<open>length\<close>, \<open>take\<close> and \<open>drop\<close> count what \<^verbatim>\<open>.length\<close> and \<^verbatim>\<open>.slice\<close> count, and
  unpaired surrogates are values like any other. A literal of the source is written
  \<open>js ''...''\<close>.

  The operations are those of the language that the repository uses:
  \<^verbatim>\<open>startsWith\<close>, \<^verbatim>\<open>includes\<close>, \<^verbatim>\<open>trim\<close>, \<^verbatim>\<open>trimEnd\<close>, \<^verbatim>\<open>split(/\s+/)\<close>, \<^verbatim>\<open>slice\<close>,
  \<^verbatim>\<open>toLowerCase\<close>, \<^verbatim>\<open>replace(/\/+$/, "")\<close>. The Unicode case tables are data the
  repository does not hold: \<open>toLowerCase\<close> takes the mapping of strings with a code
  unit beyond ASCII as its argument \<open>uni\<close>, and every fact below holds for any
  \<open>uni\<close>.
\<close>

section \<open>Code units and literals\<close>

type_synonym cunit = "16 word"
type_synonym jstring = "cunit list"

definition cu :: "char \<Rightarrow> cunit" where
  "cu c = word_of_nat (of_char c)"

definition js :: "string \<Rightarrow> jstring" where
  "js s = map cu s"

lemma unat_cu [simp]: "unat (cu c) = of_char c"
proof -
  have "(of_char c :: nat) < 65536" using nat_of_char_less_256 [of c] by linarith
  then show ?thesis using mod_less [of "of_char c" "65536"] by (simp add: cu_def unat_of_nat)
qed

lemma cu_eq_iff [simp]: "cu c = cu d \<longleftrightarrow> c = d"
  by (metis unat_cu of_char_eq_iff)

lemma cu_less_256: "cu c < 256"
  using nat_of_char_less_256 [of c] by (simp add: word_less_nat_alt)

lemma js_Nil [simp]: "js [] = []"
  by (simp add: js_def)

lemma js_Cons: "js (c # s) = cu c # js s"
  by (simp add: js_def)

lemma js_append [simp]: "js (s @ t) = js s @ js t"
  by (simp add: js_def)

lemma js_eq_iff [simp, js_lits]: "js s = js t \<longleftrightarrow> s = t"
  by (simp add: js_def inj_map_eq_map inj_def)

lemma js_eq_Nil [simp]: "js s = [] \<longleftrightarrow> s = []" "[] = js s \<longleftrightarrow> s = []"
  by (simp_all add: js_def)

lemma length_js [simp]: "length (js s) = length s"
  by (simp add: js_def)

section \<open>Searching\<close>

definition startsWith :: "jstring \<Rightarrow> jstring \<Rightarrow> bool" where
  "startsWith s p = prefix p s"

definition str_includes :: "jstring \<Rightarrow> jstring \<Rightarrow> bool" where
  "str_includes s p = sublist p s"

lemma prefix_js [simp, js_lits]: "prefix (js s) (js t) = prefix s t"
  by (auto simp: prefix_def js_def map_eq_append_conv inj_map_eq_map inj_def)

lemma startsWith_js [js_lits]: "startsWith (js s) (js p) = prefix p s"
  by (simp add: startsWith_def)

lemma startsWith_append [simp]: "startsWith (p @ s) p"
  by (simp add: startsWith_def)

lemma startsWith_nonempty: "startsWith s p \<Longrightarrow> p \<noteq> [] \<Longrightarrow> s \<noteq> []"
  by (auto simp: startsWith_def)

lemma sublist_js [simp, js_lits]: "sublist (js s) (js t) = sublist s t"
proof (induction t)
  case Nil
  then show ?case by (cases s) (simp_all add: js_def)
next
  case (Cons c t)
  then show ?case
    by (cases s) (auto simp: js_Cons sublist_Cons_right)
qed

lemma includes_js [js_lits]: "str_includes (js s) (js p) = sublist p s"
  by (simp add: str_includes_def)

lemma includes_mono: "str_includes s p \<Longrightarrow> str_includes (a @ s @ b) p"
  by (auto simp: str_includes_def sublist_def) (metis append.assoc)

section \<open>Case mapping\<close>

definition is_ascii :: "jstring \<Rightarrow> bool" where
  "is_ascii s = list_all (\<lambda>u. u < 128) s"

definition ascii_lower :: "cunit \<Rightarrow> cunit" where
  "ascii_lower u = (if 65 \<le> u \<and> u \<le> 90 then u + 32 else u)"

definition toLowerCase :: "(jstring \<Rightarrow> jstring) \<Rightarrow> jstring \<Rightarrow> jstring" where
  "toLowerCase uni s = (if is_ascii s then map ascii_lower s else uni s)"

lemma is_ascii_simps [simp]:
  "is_ascii []"
  "is_ascii (u # s) \<longleftrightarrow> u < 128 \<and> is_ascii s"
  "is_ascii (s @ t) \<longleftrightarrow> is_ascii s \<and> is_ascii t"
  by (simp_all add: is_ascii_def)

lemma ascii_lower_idem [simp]: "ascii_lower (ascii_lower u) = ascii_lower u"
proof (cases "65 \<le> u \<and> u \<le> 90")
  case True
  then have "97 \<le> u + 32" by (simp add: word_le_nat_alt unat_word_ariths)
  then have "\<not> u + 32 \<le> 90" by (simp add: word_le_nat_alt)
  with True show ?thesis by (simp add: ascii_lower_def)
qed (auto simp: ascii_lower_def)

lemma ascii_lower_less: "u < 128 \<Longrightarrow> ascii_lower u < 128"
  by (auto simp: ascii_lower_def word_less_nat_alt word_le_nat_alt unat_word_ariths)

lemma is_ascii_lower: "is_ascii s \<Longrightarrow> is_ascii (map ascii_lower s)"
  by (induction s) (auto intro: ascii_lower_less)

lemma toLowerCase_idem: "is_ascii s \<Longrightarrow> toLowerCase uni (toLowerCase uni s) = toLowerCase uni s"
  by (simp add: toLowerCase_def is_ascii_lower)

section \<open>White space\<close>

definition is_space :: "cunit \<Rightarrow> bool" where
  "is_space u \<longleftrightarrow>
     (9 \<le> u \<and> u \<le> 13) \<or> u = 32 \<or> u = 160 \<or> u = 5760 \<or> (8192 \<le> u \<and> u \<le> 8202) \<or>
     u = 8232 \<or> u = 8233 \<or> u = 8239 \<or> u = 8287 \<or> u = 12288 \<or> u = 65279"

definition trimStart :: "jstring \<Rightarrow> jstring" where
  "trimStart s = dropWhile is_space s"

definition trimEnd :: "jstring \<Rightarrow> jstring" where
  "trimEnd s = rev (dropWhile is_space (rev s))"

definition trim :: "jstring \<Rightarrow> jstring" where
  "trim s = trimEnd (trimStart s)"

lemma trimEnd_last: "trimEnd s \<noteq> [] \<Longrightarrow> \<not> is_space (last (trimEnd s))"
  using hd_dropWhile [of is_space "rev s"] by (simp add: trimEnd_def last_rev)

lemma trimEnd_prefix: "prefix (trimEnd s) s"
  by (metis prefixI rev_append rev_rev_ident takeWhile_dropWhile_id trimEnd_def)

lemma trim_eq_Nil_iff: "trim s = [] \<longleftrightarrow> list_all is_space s"
proof -
  have "trimEnd t = [] \<longleftrightarrow> list_all is_space t" for t
    by (simp add: trimEnd_def dropWhile_eq_Nil_conv list_all_iff)
  moreover have "list_all is_space (dropWhile is_space s) \<longleftrightarrow> list_all is_space s"
    by (induction s) auto
  ultimately show ?thesis by (simp add: trim_def trimStart_def)
qed

text \<open>
  \<^verbatim>\<open>s.split(/\s+/)\<close>: the pieces between the maximal runs of white space, with an
  empty piece where the string starts or ends in white space.
\<close>

function split_spaces :: "jstring \<Rightarrow> jstring list" where
  "split_spaces s =
     (let tok = takeWhile (\<lambda>u. \<not> is_space u) s; rest = dropWhile (\<lambda>u. \<not> is_space u) s
      in if rest = [] then [tok] else tok # split_spaces (dropWhile is_space rest))"
  by pat_completeness auto
termination
proof (relation "measure length", goal_cases)
  case (2 s tok rest)
  have "length (dropWhile is_space rest) < length rest"
  proof (cases rest)
    case (Cons u us)
    with 2 have "is_space u"
      using hd_dropWhile [of "\<lambda>u. \<not> is_space u" s] by (metis list.sel(1))
    with Cons show ?thesis by (simp add: length_dropWhile_le le_imp_less_Suc)
  qed (use 2 in simp)
  also have "length rest \<le> length s" using 2 by (simp add: length_dropWhile_le)
  finally show ?case by simp
qed simp

declare split_spaces.simps [simp del]

lemma split_spaces_nonempty [simp]: "split_spaces s \<noteq> []"
  by (subst split_spaces.simps) (simp add: Let_def)

text \<open>The number of words: \<^verbatim>\<open>s.trim() ? s.trim().split(/\s+/).length : 0\<close>.\<close>

definition word_count :: "jstring \<Rightarrow> nat" where
  "word_count s = (if trim s = [] then 0 else length (split_spaces (trim s)))"

lemma word_count_0_iff: "word_count s = 0 \<longleftrightarrow> list_all is_space s"
  by (simp add: word_count_def trim_eq_Nil_iff)

section \<open>Slices and trailing slashes\<close>

text \<open>\<^verbatim>\<open>s.slice(-n)\<close>; \<^verbatim>\<open>slice(-0)\<close> is \<^verbatim>\<open>slice(0)\<close>, the whole string.\<close>

definition slice_last :: "jstring \<Rightarrow> nat \<Rightarrow> jstring" where
  "slice_last s n = (if n = 0 then s else drop (length s - n) s)"

definition strip_slashes :: "jstring \<Rightarrow> jstring" where
  "strip_slashes s = rev (dropWhile (\<lambda>u. u = cu CHR ''/'') (rev s))"

lemma strip_slashes_prefix: "prefix (strip_slashes s) s"
  by (metis prefixI rev_append rev_rev_ident takeWhile_dropWhile_id strip_slashes_def)

lemma strip_slashes_last: "strip_slashes s \<noteq> [] \<Longrightarrow> last (strip_slashes s) \<noteq> cu CHR ''/''"
  using hd_dropWhile [of "\<lambda>u. u = cu CHR ''/''" "rev s"] by (auto simp: strip_slashes_def last_rev)

lemma strip_slashes_idem [simp]: "strip_slashes (strip_slashes s) = strip_slashes s"
  by (simp add: strip_slashes_def)

end
