(* ===== verification/Utf8.thy ===== *)
theory Utf8
  imports JsString
begin

text \<open>
  \<^verbatim>\<open>TextEncoder\<close>, \<^verbatim>\<open>TextDecoder\<close> and \<^verbatim>\<open>encodeURIComponent\<close>, as the Encoding
  Standard and the language define them: the encoder replaces an unpaired surrogate by
  U+FFFD, the decoder is the standard's byte-at-a-time state machine (it replaces every
  maximal ill-formed sequence by U+FFFD and drops a leading byte order mark).

  The decoder inverts the encoder on every string without unpaired surrogates that does
  not start with U+FEFF (\<open>utf8_decode_encode\<close>); this pair is an instance of the
  \<open>codec\<close> contract.
\<close>

section \<open>Bytes and code units from numbers\<close>

type_synonym byte = "8 word"

definition byte_of :: "nat \<Rightarrow> byte" where
  "byte_of n = word_of_nat n"

definition unit_of :: "nat \<Rightarrow> cunit" where
  "unit_of n = word_of_nat n"

lemma unat_byte_of [simp]: "n < 256 \<Longrightarrow> unat (byte_of n) = n"
  by (simp add: byte_of_def unat_of_nat)

lemma byte_of_unat [simp]: "byte_of (unat b) = b"
  by (simp add: byte_of_def)

lemma unat_byte_less: "unat (b :: byte) < 256"
  using unsigned_less [of b] by simp

lemma unat_unit_of [simp]: "n < 65536 \<Longrightarrow> unat (unit_of n) = n"
  by (simp add: unit_of_def unat_of_nat)

lemma unit_of_unat [simp]: "unit_of (unat u) = u"
  by (simp add: unit_of_def)

lemma unat_cunit_less: "unat (u :: cunit) < 65536"
  using unsigned_less [of u] by simp

section \<open>Code points of a string\<close>

definition is_high :: "cunit \<Rightarrow> bool" where
  "is_high u \<longleftrightarrow> 55296 \<le> unat u \<and> unat u < 56320"

definition is_low :: "cunit \<Rightarrow> bool" where
  "is_low u \<longleftrightarrow> 56320 \<le> unat u \<and> unat u < 57344"

definition pair_point :: "cunit \<Rightarrow> cunit \<Rightarrow> nat" where
  "pair_point h l = 65536 + (unat h - 55296) * 1024 + (unat l - 56320)"

fun code_points :: "jstring \<Rightarrow> nat list" where
  "code_points [] = []"
| "code_points [u] = [if is_high u \<or> is_low u then 65533 else unat u]"
| "code_points (u # v # s) =
     (if is_high u \<and> is_low v then pair_point u v # code_points s
      else (if is_high u \<or> is_low u then 65533 else unat u) # code_points (v # s))"

fun well_formed :: "jstring \<Rightarrow> bool" where
  "well_formed [] = True"
| "well_formed [u] = (\<not> is_high u \<and> \<not> is_low u)"
| "well_formed (u # v # s) =
     (if is_high u \<and> is_low v then well_formed s
      else \<not> is_high u \<and> \<not> is_low u \<and> well_formed (v # s))"

definition utf16_units :: "nat \<Rightarrow> jstring" where
  "utf16_units c =
     (if c < 65536 then [unit_of c]
      else [unit_of (55296 + (c - 65536) div 1024), unit_of (56320 + (c - 65536) mod 1024)])"

definition is_scalar :: "nat \<Rightarrow> bool" where
  "is_scalar c \<longleftrightarrow> c < 55296 \<or> (57344 \<le> c \<and> c < 1114112)"

lemma pair_point_bounds:
  assumes "is_high u" "is_low v"
  shows "65536 \<le> pair_point u v" "pair_point u v < 1114112"
  using assms by (auto simp: pair_point_def is_high_def is_low_def)

lemma code_points_scalar: "c \<in> set (code_points s) \<Longrightarrow> is_scalar c"
proof (induction s rule: code_points.induct)
  case (2 u)
  then show ?case
    using unat_cunit_less [of u] by (auto simp: is_scalar_def is_high_def is_low_def split: if_splits)
next
  case (3 u v s)
  then show ?case
    using unat_cunit_less [of u] pair_point_bounds [of u v]
    by (auto simp: is_scalar_def is_high_def is_low_def split: if_splits)
qed simp

lemma utf16_units_pair:
  assumes "is_high u" "is_low v"
  shows "utf16_units (pair_point u v) = [u, v]"
proof -
  define x y where "x = unat u - 55296" and "y = unat v - 56320"
  have p: "pair_point u v - 65536 = x * 1024 + y" and y: "y < 1024"
    and uv: "55296 + x = unat u" "56320 + y = unat v"
    using assms by (auto simp: pair_point_def x_def y_def is_high_def is_low_def)
  have "(x * 1024 + y) div 1024 = x" "(x * 1024 + y) mod 1024 = y"
    using y by auto
  with uv show ?thesis
    using pair_point_bounds [OF assms] by (simp add: utf16_units_def p)
qed

lemma utf16_units_single: "utf16_units (unat u) = [u]"
  using unat_cunit_less [of u] by (simp add: utf16_units_def)

lemma units_code_points: "well_formed s \<Longrightarrow> concat (map utf16_units (code_points s)) = s"
  by (induction s rule: code_points.induct)
    (auto simp: utf16_units_pair utf16_units_single split: if_splits)

lemma is_ascii_well_formed: "is_ascii s \<Longrightarrow> well_formed s"
  by (induction s rule: well_formed.induct)
    (auto simp: is_high_def is_low_def word_less_nat_alt)

lemma is_ascii_code_points: "is_ascii s \<Longrightarrow> code_points s = map unat s"
  by (induction s rule: code_points.induct)
    (auto simp: is_high_def is_low_def word_less_nat_alt)

section \<open>Encoding\<close>

definition utf8_bytes :: "nat \<Rightarrow> byte list" where
  "utf8_bytes c =
     (if c < 128 then [byte_of c]
      else if c < 2048 then [byte_of (192 + c div 64), byte_of (128 + c mod 64)]
      else if c < 65536 then
        [byte_of (224 + c div 4096), byte_of (128 + c div 64 mod 64),
         byte_of (128 + c mod 64)]
      else
        [byte_of (240 + c div 262144), byte_of (128 + c div 4096 mod 64),
         byte_of (128 + c div 64 mod 64), byte_of (128 + c mod 64)])"

definition utf8_encode :: "jstring \<Rightarrow> byte list" where
  "utf8_encode s = concat (map utf8_bytes (code_points s))"

section \<open>Decoding\<close>

record utf8_state =
  u_point :: nat
  u_needed :: nat
  u_lower :: nat
  u_upper :: nat

definition utf8_init :: utf8_state where
  "utf8_init = \<lparr>u_point = 0, u_needed = 0, u_lower = 128, u_upper = 191\<rparr>"

text \<open>The first byte of a sequence: the code points it emits and the next state.\<close>

definition utf8_lead :: "byte \<Rightarrow> nat list \<times> utf8_state" where
  "utf8_lead b =
     (let n = unat b in
      if n < 128 then ([n], utf8_init)
      else if 194 \<le> n \<and> n \<le> 223 then ([], utf8_init\<lparr>u_point := n - 192, u_needed := 1\<rparr>)
      else if 224 \<le> n \<and> n \<le> 239 then
        ([], \<lparr>u_point = n - 224, u_needed = 2,
              u_lower = if n = 224 then 160 else 128,
              u_upper = if n = 237 then 159 else 191\<rparr>)
      else if 240 \<le> n \<and> n \<le> 244 then
        ([], \<lparr>u_point = n - 240, u_needed = 3,
              u_lower = if n = 240 then 144 else 128,
              u_upper = if n = 244 then 143 else 191\<rparr>)
      else ([65533], utf8_init))"

definition utf8_step :: "utf8_state \<Rightarrow> byte \<Rightarrow> nat list \<times> utf8_state" where
  "utf8_step st b =
     (let n = unat b in
      if u_needed st = 0 then utf8_lead b
      else if n < u_lower st \<or> u_upper st < n then
        (case utf8_lead b of (out, st') \<Rightarrow> (65533 # out, st'))
      else
        (let p = u_point st * 64 + (n - 128) in
         if u_needed st = 1 then ([p], utf8_init)
         else ([], utf8_init\<lparr>u_point := p, u_needed := u_needed st - 1\<rparr>)))"

fun utf8_run :: "utf8_state \<Rightarrow> byte list \<Rightarrow> nat list" where
  "utf8_run st [] = (if u_needed st = 0 then [] else [65533])"
| "utf8_run st (b # bs) = (case utf8_step st b of (out, st') \<Rightarrow> out @ utf8_run st' bs)"

definition strip_bom :: "nat list \<Rightarrow> nat list" where
  "strip_bom cs = (case cs of [] \<Rightarrow> [] | c # cs' \<Rightarrow> if c = 65279 then cs' else cs)"

definition utf8_decode :: "byte list \<Rightarrow> jstring" where
  "utf8_decode bs = concat (map utf16_units (strip_bom (utf8_run utf8_init bs)))"

section \<open>The decoder inverts the encoder\<close>

lemma utf8_init_simps [simp]:
  "u_needed utf8_init = 0" "u_lower utf8_init = 128" "u_upper utf8_init = 191"
  by (simp_all add: utf8_init_def)

lemma utf8_lead_1: "n < 128 \<Longrightarrow> utf8_lead (byte_of n) = ([n], utf8_init)"
  by (simp add: utf8_lead_def)

lemma utf8_lead_2:
  "2 \<le> x \<Longrightarrow> x < 32 \<Longrightarrow>
     utf8_lead (byte_of (192 + x)) = ([], utf8_init\<lparr>u_point := x, u_needed := 1\<rparr>)"
  by (simp add: utf8_lead_def)

lemma utf8_lead_3:
  "x < 16 \<Longrightarrow>
     utf8_lead (byte_of (224 + x)) =
       ([], \<lparr>u_point = x, u_needed = 2, u_lower = if x = 0 then 160 else 128,
             u_upper = if x = 13 then 159 else 191\<rparr>)"
  by (simp add: utf8_lead_def)

lemma utf8_lead_4:
  "x < 5 \<Longrightarrow>
     utf8_lead (byte_of (240 + x)) =
       ([], \<lparr>u_point = x, u_needed = 3, u_lower = if x = 0 then 144 else 128,
             u_upper = if x = 4 then 143 else 191\<rparr>)"
  by (simp add: utf8_lead_def)

lemma utf8_step_lead: "u_needed st = 0 \<Longrightarrow> utf8_step st b = utf8_lead b"
  by (simp add: utf8_step_def)

text \<open>A continuation byte in the expected range, as the last one and before others.\<close>

lemma utf8_step_last:
  "u_needed st = 1 \<Longrightarrow> y < 64 \<Longrightarrow> u_lower st \<le> 128 + y \<Longrightarrow> 128 + y \<le> u_upper st \<Longrightarrow>
     utf8_step st (byte_of (128 + y)) = ([u_point st * 64 + y], utf8_init)"
  by (simp add: utf8_step_def)

lemma utf8_step_more:
  "u_needed st = Suc (Suc k) \<Longrightarrow> y < 64 \<Longrightarrow> u_lower st \<le> 128 + y \<Longrightarrow> 128 + y \<le> u_upper st \<Longrightarrow>
     utf8_step st (byte_of (128 + y)) =
       ([], utf8_init\<lparr>u_point := u_point st * 64 + y, u_needed := Suc k\<rparr>)"
  by (simp add: utf8_step_def)

lemmas utf8_steps =
  utf8_lead_1 utf8_lead_2 utf8_lead_3 utf8_lead_4 utf8_step_lead utf8_step_last utf8_step_more

lemma utf8_run_1: "c < 128 \<Longrightarrow> utf8_run utf8_init (utf8_bytes c @ bs) = c # utf8_run utf8_init bs"
  by (simp add: utf8_bytes_def utf8_steps)

lemma utf8_run_2:
  assumes "128 \<le> c" "c < 2048"
  shows "utf8_run utf8_init (utf8_bytes c @ bs) = c # utf8_run utf8_init bs"
proof -
  define x y where "x = c div 64" and "y = c mod 64"
  have "2 \<le> x" "x < 32" "y < 64" using assms by (auto simp: x_def y_def)
  moreover have c: "x * 64 + y = c" by (simp add: x_def y_def)
  moreover have "utf8_bytes c = [byte_of (192 + x), byte_of (128 + y)]"
    using assms by (simp add: utf8_bytes_def x_def y_def)
  ultimately show ?thesis by (simp add: utf8_steps)
qed

lemma utf8_run_3:
  assumes "2048 \<le> c" "c < 65536" "is_scalar c"
  shows "utf8_run utf8_init (utf8_bytes c @ bs) = c # utf8_run utf8_init bs"
proof -
  define x y z where "x = c div 4096" and "y = c div 64 mod 64" and "z = c mod 64"
  have "x = c div 64 div 64" by (simp add: x_def flip: div_mult2_eq)
  then have c: "(x * 64 + y) * 64 + z = c" by (simp add: y_def z_def)
  have b: "x < 16" "y < 64" "z < 64" using assms by (auto simp: x_def y_def z_def)
  have lo: "x = 0 \<Longrightarrow> 32 \<le> y" and hi: "x = 13 \<Longrightarrow> y < 32"
    using assms b by (auto simp: is_scalar_def simp flip: c)
  have bytes: "utf8_bytes c = [byte_of (224 + x), byte_of (128 + y), byte_of (128 + z)]"
    using assms by (simp add: utf8_bytes_def x_def y_def z_def)
  have "utf8_step \<lparr>u_point = x, u_needed = 2, u_lower = if x = 0 then 160 else 128,
             u_upper = if x = 13 then 159 else 191\<rparr> (byte_of (128 + y)) =
        ([], utf8_init\<lparr>u_point := x * 64 + y, u_needed := 1\<rparr>)"
    using b lo hi by (subst utf8_step_more [where k = 0]) auto
  with b c show ?thesis by (simp add: bytes utf8_step_lead utf8_lead_3 utf8_step_last)
qed

lemma utf8_run_4:
  assumes "65536 \<le> c" "is_scalar c"
  shows "utf8_run utf8_init (utf8_bytes c @ bs) = c # utf8_run utf8_init bs"
proof -
  define w x y z where "w = c div 262144" and "x = c div 4096 mod 64"
    and "y = c div 64 mod 64" and "z = c mod 64"
  have "w = c div 64 div 64 div 64" "x = c div 64 div 64 mod 64"
    by (simp_all add: w_def x_def flip: div_mult2_eq)
  then have c: "((w * 64 + x) * 64 + y) * 64 + z = c" by (simp add: y_def z_def)
  have b: "w < 5" "x < 64" "y < 64" "z < 64"
    using assms by (auto simp: w_def x_def y_def z_def is_scalar_def)
  have lo: "w = 0 \<Longrightarrow> 16 \<le> x" and hi: "w = 4 \<Longrightarrow> x < 16"
    using assms b by (auto simp: is_scalar_def simp flip: c)
  have bytes: "utf8_bytes c =
      [byte_of (240 + w), byte_of (128 + x), byte_of (128 + y), byte_of (128 + z)]"
    using assms by (simp add: utf8_bytes_def w_def x_def y_def z_def)
  have "utf8_step \<lparr>u_point = w, u_needed = 3, u_lower = if w = 0 then 144 else 128,
             u_upper = if w = 4 then 143 else 191\<rparr> (byte_of (128 + x)) =
        ([], utf8_init\<lparr>u_point := w * 64 + x, u_needed := Suc 1\<rparr>)"
    using b lo hi by (subst utf8_step_more [where k = 1]) auto
  with b c show ?thesis
    by (simp add: bytes utf8_step_lead utf8_lead_4 utf8_step_last utf8_step_more [where k = 0])
qed

lemma utf8_run_bytes:
  "is_scalar c \<Longrightarrow> utf8_run utf8_init (utf8_bytes c @ bs) = c # utf8_run utf8_init bs"
  using utf8_run_1 utf8_run_2 utf8_run_3 utf8_run_4
  by (metis linorder_not_less)

lemma utf8_run_encode:
  "(\<And>c. c \<in> set cs \<Longrightarrow> is_scalar c) \<Longrightarrow> utf8_run utf8_init (concat (map utf8_bytes cs)) = cs"
  by (induction cs) (auto simp: utf8_run_bytes)

definition utf8_ok :: "jstring \<Rightarrow> bool" where
  "utf8_ok s \<longleftrightarrow> well_formed s \<and> take 1 s \<noteq> [65279]"

lemma unat_eq_bom: "unat (u :: cunit) = 65279 \<longleftrightarrow> u = 65279"
  by (simp add: word_unat_eq_iff)

lemma hd_code_points: "utf8_ok s \<Longrightarrow> code_points s = c # cs \<Longrightarrow> c \<noteq> 65279"
  using unat_eq_bom pair_point_bounds
  by (cases s rule: code_points.cases) (fastforce simp: utf8_ok_def split: if_splits)+

lemma utf8_decode_encode: "utf8_ok s \<Longrightarrow> utf8_decode (utf8_encode s) = s"
proof -
  assume ok: "utf8_ok s"
  have run: "utf8_run utf8_init (utf8_encode s) = code_points s"
    unfolding utf8_encode_def by (rule utf8_run_encode) (rule code_points_scalar)
  have "strip_bom (code_points s) = code_points s"
    using hd_code_points [OF ok] by (auto simp: strip_bom_def split: list.splits)
  with run ok show ?thesis
    by (simp add: utf8_decode_def units_code_points utf8_ok_def)
qed

interpretation utf8: codec utf8_encode "\<lambda>bs. Some (utf8_decode bs)" utf8_ok
  by unfold_locales (simp add: utf8_decode_encode)

section \<open>Percent encoding\<close>

definition hex_char :: "nat \<Rightarrow> char" where
  "hex_char n = ''0123456789abcdef'' ! n"

definition hex_char_upper :: "nat \<Rightarrow> char" where
  "hex_char_upper n = ''0123456789ABCDEF'' ! n"

definition uri_unreserved :: string where
  "uri_unreserved =
     ''ABCDEFGHIJKLMNOPQRSTUVWXYZabcdefghijklmnopqrstuvwxyz0123456789-_.!~*'' @
     [CHR 0x27, CHR ''('', CHR '')'']"

definition percent_byte :: "byte \<Rightarrow> jstring" where
  "percent_byte b =
     [cu (CHR ''%''), cu (hex_char_upper (unat b div 16)), cu (hex_char_upper (unat b mod 16))]"

definition uri_point :: "nat \<Rightarrow> jstring" where
  "uri_point c =
     (if unit_of c \<in> set (js uri_unreserved) \<and> c < 128 then [unit_of c]
      else concat (map percent_byte (utf8_bytes c)))"

text \<open>\<open>None\<close> is the \<^verbatim>\<open>URIError\<close> of an unpaired surrogate.\<close>

definition encodeURIComponent :: "jstring \<Rightarrow> jstring option" where
  "encodeURIComponent s =
     (if well_formed s then Some (concat (map uri_point (code_points s))) else None)"

definition uri_alphabet :: "cunit set" where
  "uri_alphabet = set (js (CHR ''%'' # uri_unreserved))"

lemma hex_char_upper_unreserved: "n < 16 \<Longrightarrow> hex_char_upper n \<in> set uri_unreserved"
proof -
  assume "n < 16"
  then have "hex_char_upper n \<in> set ''0123456789ABCDEF''"
    unfolding hex_char_upper_def by (intro nth_mem) simp
  then show ?thesis by (auto simp: uri_unreserved_def)
qed

lemma percent_byte_alphabet: "set (percent_byte b) \<subseteq> uri_alphabet"
proof -
  have "unat b div 16 < 16" "unat b mod 16 < 16" using unat_byte_less [of b] by auto
  then show ?thesis
    by (auto simp: percent_byte_def uri_alphabet_def js_def hex_char_upper_unreserved)
qed

lemma uri_point_alphabet: "set (uri_point c) \<subseteq> uri_alphabet"
proof (cases "unit_of c \<in> set (js uri_unreserved) \<and> c < 128")
  case True
  then show ?thesis by (auto simp: uri_point_def uri_alphabet_def js_Cons)
next
  case False
  then have "uri_point c = concat (map percent_byte (utf8_bytes c))" by (auto simp: uri_point_def)
  then show ?thesis using percent_byte_alphabet by auto
qed

text \<open>
  The encoded component never holds a delimiter: it is one path segment, whatever the
  string was.
\<close>

lemma encodeURIComponent_alphabet: "encodeURIComponent s = Some t \<Longrightarrow> set t \<subseteq> uri_alphabet"
  using uri_point_alphabet by (fastforce simp: encodeURIComponent_def split: if_splits)

lemma uri_alphabet_delims:
  "cu CHR ''/'' \<notin> uri_alphabet" "cu CHR ''?'' \<notin> uri_alphabet" "cu CHR ''#'' \<notin> uri_alphabet"
  by (auto simp: uri_alphabet_def js_def uri_unreserved_def)

lemma encodeURIComponent_id:
  assumes "list_all (\<lambda>c. c \<in> set uri_unreserved) s" "is_ascii (js s)"
  shows "encodeURIComponent (js s) = Some (js s)"
proof -
  have "concat (map uri_point (map unat (js s))) = js s"
    using assms
  proof (induction s)
    case (Cons c s)
    then have "uri_point (of_char c) = [cu c]"
      using unat_cu [of c] unit_of_unat [of "cu c"]
      by (auto simp: uri_point_def js_def word_less_nat_alt)
    with Cons show ?case by (simp add: js_Cons)
  qed simp
  with assms show ?thesis
    by (simp add: encodeURIComponent_def is_ascii_well_formed is_ascii_code_points)
qed

end
