(* ===== verification/SdkErrors.thy ===== *)
theory SdkErrors
  imports JsString
begin

text \<open>
  What the code throws (\<^verbatim>\<open>sdk/typescript/src/errors.ts\<close>). \<open>JsError\<close> is a plain
  \<^verbatim>\<open>new Error(message)\<close>; \<open>NativeError\<close> an error the language raises itself, told
  apart by its class only; \<open>Foreign\<close> whatever a function supplied by the caller (the
  transport, the signer) or a third-party package throws; \<open>PaygateSdkError\<close> the
  error class of the SDK, with its optional fields and its cause.
\<close>

datatype PaygateSdkErrorCode =
    payment_challenge_missing
  | payment_signature_failed
  | signed_retry_failed
  | receipt_decode_failed
  | receipt_verification_failed
  | network_error

datatype native_error = SyntaxError | TypeError | URIError | InvalidCharacterError | RangeError

datatype thrown =
    JsError jstring
  | NativeError native_error
  | Foreign jstring
  | PaygateSdkError (code: PaygateSdkErrorCode) (message: jstring) (status: "int option")
      (bodyText: "jstring option") (cause: "thrown option")

text \<open>\<^verbatim>\<open>PaygateSdkErrorOptions\<close>, the last argument of the constructor.\<close>

record PaygateSdkErrorOptions =
  opt_status :: "int option"
  opt_bodyText :: "jstring option"
  opt_cause :: "thrown option"

definition no_options :: PaygateSdkErrorOptions where
  "no_options = \<lparr>opt_status = None, opt_bodyText = None, opt_cause = None\<rparr>"

definition new_PaygateSdkError ::
    "PaygateSdkErrorCode \<Rightarrow> string \<Rightarrow> PaygateSdkErrorOptions \<Rightarrow> thrown" where
  "new_PaygateSdkError c m options =
     PaygateSdkError c (js m) (opt_status options) (opt_bodyText options) (opt_cause options)"

definition is_sdk_error :: "thrown \<Rightarrow> bool" where
  "is_sdk_error e = (case e of PaygateSdkError _ _ _ _ _ \<Rightarrow> True | _ \<Rightarrow> False)"

definition has_code :: "PaygateSdkErrorCode \<Rightarrow> thrown \<Rightarrow> bool" where
  "has_code c e \<longleftrightarrow> is_sdk_error e \<and> code e = c"

lemma is_sdk_error_simps [simp]:
  "\<not> is_sdk_error (JsError m)" "\<not> is_sdk_error (NativeError n)" "\<not> is_sdk_error (Foreign m)"
  "is_sdk_error (PaygateSdkError c m s b ca)" "is_sdk_error (new_PaygateSdkError c t opts)"
  by (simp_all add: is_sdk_error_def new_PaygateSdkError_def)

lemma new_PaygateSdkError_sel [simp]:
  "code (new_PaygateSdkError c m opts) = c"
  "status (new_PaygateSdkError c m opts) = opt_status opts"
  "bodyText (new_PaygateSdkError c m opts) = opt_bodyText opts"
  "cause (new_PaygateSdkError c m opts) = opt_cause opts"
  by (simp_all add: new_PaygateSdkError_def)

lemma has_code_new [simp]: "has_code c (new_PaygateSdkError c' m opts) \<longleftrightarrow> c' = c"
  by (simp add: has_code_def)

end
