(* ===== verification/Base64.thy ===== *)
theory Base64
  imports Utf8 SdkErrors
begin

text \<open>
  \<^verbatim>\<open>sdk/typescript/src/base64.ts\<close>, with the \<^verbatim>\<open>btoa\<close> and \<^verbatim>\<open>atob\<close> of the platform
  (the latter is the forgiving decoder: it drops ASCII white space and accepts missing
  padding). \<open>decodeBase64ToUtf8\<close> accepts the strict grammar only.

  Facts: \<^verbatim>\<open>atob\<close> inverts \<^verbatim>\<open>btoa\<close> on every byte string; what \<open>encodeUtf8ToBase64\<close>
  produces, \<open>decodeBase64ToUtf8\<close> reads back to the string it came from.
\<close>

section \<open>The platform's base64\<close>

definition b64_unit :: "nat \<Rightarrow> cunit" where
  "b64_unit n =
     unit_of
       (if n < 26 then n + 65
        else if n < 52 then n + 71
        else if n < 62 then n - 4
        else if n = 62 then 43
        else 47)"

definition b64_value :: "cunit \<Rightarrow> nat option" where
  "b64_value u =
     (let n = unat u in
      if 65 \<le> n \<and> n \<le> 90 then Some (n - 65)
      else if 97 \<le> n \<and> n \<le> 122 then Some (n - 71)
      else if 48 \<le> n \<and> n \<le> 57 then Some (n + 4)
      else if n = 43 then Some 62
      else if n = 47 then Some 63
      else None)"

abbreviation is_b64 :: "cunit \<Rightarrow> bool" where
  "is_b64 u \<equiv> b64_value u \<noteq> None"

abbreviation pad :: cunit where
  "pad \<equiv> cu (CHR ''='')"

text \<open>The six-bit groups of a byte string, the last one filled with zero bits.\<close>

fun sextets :: "byte list \<Rightarrow> nat list" where
  "sextets [] = []"
| "sextets [a] = [unat a div 4, unat a mod 4 * 16]"
| "sextets [a, b] = [unat a div 4, unat a mod 4 * 16 + unat b div 16, unat b mod 16 * 4]"
| "sextets (a # b # c # bs) =
     unat a div 4 # (unat a mod 4 * 16 + unat b div 16) # (unat b mod 16 * 4 + unat c div 64) #
     (unat c mod 64) # sextets bs"

definition b64_encode :: "byte list \<Rightarrow> jstring" where
  "b64_encode bs = map b64_unit (sextets bs) @ replicate ((3 - length bs mod 3) mod 3) pad"

fun b64_bytes :: "nat list \<Rightarrow> byte list" where
  "b64_bytes (a # b # c # d # ns) =
     byte_of (a * 4 + b div 16) # byte_of (b mod 16 * 16 + c div 4) # byte_of (c mod 4 * 64 + d) #
     b64_bytes ns"
| "b64_bytes [a, b, c] = [byte_of (a * 4 + b div 16), byte_of (b mod 16 * 16 + c div 4)]"
| "b64_bytes [a, b] = [byte_of (a * 4 + b div 16)]"
| "b64_bytes _ = []"

definition binary_string :: "byte list \<Rightarrow> jstring" where
  "binary_string bs = map (\<lambda>b. unit_of (unat b)) bs"

definition ascii_space :: "cunit \<Rightarrow> bool" where
  "ascii_space u \<longleftrightarrow> u = 9 \<or> u = 10 \<or> u = 12 \<or> u = 13 \<or> u = 32"

definition strip_padding :: "jstring \<Rightarrow> jstring" where
  "strip_padding s =
     (if length s mod 4 = 0 then
        (if suffix [pad, pad] s then take (length s - 2) s
         else if suffix [pad] s then take (length s - 1) s
         else s)
      else s)"

text \<open>\<open>None\<close> is the \<^verbatim>\<open>InvalidCharacterError\<close> both functions throw.\<close>

definition btoa :: "jstring \<Rightarrow> jstring option" where
  "btoa s = (if list_all (\<lambda>u. unat u < 256) s then Some (b64_encode (map (\<lambda>u. byte_of (unat u)) s)) else None)"

definition atob :: "jstring \<Rightarrow> jstring option" where
  "atob s =
     (let t = strip_padding (filter (\<lambda>u. \<not> ascii_space u) s) in
      if length t mod 4 = 1 \<or> \<not> list_all is_b64 t then None
      else Some (binary_string (b64_bytes (map (the \<circ> b64_value) t))))"

section \<open>base64.ts\<close>

text \<open>Whether the runtime has the two globals.\<close>

record runtime =
  has_atob :: bool
  has_btoa :: bool

fun BASE64_RE :: "jstring \<Rightarrow> bool" where
  "BASE64_RE [] = True"
| "BASE64_RE (a # b # c # d # s) =
     ((is_b64 a \<and> is_b64 b \<and> is_b64 c \<and> is_b64 d \<and> BASE64_RE s) \<or>
      (s = [] \<and> is_b64 a \<and> is_b64 b \<and> c = pad \<and> d = pad) \<or>
      (s = [] \<and> is_b64 a \<and> is_b64 b \<and> is_b64 c \<and> d = pad))"
| "BASE64_RE s = False"

definition decodeBase64ToUtf8 :: "'x runtime_scheme \<Rightarrow> jstring \<Rightarrow> (thrown, jstring) result" where
  "decodeBase64ToUtf8 rt value =
     (if length value = 0 \<or> trim value \<noteq> value \<or> \<not> BASE64_RE value then
        Inl (JsError (js ''invalid base64''))
      else if \<not> has_atob rt then
        Inl (JsError (js ''base64 decoding is unavailable in this runtime''))
      else
        (case atob value of
           None \<Rightarrow> Inl (NativeError InvalidCharacterError)
         | Some binary \<Rightarrow>
             (let bytes = map (\<lambda>u. byte_of (unat u)) binary in Inr (utf8_decode bytes))))"

definition encodeUtf8ToBase64 :: "'x runtime_scheme \<Rightarrow> jstring \<Rightarrow> (thrown, jstring) result" where
  "encodeUtf8ToBase64 rt value =
     (if \<not> has_btoa rt then
        Inl (JsError (js ''base64 encoding is unavailable in this runtime''))
      else
        (let binary = concat (map (\<lambda>byte. [unit_of (unat byte)]) (utf8_encode value)) in
         (case btoa binary of
            None \<Rightarrow> Inl (NativeError InvalidCharacterError)
          | Some s \<Rightarrow> Inr s)))"

section \<open>atob inverts btoa\<close>

lemma b64_value_unit: "n < 64 \<Longrightarrow> b64_value (b64_unit n) = Some n"
  by (auto simp: b64_value_def b64_unit_def Let_def)

lemma sextets_bound: "n \<in> set (sextets bs) \<Longrightarrow> n < 64"
proof (induction bs rule: sextets.induct)
  case (2 a)
  then show ?case using unat_byte_less [of a] by auto
next
  case (3 a b)
  then show ?case using unat_byte_less [of a] unat_byte_less [of b] by auto
next
  case (4 a b c bs)
  then show ?case using unat_byte_less [of a] unat_byte_less [of b] unat_byte_less [of c] by auto
qed simp

lemma sextet_glue_16:
  fixes x y :: nat
  assumes "y < 256"
  shows "(x mod 4 * 16 + y div 16) div 16 = x mod 4" "(x mod 4 * 16 + y div 16) mod 16 = y div 16"
proof -
  have "y div 16 < 16" using assms by auto
  then show "(x mod 4 * 16 + y div 16) div 16 = x mod 4" "(x mod 4 * 16 + y div 16) mod 16 = y div 16"
    by auto
qed

lemma sextet_glue_4:
  fixes y z :: nat
  assumes "z < 256"
  shows "(y mod 16 * 4 + z div 64) div 4 = y mod 16" "(y mod 16 * 4 + z div 64) mod 4 = z div 64"
proof -
  have "z div 64 < 4" using assms by auto
  then show "(y mod 16 * 4 + z div 64) div 4 = y mod 16" "(y mod 16 * 4 + z div 64) mod 4 = z div 64"
    by auto
qed

lemma b64_bytes_sextets: "b64_bytes (sextets bs) = bs"
proof (induction bs rule: sextets.induct)
  case (3 a b)
  show ?case using sextet_glue_16 [OF unat_byte_less] by simp
next
  case (4 a b c bs)
  then show ?case
    using sextet_glue_16 [OF unat_byte_less] sextet_glue_4 [OF unat_byte_less] by simp
qed simp_all

lemma length_sextets: "(length (sextets bs) + (3 - length bs mod 3) mod 3) mod 4 = 0"
proof (induction bs rule: sextets.induct)
  case (4 a b c bs)
  have "Suc (Suc (Suc (length bs))) mod 3 = length bs mod 3" by presburger
  with 4 show ?case by simp
qed simp_all

lemma b64_unit_not_pad: "n < 64 \<Longrightarrow> b64_unit n \<noteq> pad \<and> \<not> ascii_space (b64_unit n)"
  by (auto simp: ascii_space_def dest!: b64_value_unit) (auto simp: b64_value_def)

lemma b64_encode_no_space: "filter (\<lambda>u. \<not> ascii_space u) (b64_encode bs) = b64_encode bs"
proof -
  have "\<not> ascii_space pad" by (simp add: ascii_space_def cu_def)
  then show ?thesis
    using b64_unit_not_pad sextets_bound
    by (auto simp: b64_encode_def filter_id_conv intro!: filter_True)
qed

lemma strip_padding_replicate:
  assumes "\<not> suffix [pad] t" "(length t + k) mod 4 = 0" "k \<le> 2"
  shows "strip_padding (t @ replicate k pad) = t"
proof -
  have two: "\<not> suffix [pad, pad] t" "\<not> suffix [pad, pad] (t @ [pad])"
    using assms(1) snoc_suffix_snoc [of "[pad]" pad t pad]
    by (auto dest: suffix_order.trans [of "[pad]" "[pad, pad]" t, rotated] simp: suffix_Cons)
  have "k = 0 \<or> k = 1 \<or> k = 2" using assms(3) by linarith
  then show ?thesis
  proof (elim disjE)
    assume k: "k = 2"
    then have "t @ replicate k pad = t @ [pad, pad]" by (simp add: numeral_2_eq_2)
    moreover have "suffix [pad, pad] (t @ [pad, pad])" by (simp add: suffix_def)
    ultimately show ?thesis using assms k by (simp add: strip_padding_def)
  qed (use assms two in \<open>simp_all add: strip_padding_def\<close>)
qed

lemma strip_padding_encode: "strip_padding (b64_encode bs) = map b64_unit (sextets bs)"
proof -
  have "b64_unit y \<noteq> pad" if "sextets bs = ys @ [y]" for y ys
    using b64_unit_not_pad [of y] sextets_bound [of y bs] that by simp
  then have "\<not> suffix [pad] (map b64_unit (sextets bs))"
    by (cases "sextets bs" rule: rev_cases) (auto simp: suffix_def)
  then show ?thesis
    unfolding b64_encode_def using length_sextets [of bs] by (intro strip_padding_replicate) auto
qed

lemma sextets_not_1: "length (sextets bs) mod 4 \<noteq> 1"
  by (induction bs rule: sextets.induct) auto

lemma atob_b64_encode: "atob (b64_encode bs) = Some (binary_string bs)"
proof -
  have "map (the \<circ> b64_value) (map b64_unit (sextets bs)) = sextets bs"
    using b64_value_unit sextets_bound by (intro map_idI [of "sextets bs", THEN trans [rotated]]) auto
  moreover have "list_all is_b64 (map b64_unit (sextets bs))"
    using b64_value_unit sextets_bound by (auto simp: list_all_iff)
  ultimately show ?thesis
    using sextets_not_1 [of bs]
    by (simp add: atob_def b64_encode_no_space strip_padding_encode b64_bytes_sextets)
qed

lemma byte_of_unit: "byte_of (unat (unit_of (unat (b :: byte)))) = b"
  using unat_byte_less [of b] by simp

lemma binary_string_bytes [simp]: "map (\<lambda>u. byte_of (unat u)) (binary_string bs) = bs"
  by (simp add: binary_string_def o_def byte_of_unit)

lemma btoa_binary_string: "btoa (binary_string bs) = Some (b64_encode bs)"
proof -
  have "unat (unit_of (unat b)) < 256" for b :: byte using unat_byte_less [of b] by simp
  then have "list_all (\<lambda>u. unat u < 256) (binary_string bs)"
    by (simp add: binary_string_def list_all_iff)
  then show ?thesis by (simp add: btoa_def)
qed

section \<open>The strict decoder accepts what the encoder emits\<close>

lemma is_b64_unit: "n < 64 \<Longrightarrow> is_b64 (b64_unit n)"
  by (simp add: b64_value_unit)

lemma BASE64_RE_encode: "BASE64_RE (b64_encode bs)"
  unfolding b64_encode_def
proof (induction bs rule: sextets.induct)
  case (4 a b c bs)
  have "Suc (Suc (Suc (length bs))) mod 3 = length bs mod 3" by presburger
  moreover have "\<forall>n\<in>set (take 4 (sextets (a # b # c # bs))). is_b64 (b64_unit n)"
    using sextets_bound [of _ "a # b # c # bs"] is_b64_unit in_set_takeD by metis
  ultimately show ?case using 4 by simp
next
  case (2 a)
  have "\<forall>n\<in>set (sextets [a]). is_b64 (b64_unit n)" using sextets_bound by (intro ballI is_b64_unit)
  then show ?case by (simp add: numeral_2_eq_2)
next
  case (3 a b)
  have "\<forall>n\<in>set (sextets [a, b]). is_b64 (b64_unit n)" using sextets_bound by (intro ballI is_b64_unit)
  then show ?case by simp
qed simp

lemma is_b64_not_space: "is_b64 u \<or> u = pad \<Longrightarrow> \<not> is_space u"
proof -
  assume "is_b64 u \<or> u = pad"
  then have "33 \<le> unat u \<and> unat u < 128" by (auto simp: b64_value_def Let_def split: if_splits)
  then show ?thesis by (auto simp: is_space_def word_le_nat_alt)
qed

lemma BASE64_RE_units: "BASE64_RE s \<Longrightarrow> u \<in> set s \<Longrightarrow> is_b64 u \<or> u = pad"
  by (induction s rule: BASE64_RE.induct) auto

lemma trim_no_space: "(\<And>u. u \<in> set s \<Longrightarrow> \<not> is_space u) \<Longrightarrow> trim s = s"
proof -
  assume *: "\<And>u. u \<in> set s \<Longrightarrow> \<not> is_space u"
  have drop: "dropWhile is_space t = t" if "\<And>u. u \<in> set t \<Longrightarrow> \<not> is_space u" for t
    using that by (cases t) auto
  have "dropWhile is_space s = s" "dropWhile is_space (rev s) = rev s"
    by (rule drop, use * in simp)+
  then show ?thesis by (simp add: trim_def trimStart_def trimEnd_def)
qed

text \<open>The trimming test of the guard never rejects a string the pattern accepts.\<close>

lemma BASE64_RE_trim: "BASE64_RE s \<Longrightarrow> trim s = s"
  by (rule trim_no_space) (rule is_b64_not_space, rule BASE64_RE_units)

lemma decode_b64_encode:
  "has_atob rt \<Longrightarrow> bs \<noteq> [] \<Longrightarrow> decodeBase64ToUtf8 rt (b64_encode bs) = Inr (utf8_decode bs)"
proof -
  assume "has_atob rt" "bs \<noteq> []"
  moreover from \<open>bs \<noteq> []\<close> have "b64_encode bs \<noteq> []"
    by (cases bs rule: sextets.cases) (auto simp: b64_encode_def)
  ultimately show ?thesis
    by (simp add: decodeBase64ToUtf8_def BASE64_RE_encode BASE64_RE_trim atob_b64_encode)
qed

lemma encodeUtf8ToBase64_eq:
  "has_btoa rt \<Longrightarrow> encodeUtf8ToBase64 rt s = Inr (b64_encode (utf8_encode s))"
proof -
  have "concat (map (\<lambda>byte. [unit_of (unat byte)]) bs) = binary_string bs" for bs
    by (induction bs) (auto simp: binary_string_def)
  then show "has_btoa rt \<Longrightarrow> ?thesis"
    by (simp add: encodeUtf8ToBase64_def btoa_binary_string)
qed

interpretation b64: codec b64_encode "\<lambda>s. map_option (map (\<lambda>u. byte_of (unat u))) (atob s)" "\<lambda>_. True"
  by unfold_locales (simp add: atob_b64_encode)

interpretation b64_utf8: codec_chain utf8_encode "\<lambda>bs. Some (utf8_decode bs)" utf8_ok
    b64_encode "\<lambda>s. map_option (map (\<lambda>u. byte_of (unat u))) (atob s)" "\<lambda>_. True"
  by unfold_locales simp

lemma utf8_encode_eq_Nil: "utf8_encode s = [] \<longleftrightarrow> s = []"
proof -
  have "utf8_bytes c \<noteq> []" for c by (simp add: utf8_bytes_def)
  moreover have "code_points s = [] \<longleftrightarrow> s = []" by (cases s rule: code_points.cases) auto
  ultimately show ?thesis by (simp add: utf8_encode_def)
qed

lemma decode_encode_utf8:
  assumes "has_atob rt" "has_btoa rt" "utf8_ok s" "s \<noteq> []"
  shows "bindR (encodeUtf8ToBase64 rt s) (decodeBase64ToUtf8 rt) = Inr s"
  using assms by (simp add: encodeUtf8ToBase64_eq decode_b64_encode utf8_encode_eq_Nil utf8_decode_encode)

section \<open>Properties\<close>

text \<open>
  Text survives base64: on a runtime that has both functions, every non-empty text without
  unpaired surrogates and without a leading byte order mark is read back exactly from what
  \<open>encodeUtf8ToBase64\<close> makes of it.
\<close>

lemma base64_text_roundtrip:
  assumes "has_atob rt" "has_btoa rt" "utf8_ok s" "s \<noteq> []"
  shows "\<exists>b. encodeUtf8ToBase64 rt s = Inr b \<and> decodeBase64ToUtf8 rt b = Inr s"
  using decode_encode_utf8 [OF assms] assms(2) by (simp add: encodeUtf8ToBase64_eq)

lemma base64_text_roundtrip_witness:
  "\<exists>b. encodeUtf8ToBase64 \<lparr>has_atob = True, has_btoa = True\<rparr> [233, 0x20AC] = Inr b \<and>
     decodeBase64ToUtf8 \<lparr>has_atob = True, has_btoa = True\<rparr> b = Inr [233, 0x20AC]"
  by (rule base64_text_roundtrip) (simp_all add: utf8_ok_def is_high_def is_low_def)

text \<open>A string the pattern accepts is base64 digits and up to two padding characters.\<close>

lemma BASE64_RE_split:
  assumes "BASE64_RE s"
  shows "\<exists>t k. s = t @ replicate k pad \<and> list_all is_b64 t \<and> k \<le> 2 \<and> length s mod 4 = 0"
  using assms
proof (induction s rule: BASE64_RE.induct)
  case (2 a b c d s)
  then consider (digits) "is_b64 a" "is_b64 b" "is_b64 c" "is_b64 d" "BASE64_RE s"
    | (two) "s = []" "is_b64 a" "is_b64 b" "c = pad" "d = pad"
    | (one) "s = []" "is_b64 a" "is_b64 b" "is_b64 c" "d = pad" by auto
  then show ?case
  proof cases
    case digits
    then obtain t k where "s = t @ replicate k pad" "list_all is_b64 t" "k \<le> 2" "length s mod 4 = 0"
      using 2(1) by metis
    with digits show ?thesis by (intro exI [of _ "a # b # c # d # t"] exI [of _ k]) auto
  next
    case two
    then show ?thesis by (intro exI [of _ "[a, b]"] exI [of _ 2]) (simp add: numeral_2_eq_2)
  next
    case one
    then show ?thesis by (intro exI [of _ "[a, b, c]"] exI [of _ 1]) simp
  qed
qed auto

lemma atob_BASE64_RE:
  assumes "BASE64_RE s"
  shows "atob s \<noteq> None"
proof -
  obtain t k where s: "s = t @ replicate k pad" and t: "list_all is_b64 t" "k \<le> 2" "length s mod 4 = 0"
    using BASE64_RE_split [OF assms] by metis
  have space: "is_space u" if "ascii_space u" for u using that by (auto simp: ascii_space_def is_space_def)
  have "\<not> ascii_space u" if "u \<in> set s" for u
    using is_b64_not_space [OF BASE64_RE_units [OF assms that]] space by blast
  then have "filter (\<lambda>u. \<not> ascii_space u) s = s" by (simp add: filter_id_conv)
  moreover have "strip_padding s = t"
  proof -
    have "b64_value pad = None" by (simp add: b64_value_def)
    then have "\<not> suffix [pad] t" using t(1) by (auto simp: suffix_def)
    then show ?thesis unfolding s using t(2, 3) s by (intro strip_padding_replicate) auto
  qed
  moreover have "length t mod 4 \<noteq> 1"
  proof -
    have "(length t + k) mod 4 = 0" using t(3) s by simp
    then show ?thesis using t(2) by presburger
  qed
  ultimately show ?thesis using t(1) by (simp add: atob_def)
qed

text \<open>
  The strict decoder rejects with an error everything that is not canonical base64: the
  empty string, a string with white space around it, and one the pattern does not match;
  on everything else it succeeds if the runtime can decode.
\<close>

lemma decodeBase64_accepts:
  "is_ok (decodeBase64ToUtf8 rt s) \<longleftrightarrow> s \<noteq> [] \<and> BASE64_RE s \<and> has_atob rt"
  using BASE64_RE_trim [of s] atob_BASE64_RE [of s] by (auto simp: decodeBase64ToUtf8_def split: option.splits)

end
