(* ===== verification/JsNumber.thy ===== *)
theory JsNumber
  imports Utf8 Complex_Main "HOL-Library.Log_Nat"
begin

text \<open>
  Numbers of the source language: IEEE 754 doubles. A finite number is the rational it
  stands for (\<open>Fin\<close>); the two zeros are one value, since no operation the repository
  uses tells them apart. \<open>to_double\<close> rounds a rational to the nearest double (ties to
  even, overflow to infinity), which is what a numeric literal of a JSON text denotes;
  \<open>num_to_string\<close> is \<^verbatim>\<open>String(x)\<close>.

  Facts: every integer of magnitude at most \<open>2 ^ 53 - 1\<close> is its own double, prints as its
  decimal digits, and those digits read back to it; and the integer part of a rounded quotient
  of two such integers is their integer quotient.
\<close>

section \<open>Doubles\<close>

datatype jsnum = NaN | Inf bool | Fin rat

text \<open>The \<open>k\<close> with \<open>b powi k \<le> x < b powi (k + 1)\<close>, for a positive rational.\<close>

definition exponent_of :: "nat \<Rightarrow> rat \<Rightarrow> int" where
  "exponent_of b x =
     (case quotient_of x of (n, d) \<Rightarrow>
        (let k = int (floorlog b (nat n)) - int (floorlog b (nat d))
         in if rat_of_nat b powi k \<le> x then k else k - 1))"

definition round_half_even :: "rat \<Rightarrow> int" where
  "round_half_even q =
     (let f = \<lfloor>q\<rfloor>; d = q - of_int f
      in if d < 1 / 2 then f else if 1 / 2 < d then f + 1 else if even f then f else f + 1)"

definition to_double :: "rat \<Rightarrow> jsnum" where
  "to_double r =
     (if r = 0 then Fin 0
      else
        (let a = \<bar>r\<bar>; p = max (exponent_of 2 a - 52) (- 1074);
             v = of_int (round_half_even (a / 2 powi p)) * 2 powi p
         in if 2 ^ 1024 \<le> v then Inf (r < 0) else Fin (if r < 0 then - v else v)))"

section \<open>The predicates the sources use\<close>

definition max_safe_integer :: int where
  "max_safe_integer = 9007199254740991"

definition isFinite_num :: "jsnum \<Rightarrow> bool" where
  "isFinite_num x = (case x of Fin _ \<Rightarrow> True | _ \<Rightarrow> False)"

definition isSafeInteger :: "jsnum \<Rightarrow> bool" where
  "isSafeInteger x =
     (case x of Fin r \<Rightarrow> of_int \<lfloor>r\<rfloor> = r \<and> \<bar>\<lfloor>r\<rfloor>\<bar> \<le> max_safe_integer | _ \<Rightarrow> False)"

definition positive_num :: "jsnum \<Rightarrow> bool" where
  "positive_num x = (case x of NaN \<Rightarrow> False | Inf neg \<Rightarrow> \<not> neg | Fin r \<Rightarrow> 0 < r)"

definition num_of_int :: "int \<Rightarrow> jsnum" where
  "num_of_int n = Fin (of_int n)"

lemma num_of_int_inject [simp]: "num_of_int m = num_of_int n \<longleftrightarrow> m = n"
  by (simp add: num_of_int_def)

lemma isSafeInteger_num_of_int [simp]:
  "isSafeInteger (num_of_int n) \<longleftrightarrow> \<bar>n\<bar> \<le> max_safe_integer"
  by (simp add: isSafeInteger_def num_of_int_def)

lemma positive_num_of_int [simp]: "positive_num (num_of_int n) \<longleftrightarrow> 0 < n"
  by (simp add: positive_num_def num_of_int_def)

lemma isFinite_num_of_int [simp]: "isFinite_num (num_of_int n)"
  by (simp add: isFinite_num_def num_of_int_def)

lemma isSafeIntegerE:
  assumes "isSafeInteger x"
  obtains n where "x = num_of_int n" "\<bar>n\<bar> \<le> max_safe_integer"
proof (cases x)
  case (Fin r)
  then have "x = num_of_int \<lfloor>r\<rfloor>" using assms by (auto simp: isSafeInteger_def num_of_int_def)
  with assms show ?thesis by (auto intro: that)
qed (use assms in \<open>auto simp: isSafeInteger_def\<close>)

section \<open>Integers are their own doubles\<close>

lemma round_half_even_int [simp]: "round_half_even (of_int n) = n"
  by (simp add: round_half_even_def)

lemma floorlog_lower:
  assumes "0 < n"
  shows "2 ^ (floorlog 2 (nat n) - 1) \<le> (of_int n :: rat)" "1 \<le> floorlog 2 (nat n)"
proof -
  have "2 ^ (floorlog 2 (nat n) - 1) \<le> nat n"
    using floorlog_bounds [of "nat n" 2] assms by simp
  then have "2 ^ (floorlog 2 (nat n) - 1) \<le> n" using assms by (simp add: le_nat_iff)
  then have "(of_int (2 ^ (floorlog 2 (nat n) - 1)) :: rat) \<le> of_int n"
    by (simp only: of_int_le_iff)
  then show "2 ^ (floorlog 2 (nat n) - 1) \<le> (of_int n :: rat)" by simp
  show "1 \<le> floorlog 2 (nat n)" using assms by (simp add: floorlog_def)
qed

lemma exponent_of_int:
  assumes "0 < n"
  shows "exponent_of 2 (of_int n) = int (floorlog 2 (nat n) - 1)"
proof -
  define f where "f = floorlog 2 (nat n)"
  have f: "int f - int 1 = int (f - 1)" "2 ^ (f - 1) \<le> (of_int n :: rat)"
    using floorlog_lower [OF assms] by (simp_all add: f_def)
  have q: "quotient_of (of_int n) = (n, 1)" using quotient_of_int [of n] by (simp add: Rat.of_int_def)
  have "floorlog 2 (nat 1) = 1" by (simp add: floorlog_def)
  then have "exponent_of 2 (of_int n) =
      (let k = int f - int 1 in if rat_of_nat 2 powi k \<le> of_int n then k else k - 1)"
    unfolding exponent_of_def by (simp only: q prod.case f_def)
  then show ?thesis using f by (simp only: Let_def power_int_of_nat of_nat_numeral f_def if_True)
qed

lemma floorlog_safe:
  assumes "n \<le> max_safe_integer"
  shows "floorlog 2 (nat n) \<le> 53"
proof (cases "0 < n")
  case True
  then have "nat n < 2 ^ 53" using assms by (simp add: max_safe_integer_def nat_less_iff)
  then show ?thesis by (simp add: floorlog_le_iff)
qed (simp add: floorlog_def)

lemma scaled_int_rounds:
  assumes "k \<le> 52"
  shows "of_int (round_half_even (of_int n / 2 powi (int k - 52))) * 2 powi (int k - 52) = (of_int n :: rat)"
proof -
  have "int k - 52 = - int (52 - k)" using assms by simp
  then have p: "(2::rat) powi (int k - 52) = inverse (2 ^ (52 - k))"
    by (simp only: power_int_minus power_int_of_nat)
  then have q: "of_int n / (2::rat) powi (int k - 52) = of_int (n * 2 ^ (52 - k))"
    by (simp add: divide_inverse)
  show ?thesis by (simp only: q round_half_even_int) (simp add: p)
qed

lemma to_double_pos:
  assumes "0 < n" "n \<le> max_safe_integer"
  shows "to_double (of_int n) = Fin (of_int n)"
proof -
  define k where "k = floorlog 2 (nat n) - 1"
  have k: "k \<le> 52" using floorlog_safe [OF assms(2)] by (simp add: k_def)
  have "exponent_of 2 (of_int n) = int k" using exponent_of_int [OF assms(1)] by (simp add: k_def)
  moreover have "max (int k - 52) (- 1074) = int k - 52" using k by simp
  moreover have "\<not> 2 ^ 1024 \<le> (of_int n :: rat)"
  proof -
    have "(of_int n :: rat) \<le> of_int max_safe_integer" using assms(2) by (simp only: of_int_le_iff)
    also have "\<dots> < 2 ^ 1024" by (simp add: max_safe_integer_def)
    finally show ?thesis by simp
  qed
  ultimately show ?thesis
    using assms scaled_int_rounds [OF k, of n] by (simp add: to_double_def Let_def)
qed

lemma to_double_int: "\<bar>n\<bar> \<le> max_safe_integer \<Longrightarrow> to_double (of_int n) = num_of_int n"
proof -
  assume n: "\<bar>n\<bar> \<le> max_safe_integer"
  consider "n = 0" | "0 < n" | "n < 0" by linarith
  then show ?thesis
  proof cases
    case 3
    have "to_double (of_int (- n)) = Fin (of_int (- n))" using n 3 by (intro to_double_pos) auto
    with 3 show ?thesis
      by (auto simp: to_double_def Let_def num_of_int_def split: if_splits)
  qed (use n to_double_pos in \<open>auto simp: to_double_def num_of_int_def\<close>)
qed

section \<open>Rounded quotients\<close>

lemma floorlog_quotient:
  assumes "0 < n" "0 < d"
  shows "2 powi (int (floorlog 2 (nat n)) - int (floorlog 2 (nat d)) - 1) \<le> (of_int n / of_int d :: rat)"
proof -
  define f g where "f = floorlog 2 (nat n)" and "g = floorlog 2 (nat d)"
  have n: "2 ^ (f - 1) \<le> (of_int n :: rat)" "1 \<le> f" using floorlog_lower [OF assms(1)] by (simp_all add: f_def)
  have "nat d < 2 ^ g" using floorlog_bounds [of "nat d" 2] assms(2) by (simp add: g_def)
  then have "d < 2 ^ g" using assms(2) by (simp add: nat_less_iff)
  then have "(of_int d :: rat) \<le> of_int (2 ^ g)" by (simp only: of_int_le_iff)
  then have d: "(of_int d :: rat) \<le> 2 ^ g" by simp
  have "int f - int g - 1 = int (f - 1) - int g" using n(2) by simp
  then have "2 powi (int f - int g - 1) = (2 ^ (f - 1) / 2 ^ g :: rat)"
    by (simp only: power_int_diff [OF disjI1] zero_neq_numeral [symmetric] not_False_eq_True power_int_of_nat)
  also have "\<dots> \<le> of_int n / of_int d" using n(1) d assms by (intro frac_le) auto
  finally show ?thesis by (simp add: f_def g_def)
qed

lemma exponent_of_le:
  assumes "0 < x"
  shows "2 powi exponent_of 2 x \<le> x"
proof -
  obtain n d where q: "quotient_of x = (n, d)" by fastforce
  then have x: "x = of_int n / of_int d" and d: "0 < d"
    using quotient_of_div quotient_of_denom_pos by auto
  then have n: "0 < n" using assms by (simp add: zero_less_divide_iff)
  show ?thesis using floorlog_quotient [OF n d] unfolding x [symmetric]
    by (simp add: exponent_of_def q Let_def)
qed

lemma round_half_even_ge: "\<lfloor>q\<rfloor> \<le> round_half_even q"
  by (simp add: round_half_even_def Let_def)

lemma round_half_even_le: "of_int (round_half_even q) \<le> q + 1 / 2"
  by (simp add: round_half_even_def Let_def) linarith

text \<open>
  The quotient of two integers may be rounded, yet its integer part is exact: the next integer
  is further away than the rounding reaches.
\<close>

lemma half_ulp_less:
  assumes "k \<le> d" "d \<le> max_safe_integer" "0 < k"
  shows "2 powi max (exponent_of 2 (of_int d / of_int k) - 52) (- 1074) / 2 < (1 / of_int k :: rat)"
proof -
  define a :: rat where "a = of_int d / of_int k"
  have "d < 2 ^ 53" "k < 2 ^ 53" using assms by (simp_all add: max_safe_integer_def)
  then have "(of_int d :: rat) < of_int (2 ^ 53)" "(of_int k :: rat) < of_int (2 ^ 53)" by (simp_all only: of_int_less_iff)
  then have bounds: "a / 2 ^ 53 < 1 / of_int k" "1 / 2 ^ 1075 < (1 / of_int k :: rat)"
    using assms by (simp_all add: a_def field_simps)
  have "2 powi exponent_of 2 a \<le> a" using assms by (intro exponent_of_le) (simp add: a_def)
  moreover have "(2 powi (exponent_of 2 a - 52) :: rat) = 2 powi exponent_of 2 a / 2 ^ 52"
    using power_int_diff [of "2 :: rat" "exponent_of 2 a" 52] by simp
  ultimately have "2 powi (exponent_of 2 a - 52) / 2 \<le> a / 2 ^ 53" by simp
  moreover have "(2 powi (- 1074) :: rat) / 2 = 1 / 2 ^ 1075" by simp
  ultimately show ?thesis using bounds by (simp add: a_def max_def)
qed

lemma div_between: "0 < k \<Longrightarrow> d div k * k \<le> d \<and> d < (d div k + 1) * (k :: int)"
  using pos_mod_sign [of k d] pos_mod_bound [of k d] div_mult_mod_eq [of d k] distrib_right [of "d div k" 1 k]
  by linarith

lemma div_bounds:
  assumes "0 < k"
  shows "of_int (d div k) \<le> (of_int d / of_int k :: rat)"
    "of_int d / of_int k + 1 / of_int k \<le> (of_int (d div k) + 1 :: rat)"
proof -
  have "d div k * k \<le> d" "d + 1 \<le> (d div k + 1) * k" using div_between [OF assms, of d] by linarith+
  then have "of_int (d div k * k) \<le> (of_int d :: rat)" "of_int (d + 1) \<le> (of_int ((d div k + 1) * k) :: rat)"
    by (simp_all only: of_int_le_iff)
  then show "of_int (d div k) \<le> (of_int d / of_int k :: rat)"
    "of_int d / of_int k + 1 / of_int k \<le> (of_int (d div k) + 1 :: rat)"
    using assms by (simp_all add: field_simps)
qed

lemma floor_to_double_div:
  assumes "k \<le> d" "d \<le> max_safe_integer" "1 < k"
  obtains r where "to_double (of_int d / of_int k) = Fin r" "\<lfloor>r\<rfloor> = d div k"
proof -
  define a :: rat where "a = of_int d / of_int k"
  define p where "p = max (exponent_of 2 a - 52) (- 1074)"
  define v :: rat where "v = of_int (round_half_even (a / 2 powi p)) * 2 powi p"
  have a: "0 < a" using assms by (simp add: a_def)
  have half: "2 powi p / 2 < 1 / (of_int k :: rat)"
    using half_ulp_less [of k d] assms by (simp add: p_def a_def)
  moreover have "1 / (of_int k :: rat) \<le> 1 / 2" using assms(3) by (intro divide_left_mono) auto
  ultimately have "2 powi p < (1 :: rat)" by simp
  then have "\<not> 0 \<le> p" using one_le_power [of "2 :: rat" "nat p"] by (force simp only: power_int_def if_True)
  define m where "m = nat (- p)"
  then have m: "p = - int m" using \<open>\<not> 0 \<le> p\<close> by simp
  have div: "of_int (d div k) \<le> a" "a + 1 / of_int k \<le> of_int (d div k) + 1"
    using div_bounds [of k d] assms(3) by (simp_all add: a_def)
  have scale: "a / 2 powi p = a * 2 ^ m" by (simp add: m power_int_minus divide_inverse)
  have "of_int (d div k * 2 ^ m) \<le> a / 2 powi p" using div(1) by (simp add: scale)
  then have "d div k * 2 ^ m \<le> round_half_even (a / 2 powi p)"
    using round_half_even_ge [of "a / 2 powi p"] by (simp only: le_floor_iff [symmetric])
  then have "of_int (d div k * 2 ^ m) * 2 powi p \<le> v"
    unfolding v_def by (intro mult_right_mono) (simp_all only: of_int_le_iff zero_le_power_int zero_le_numeral)
  then have low: "of_int (d div k) \<le> v" by (simp add: m power_int_minus field_simps)
  have "v \<le> (a / 2 powi p + 1 / 2) * 2 powi p"
    unfolding v_def by (intro mult_right_mono round_half_even_le) simp
  then have "v \<le> a + 2 powi p / 2" by (simp add: distrib_right)
  then have high: "v < of_int (d div k) + 1" using half div(2) by simp
  have floor: "\<lfloor>v\<rfloor> = d div k" using low high by (simp add: floor_unique)
  have "d div k \<le> d" using zdiv_mono2 [of d 1 k] assms by simp
  then have "d div k < 2 ^ 53" using assms(2) by (simp add: max_safe_integer_def)
  then have "of_int (d div k) + 1 \<le> (of_int (2 ^ 53) :: rat)" by linarith
  then have "v < 2 ^ 53" using high by simp
  then have "v < 2 ^ 1024" by (rule less_le_trans) simp
  then have "to_double a = Fin v" using a by (simp add: to_double_def Let_def p_def [symmetric] v_def [symmetric])
  then show ?thesis using floor by (intro that) (simp_all add: a_def)
qed

section \<open>Decimal digits\<close>

definition digit :: "nat \<Rightarrow> cunit" where
  "digit d = unit_of (48 + d)"

definition is_digit :: "cunit \<Rightarrow> bool" where
  "is_digit u \<longleftrightarrow> 48 \<le> unat u \<and> unat u \<le> 57"

definition digit_val :: "cunit \<Rightarrow> nat" where
  "digit_val u = unat u - 48"

definition digits_value :: "jstring \<Rightarrow> nat" where
  "digits_value s = foldl (\<lambda>a u. a * 10 + digit_val u) 0 s"

fun dec_string :: "nat \<Rightarrow> jstring" where
  "dec_string n =
     (if n < 10 then [digit n] else dec_string (n div 10) @ [digit (n mod 10)])"

declare dec_string.simps [simp del]

lemma digit_simps [simp]:
  "d < 10 \<Longrightarrow> is_digit (digit d)" "d < 10 \<Longrightarrow> digit_val (digit d) = d"
  by (simp_all add: digit_def is_digit_def digit_val_def)

lemma digits_value_append1: "digits_value (s @ [u]) = digits_value s * 10 + digit_val u"
  by (simp add: digits_value_def)

lemma dec_string_induct [case_names small large]:
  assumes "\<And>n. n < 10 \<Longrightarrow> P n" "\<And>n. \<not> n < 10 \<Longrightarrow> P (n div 10) \<Longrightarrow> P n"
  shows "P (n :: nat)"
  using assms by (induction n rule: dec_string.induct) blast

lemma digits_value_dec_string [simp]: "digits_value (dec_string n) = n"
proof (induction n rule: dec_string_induct)
  case (small n)
  then show ?case by (simp add: dec_string.simps digits_value_def)
next
  case (large n)
  then show ?case by (subst dec_string.simps) (simp add: digits_value_append1)
qed

lemma dec_string_digits: "list_all is_digit (dec_string n)"
proof (induction n rule: dec_string_induct)
  case (large n)
  then show ?case by (subst dec_string.simps) simp
qed (simp add: dec_string.simps)

lemma dec_string_nonempty [simp]: "dec_string n \<noteq> []"
  by (subst dec_string.simps) simp

lemma dec_string_0 [simp]: "dec_string 0 = [digit 0]"
  by (simp add: dec_string.simps)

lemma hd_dec_string: "n \<noteq> 0 \<Longrightarrow> hd (dec_string n) \<noteq> digit 0"
proof (induction n rule: dec_string_induct)
  case (small n)
  then show ?case using digit_simps(2) [of n] digit_simps(2) [of 0]
    by (metis dec_string.simps list.sel(1) zero_less_numeral)
next
  case (large n)
  then have "n div 10 \<noteq> 0" by auto
  with large have "hd (dec_string (n div 10)) \<noteq> digit 0" by simp
  with large show ?case by (subst dec_string.simps) (simp add: hd_append)
qed

lemma dec_string_inject [simp]: "dec_string m = dec_string n \<longleftrightarrow> m = n"
  by (metis digits_value_dec_string)

section \<open>Numbers to strings\<close>

text \<open>
  The shortest digits that read back to a positive double \<open>x\<close>: a significand \<open>s\<close> of
  \<open>k\<close> digits and an exponent \<open>n\<close> with \<open>to_double (s * 10 powi (n - k)) = Fin x\<close>,
  for the least such \<open>k\<close>. Seventeen digits identify every double, so the search over
  \<open>k = 1, ..., 17\<close> finds one.
\<close>

definition digit_candidates :: "rat \<Rightarrow> nat \<Rightarrow> (int \<times> int) list" where
  "digit_candidates x k =
     [(s, n). n \<leftarrow> [exponent_of 10 x + 1, exponent_of 10 x + 2],
              s \<leftarrow> [\<lfloor>x * 10 powi (int k - n)\<rfloor>, \<lceil>x * 10 powi (int k - n)\<rceil>],
              10 ^ (k - 1) \<le> s \<and> s < 10 ^ k \<and> to_double (of_int s * 10 powi (n - int k)) = Fin x]"

definition shortest_digits :: "rat \<Rightarrow> (int \<times> nat \<times> int) option" where
  "shortest_digits x =
     map_option
       (\<lambda>k. case arg_min_list (\<lambda>(s, n). \<bar>of_int s * 10 powi (n - int k) - x\<bar>) (digit_candidates x k)
            of (s, n) \<Rightarrow> (s, k, n))
       (List.find (\<lambda>k. digit_candidates x k \<noteq> []) [1..<18])"

definition format_digits :: "int \<Rightarrow> nat \<Rightarrow> int \<Rightarrow> jstring" where
  "format_digits s k n =
     (let ds = dec_string (nat s) in
      if int k \<le> n \<and> n \<le> 21 then ds @ replicate (nat (n - int k)) (digit 0)
      else if 0 < n \<and> n \<le> 21 then take (nat n) ds @ js ''.'' @ drop (nat n) ds
      else if - 6 < n \<and> n \<le> 0 then js ''0.'' @ replicate (nat (- n)) (digit 0) @ ds
      else take 1 ds @ (if k = 1 then [] else js ''.'' @ drop 1 ds) @ js ''e'' @
           (if 0 \<le> n - 1 then js ''+'' else js ''-'') @ dec_string (nat \<bar>n - 1\<bar>))"

definition pos_to_string :: "rat \<Rightarrow> jstring" where
  "pos_to_string r =
     (if of_int \<lfloor>r\<rfloor> = r \<and> \<lfloor>r\<rfloor> \<le> max_safe_integer then dec_string (nat \<lfloor>r\<rfloor>)
      else
        (case shortest_digits r of
           Some (s, k, n) \<Rightarrow> format_digits s k n
         | None \<Rightarrow> dec_string (nat \<lfloor>r\<rfloor>)))"

definition num_to_string :: "jsnum \<Rightarrow> jstring" where
  "num_to_string x =
     (case x of
        NaN \<Rightarrow> js ''NaN''
      | Inf neg \<Rightarrow> (if neg then js ''-Infinity'' else js ''Infinity'')
      | Fin r \<Rightarrow> (if r < 0 then js ''-'' @ pos_to_string (- r) else pos_to_string r))"

definition int_string :: "int \<Rightarrow> jstring" where
  "int_string n = (if n < 0 then js ''-'' @ dec_string (nat (- n)) else dec_string (nat n))"

lemma num_to_string_int:
  "\<bar>n\<bar> \<le> max_safe_integer \<Longrightarrow> num_to_string (num_of_int n) = int_string n"
  by (auto simp: num_to_string_def num_of_int_def pos_to_string_def int_string_def
      simp flip: of_int_minus)

lemma int_string_nat [simp]: "int_string (int n) = dec_string n"
  by (simp add: int_string_def)

end
