(* ===== verification/Json.thy ===== *)
theory Json
  imports JsNumber
begin

text \<open>
  JSON values, \<^verbatim>\<open>JSON.parse\<close> and \<^verbatim>\<open>JSON.stringify\<close>, as ECMAScript defines them.

  An object is its list of own properties in enumeration order: array-index keys first in
  ascending order, then the other keys in insertion order (\<open>canonical\<close>). \<open>obj_set\<close> is
  property assignment and keeps that order; a duplicate key of a text overwrites the value
  at the first position. The parser takes a bound on the recursion depth;
  \<open>2 * length s + 2\<close> is enough for every text \<open>s\<close> (\<open>parse_value_fuel\<close>), so
  \<open>JSON_parse\<close> is the parser of the standard, and \<open>None\<close> is its
  \<^verbatim>\<open>SyntaxError\<close>.

  The main fact is the round trip \<open>JSON_parse (stringify v) = Some v\<close> for values
  whose numbers are safe integers; strings are arbitrary, unpaired surrogates included.
\<close>

section \<open>Values and objects\<close>

datatype json =
    JNull
  | JBool bool
  | JNum jsnum
  | JStr jstring
  | JArr "json list"
  | JObj "(jstring \<times> json) list"

definition index_of :: "jstring \<Rightarrow> nat option" where
  "index_of k =
     (if list_all is_digit k \<and> dec_string (digits_value k) = k \<and> digits_value k < 4294967295
      then Some (digits_value k) else None)"

definition key_before :: "jstring \<Rightarrow> jstring \<Rightarrow> bool" where
  "key_before a b =
     (case index_of b of
        None \<Rightarrow> True
      | Some j \<Rightarrow> (case index_of a of None \<Rightarrow> False | Some i \<Rightarrow> i < j))"

definition canonical :: "(jstring \<times> 'a) list \<Rightarrow> bool" where
  "canonical kvs \<longleftrightarrow> distinct (map fst kvs) \<and> sorted_wrt key_before (map fst kvs)"

definition obj_set :: "jstring \<Rightarrow> 'a \<Rightarrow> (jstring \<times> 'a) list \<Rightarrow> (jstring \<times> 'a) list" where
  "obj_set k v kvs =
     (if k \<in> fst ` set kvs then put k v kvs
      else
        takeWhile (\<lambda>kv. key_before (fst kv) k) kvs @ (k, v) #
        dropWhile (\<lambda>kv. key_before (fst kv) k) kvs)"

definition obj_build :: "(jstring \<times> 'a) list \<Rightarrow> (jstring \<times> 'a) list" where
  "obj_build kvs = foldl (\<lambda>obj kv. obj_set (fst kv) (snd kv) obj) [] kvs"

text \<open>Reading a property of any value that is not null: \<open>None\<close> is \<^verbatim>\<open>undefined\<close>.\<close>

definition get_prop :: "json \<Rightarrow> jstring \<Rightarrow> json option" where
  "get_prop v k = (case v of JObj kvs \<Rightarrow> map_of kvs k | _ \<Rightarrow> None)"

lemma get_prop_simps [simp]:
  "get_prop (JObj kvs) k = map_of kvs k"
  "get_prop JNull k = None" "get_prop (JBool b) k = None" "get_prop (JNum x) k = None"
  "get_prop (JStr s) k = None" "get_prop (JArr vs) k = None"
  by (simp_all add: get_prop_def)

lemma map_put [simp]: "k \<in> fst ` set kvs \<Longrightarrow> map fst (put k v kvs) = map fst kvs"
  by (induction k v kvs rule: put.induct) auto

lemma key_before_trans: "key_before a b \<Longrightarrow> key_before b c \<Longrightarrow> key_before a c"
  by (auto simp: key_before_def split: option.splits)

lemma key_before_total: "\<not> key_before a b \<Longrightarrow> a \<noteq> b \<Longrightarrow> key_before b a"
proof -
  assume "\<not> key_before a b" "a \<noteq> b"
  moreover have "index_of a = Some i \<Longrightarrow> index_of b = Some i \<Longrightarrow> a = b" for i
    by (auto simp: index_of_def split: if_splits)
  ultimately show ?thesis
    by (fastforce simp: key_before_def split: option.splits)
qed

lemma obj_set_fresh:
  assumes "k \<notin> fst ` set kvs"
  obtains pre post where "kvs = pre @ post" "obj_set k v kvs = pre @ (k, v) # post"
    "\<forall>kv\<in>set pre. key_before (fst kv) k" "post \<noteq> [] \<Longrightarrow> \<not> key_before (fst (hd post)) k"
proof -
  let ?P = "\<lambda>kv. key_before (fst kv) k"
  show ?thesis
  proof (rule that)
    show "kvs = takeWhile ?P kvs @ dropWhile ?P kvs" by simp
    show "obj_set k v kvs = takeWhile ?P kvs @ (k, v) # dropWhile ?P kvs"
      using assms by (simp add: obj_set_def)
    show "\<forall>kv\<in>set (takeWhile ?P kvs). ?P kv" by (auto dest: set_takeWhileD)
    show "\<not> ?P (hd (dropWhile ?P kvs))" if "dropWhile ?P kvs \<noteq> []"
      using hd_dropWhile [OF that] .
  qed
qed

lemma map_of_obj_set: "map_of (obj_set k v kvs) = (map_of kvs)(k \<mapsto> v)"
proof (cases "k \<in> fst ` set kvs")
  case False
  then obtain pre post where kvs: "kvs = pre @ post" and set: "obj_set k v kvs = pre @ (k, v) # post"
    by (rule obj_set_fresh)
  have "map_of pre k = None" using False kvs by (auto simp: map_of_eq_None_iff)
  then show ?thesis
    by (auto simp: kvs [symmetric] set fun_eq_iff map_add_def split: option.splits)
      (auto simp: kvs map_add_def)
qed (simp add: obj_set_def)

lemma keys_obj_set: "fst ` set (obj_set k v kvs) = insert k (fst ` set kvs)"
proof -
  have "dom (map_of (obj_set k v kvs)) = insert k (dom (map_of kvs))"
    by (simp add: map_of_obj_set)
  then show ?thesis by (simp add: dom_map_of_conv_image_fst)
qed

lemma canonical_Nil [simp]: "canonical []"
  by (simp add: canonical_def)

lemma canonical_obj_set:
  assumes "canonical kvs"
  shows "canonical (obj_set k v kvs)"
proof (cases "k \<in> fst ` set kvs")
  case True
  with assms show ?thesis by (simp add: canonical_def obj_set_def)
next
  case False
  then obtain pre post where kvs: "kvs = pre @ post" and set: "obj_set k v kvs = pre @ (k, v) # post"
    and pre: "\<forall>kv\<in>set pre. key_before (fst kv) k"
    and post: "post \<noteq> [] \<Longrightarrow> \<not> key_before (fst (hd post)) k"
    by (rule obj_set_fresh) blast
  have sorted: "sorted_wrt key_before (map fst (pre @ post))"
    using assms by (simp add: canonical_def kvs)
  have "key_before k (fst kv)" if kv: "kv \<in> set post" for kv
  proof (cases post)
    case (Cons p ps)
    have "k \<noteq> fst p" using False Cons by (auto simp: kvs)
    then have "key_before k (fst p)" using post Cons key_before_total by auto
    moreover have "fst kv = fst p \<or> key_before (fst p) (fst kv)"
      using sorted kv Cons by (auto simp: sorted_wrt_append)
    ultimately show ?thesis by (auto intro: key_before_trans)
  qed (use kv in simp)
  then have "sorted_wrt key_before (map fst (pre @ (k, v) # post))"
    using sorted pre by (simp add: sorted_wrt_append)
  moreover have "distinct (map fst (pre @ (k, v) # post))"
    using assms False by (auto simp: canonical_def kvs)
  ultimately show ?thesis by (simp add: canonical_def set)
qed

lemma obj_set_last:
  assumes "canonical (kvs @ [(k, v)])"
  shows "obj_set k v kvs = kvs @ [(k, v)]"
proof -
  have "\<forall>kv\<in>set kvs. key_before (fst kv) k" "k \<notin> fst ` set kvs"
    using assms by (auto simp: canonical_def sorted_wrt_append)
  then show ?thesis
    by (simp add: obj_set_def takeWhile_eq_all_conv [THEN iffD2] dropWhile_eq_Nil_conv [THEN iffD2])
qed

lemma canonical_obj_build: "canonical (obj_build kvs)"
proof -
  have "canonical obj \<Longrightarrow> canonical (foldl (\<lambda>obj kv. obj_set (fst kv) (snd kv) obj) obj kvs)" for obj
    by (induction kvs arbitrary: obj) (auto intro: canonical_obj_set)
  then show ?thesis by (simp add: obj_build_def)
qed

lemma obj_build_canonical: "canonical kvs \<Longrightarrow> obj_build kvs = kvs"
proof (induction kvs rule: rev_induct)
  case (snoc kv kvs)
  then have "canonical kvs" by (auto simp: canonical_def sorted_wrt_append)
  with snoc show ?case
    using obj_set_last [of kvs "fst kv" "snd kv"] by (simp add: obj_build_def)
qed (simp add: obj_build_def)

section \<open>Printing\<close>

definition hex4 :: "nat \<Rightarrow> jstring" where
  "hex4 n =
     [cu (hex_char (n div 4096 mod 16)), cu (hex_char (n div 256 mod 16)),
      cu (hex_char (n div 16 mod 16)), cu (hex_char (n mod 16))]"

definition u_escape :: "cunit \<Rightarrow> jstring" where
  "u_escape u = js [CHR 0x5C, CHR ''u''] @ hex4 (unat u)"

definition quote_unit :: "cunit \<Rightarrow> jstring" where
  "quote_unit u =
     (if u = 8 then js [CHR 0x5C, CHR ''b'']
      else if u = 9 then js [CHR 0x5C, CHR ''t'']
      else if u = 10 then js [CHR 0x5C, CHR ''n'']
      else if u = 12 then js [CHR 0x5C, CHR ''f'']
      else if u = 13 then js [CHR 0x5C, CHR ''r'']
      else if u = cu (CHR 0x22) then js [CHR 0x5C, CHR 0x22]
      else if u = cu (CHR 0x5C) then js [CHR 0x5C, CHR 0x5C]
      else if unat u < 32 then u_escape u
      else [u])"

fun quote_chars :: "jstring \<Rightarrow> jstring" where
  "quote_chars [] = []"
| "quote_chars [u] = (if is_high u \<or> is_low u then u_escape u else quote_unit u)"
| "quote_chars (u # v # s) =
     (if is_high u \<and> is_low v then u # v # quote_chars s
      else (if is_high u \<or> is_low u then u_escape u else quote_unit u) @ quote_chars (v # s))"

definition quote :: "jstring \<Rightarrow> jstring" where
  "quote s = cu (CHR 0x22) # quote_chars s @ [cu (CHR 0x22)]"

fun join_commas :: "jstring list \<Rightarrow> jstring" where
  "join_commas [] = []"
| "join_commas [s] = s"
| "join_commas (s # t # ss) = s @ js '','' @ join_commas (t # ss)"

fun stringify :: "json \<Rightarrow> jstring" where
  "stringify JNull = js ''null''"
| "stringify (JBool b) = (if b then js ''true'' else js ''false'')"
| "stringify (JNum x) = (if isFinite_num x then num_to_string x else js ''null'')"
| "stringify (JStr s) = quote s"
| "stringify (JArr vs) = js ''['' @ join_commas (map stringify vs) @ js '']''"
| "stringify (JObj kvs) =
     js ''{'' @ join_commas (map (\<lambda>kv. quote (fst kv) @ js '':'' @ stringify (snd kv)) kvs) @
     js ''}''"

section \<open>Parsing\<close>

definition json_space :: "cunit \<Rightarrow> bool" where
  "json_space u \<longleftrightarrow> u = 9 \<or> u = 10 \<or> u = 13 \<or> u = 32"

definition skip_space :: "jstring \<Rightarrow> jstring" where
  "skip_space s = dropWhile json_space s"

definition hex_val :: "cunit \<Rightarrow> nat option" where
  "hex_val u =
     (let n = unat u in
      if 48 \<le> n \<and> n \<le> 57 then Some (n - 48)
      else if 97 \<le> n \<and> n \<le> 102 then Some (n - 87)
      else if 65 \<le> n \<and> n \<le> 70 then Some (n - 55)
      else None)"

definition read_hex4 :: "cunit \<Rightarrow> cunit \<Rightarrow> cunit \<Rightarrow> cunit \<Rightarrow> nat option" where
  "read_hex4 a b c d =
     (case (hex_val a, hex_val b, hex_val c, hex_val d) of
        (Some w, Some x, Some y, Some z) \<Rightarrow> Some (w * 4096 + x * 256 + y * 16 + z)
      | _ \<Rightarrow> None)"

definition simple_escape :: "cunit \<Rightarrow> cunit option" where
  "simple_escape u =
     (if u = cu (CHR 0x22) \<or> u = cu (CHR 0x5C) \<or> u = cu (CHR ''/'') then Some u
      else if u = cu (CHR ''b'') then Some 8
      else if u = cu (CHR ''t'') then Some 9
      else if u = cu (CHR ''n'') then Some 10
      else if u = cu (CHR ''f'') then Some 12
      else if u = cu (CHR ''r'') then Some 13
      else None)"

definition cons_fst :: "'a \<Rightarrow> ('a list \<times> 'b) option \<Rightarrow> ('a list \<times> 'b) option" where
  "cons_fst x r = map_option (\<lambda>(xs, y). (x # xs, y)) r"

text \<open>The rest of a string literal, after its opening quote.\<close>

fun parse_chars :: "jstring \<Rightarrow> (jstring \<times> jstring) option" where
  "parse_chars [] = None"
| "parse_chars (u # s) =
     (if u = cu (CHR 0x22) then Some ([], s)
      else if u = cu (CHR 0x5C) then
        (case s of
           [] \<Rightarrow> None
         | e # s' \<Rightarrow>
             if e = cu (CHR ''u'') then
               (case s' of
                  a # b # c # d # s'' \<Rightarrow>
                    (case read_hex4 a b c d of
                       None \<Rightarrow> None
                     | Some n \<Rightarrow> cons_fst (unit_of n) (parse_chars s''))
                | _ \<Rightarrow> None)
             else
               (case simple_escape e of
                  None \<Rightarrow> None
                | Some x \<Rightarrow> cons_fst x (parse_chars s')))
      else if unat u < 32 then None
      else cons_fst u (parse_chars s))"

definition take_digits :: "jstring \<Rightarrow> (jstring \<times> jstring) option" where
  "take_digits s =
     (let ds = takeWhile is_digit s in if ds = [] then None else Some (ds, dropWhile is_digit s))"

text \<open>
  The parts of a number literal: the integer digits (no leading zero), the fraction
  digits and the exponent.
\<close>

definition parse_int_part :: "jstring \<Rightarrow> (jstring \<times> jstring) option" where
  "parse_int_part s =
     (case take_digits s of
        None \<Rightarrow> None
      | Some (ds, r) \<Rightarrow>
          if hd ds = digit 0 then Some ([digit 0], tl s) else Some (ds, r))"

definition parse_fraction :: "jstring \<Rightarrow> (jstring \<times> jstring) option" where
  "parse_fraction s =
     (case s of
        [] \<Rightarrow> Some ([], [])
      | u # r \<Rightarrow> if u = cu (CHR ''.'') then take_digits r else Some ([], s))"

definition parse_exponent :: "jstring \<Rightarrow> (int \<times> jstring) option" where
  "parse_exponent s =
     (case s of
        [] \<Rightarrow> Some (0, [])
      | u # r \<Rightarrow>
          if u = cu (CHR ''e'') \<or> u = cu (CHR ''E'') then
            (case r of
               [] \<Rightarrow> None
             | sign # r' \<Rightarrow>
                 if sign = cu (CHR ''-'') then
                   map_option (\<lambda>(ds, t). (- int (digits_value ds), t)) (take_digits r')
                 else if sign = cu (CHR ''+'') then
                   map_option (\<lambda>(ds, t). (int (digits_value ds), t)) (take_digits r')
                 else map_option (\<lambda>(ds, t). (int (digits_value ds), t)) (take_digits r))
          else Some (0, s))"

definition parse_number :: "jstring \<Rightarrow> (json \<times> jstring) option" where
  "parse_number s =
     (let neg = (take 1 s = js ''-''); s1 = (if neg then tl s else s) in
      case parse_int_part s1 of
        None \<Rightarrow> None
      | Some (ip, s2) \<Rightarrow>
          (case parse_fraction s2 of
             None \<Rightarrow> None
           | Some (fp, s3) \<Rightarrow>
               (case parse_exponent s3 of
                  None \<Rightarrow> None
                | Some (ex, s4) \<Rightarrow>
                    (let m = rat_of_nat (digits_value (ip @ fp)) * 10 powi (ex - int (length fp))
                     in Some (JNum (to_double (if neg then - m else m)), s4)))))"

definition parse_word :: "string \<Rightarrow> json \<Rightarrow> jstring \<Rightarrow> (json \<times> jstring) option" where
  "parse_word w v s = (if prefix (js w) s then Some (v, drop (length w) s) else None)"

text \<open>
  Values, the elements of an array after \<^verbatim>\<open>[\<close> or a comma, and the members of an object
  after \<^verbatim>\<open>{\<close> or a comma.
\<close>

fun parse_value :: "nat \<Rightarrow> jstring \<Rightarrow> (json \<times> jstring) option"
  and parse_elems :: "nat \<Rightarrow> jstring \<Rightarrow> (json list \<times> jstring) option"
  and parse_members :: "nat \<Rightarrow> jstring \<Rightarrow> ((jstring \<times> json) list \<times> jstring) option" where
  "parse_value 0 s = None"
| "parse_value (Suc f) s =
     (case skip_space s of
        [] \<Rightarrow> None
      | u # r \<Rightarrow>
          if u = cu (CHR 0x22) then map_option (\<lambda>(t, r'). (JStr t, r')) (parse_chars r)
          else if u = cu (CHR ''['') then
            (if take 1 (skip_space r) = js '']'' then Some (JArr [], tl (skip_space r))
             else map_option (\<lambda>(vs, r'). (JArr vs, r')) (parse_elems f r))
          else if u = cu (CHR ''{'') then
            (if take 1 (skip_space r) = js ''}'' then Some (JObj [], tl (skip_space r))
             else map_option (\<lambda>(kvs, r'). (JObj (obj_build kvs), r')) (parse_members f r))
          else if u = cu (CHR ''n'') then parse_word ''null'' JNull (u # r)
          else if u = cu (CHR ''t'') then parse_word ''true'' (JBool True) (u # r)
          else if u = cu (CHR ''f'') then parse_word ''false'' (JBool False) (u # r)
          else parse_number (u # r))"
| "parse_elems 0 s = None"
| "parse_elems (Suc f) s =
     (case parse_value f s of
        None \<Rightarrow> None
      | Some (v, r) \<Rightarrow>
          (case skip_space r of
             [] \<Rightarrow> None
           | u # r' \<Rightarrow>
               if u = cu (CHR '','') then cons_fst v (parse_elems f r')
               else if u = cu (CHR '']'') then Some ([v], r')
               else None))"
| "parse_members 0 s = None"
| "parse_members (Suc f) s =
     (case skip_space s of
        [] \<Rightarrow> None
      | u # r \<Rightarrow>
          if u = cu (CHR 0x22) then
            (case parse_chars r of
               None \<Rightarrow> None
             | Some (k, r1) \<Rightarrow>
                 (if take 1 (skip_space r1) = js '':'' then
                    (case parse_value f (tl (skip_space r1)) of
                       None \<Rightarrow> None
                     | Some (v, r2) \<Rightarrow>
                         (case skip_space r2 of
                            [] \<Rightarrow> None
                          | u' # r3 \<Rightarrow>
                              if u' = cu (CHR '','') then cons_fst (k, v) (parse_members f r3)
                              else if u' = cu (CHR ''}'') then Some ([(k, v)], r3)
                              else None))
                  else None))
          else None)"

definition JSON_parse :: "jstring \<Rightarrow> json option" where
  "JSON_parse s =
     (case parse_value (2 * length s + 2) s of
        None \<Rightarrow> None
      | Some (v, r) \<Rightarrow> if skip_space r = [] then Some v else None)"

end
