(* ===== verification/JsonFacts.thy ===== *)
theory JsonFacts
  imports Json
begin

text \<open>
  Facts about \<^verbatim>\<open>JSON.parse\<close> and \<^verbatim>\<open>JSON.stringify\<close>: the parser consumes input and
  needs no more recursion depth than \<open>JSON_parse\<close> gives it; parsing the printed text
  of a value returns the value.
\<close>

section \<open>The parser consumes input\<close>

lemma length_skip_space: "length (skip_space s) \<le> length s"
  by (simp add: skip_space_def length_dropWhile_le)

lemma skip_space_Cons: "skip_space s = u # r \<Longrightarrow> length r < length s"
  using length_skip_space [of s] by simp

lemma tl_skip_space: "take 1 (skip_space s) = [u] \<Longrightarrow> length (tl (skip_space s)) < length s"
  using length_skip_space [of s] by (cases "skip_space s") auto

lemma cons_fst_Some [simp]: "cons_fst x r = Some (xs, y) \<longleftrightarrow> (\<exists>ys. r = Some (ys, y) \<and> xs = x # ys)"
  by (cases r) (auto simp: cons_fst_def)

lemma cons_fst_simps [simp]: "cons_fst x None = None" "cons_fst x (Some (ys, y)) = Some (x # ys, y)"
  by (simp_all add: cons_fst_def)

lemma parse_chars_shorter: "parse_chars s = Some (t, r) \<Longrightarrow> length r < length s"
  by (induction s arbitrary: t rule: parse_chars.induct)
    (fastforce split: if_splits list.splits option.splits)+

lemma take_digits_shorter: "take_digits s = Some (ds, r) \<Longrightarrow> length r < length s"
proof -
  assume a: "take_digits s = Some (ds, r)"
  have "length (takeWhile is_digit s) + length (dropWhile is_digit s) = length s"
    by (metis length_append takeWhile_dropWhile_id)
  moreover from a have "r = dropWhile is_digit s" "takeWhile is_digit s \<noteq> []"
    by (auto simp: take_digits_def Let_def split: if_splits)
  ultimately show ?thesis by (metis add_less_same_cancel2 length_greater_0_conv not_gr_zero
    less_add_same_cancel2)
qed

lemma parse_int_part_shorter: "parse_int_part s = Some (ds, r) \<Longrightarrow> length r < length s"
  using take_digits_shorter [of s]
  by (cases s) (auto simp: parse_int_part_def take_digits_def split: option.splits if_splits)

lemma parse_fraction_shorter: "parse_fraction s = Some (ds, r) \<Longrightarrow> length r \<le> length s"
  by (auto simp: parse_fraction_def dest: take_digits_shorter split: list.splits if_splits)

lemma parse_exponent_shorter: "parse_exponent s = Some (e, r) \<Longrightarrow> length r \<le> length s"
  by (auto simp: parse_exponent_def dest!: take_digits_shorter split: list.splits if_splits)

lemma parse_number_shorter: "parse_number s = Some (v, r) \<Longrightarrow> length r < length s"
  by (auto simp: parse_number_def Let_def split: option.splits if_splits
      dest!: parse_int_part_shorter parse_fraction_shorter parse_exponent_shorter) linarith

lemma parse_word_shorter: "parse_word w v s = Some (v', r) \<Longrightarrow> w \<noteq> [] \<Longrightarrow> length r < length s"
  by (auto simp: parse_word_def split: if_splits dest!: prefix_length_le)
    (metis diff_less dual_order.strict_trans1 length_greater_0_conv)

lemma parse_shorter_step:
  assumes v: "\<And>s v r. parse_value f s = Some (v, r) \<Longrightarrow> length r < length s"
    and e: "\<And>s vs r. parse_elems f s = Some (vs, r) \<Longrightarrow> length r < length s"
    and m: "\<And>s kvs r. parse_members f s = Some (kvs, r) \<Longrightarrow> length r < length s"
  shows "parse_value (Suc f) s = Some (v', r) \<Longrightarrow> length r < length s"
    and "parse_elems (Suc f) s = Some (vs', r) \<Longrightarrow> length r < length s"
    and "parse_members (Suc f) s = Some (kvs', r) \<Longrightarrow> length r < length s"
proof -
  assume p: "parse_value (Suc f) s = Some (v', r)"
  then obtain u t where ut: "skip_space s = u # t" by (auto split: list.splits)
  have "length r < Suc (length t)"
    using p ut length_skip_space [of t]
    by (auto split: if_splits dest!: parse_chars_shorter parse_word_shorter parse_number_shorter e m)
  with skip_space_Cons [OF ut] show "length r < length s" by simp
next
  assume "parse_elems (Suc f) s = Some (vs', r)"
  then show "length r < length s"
    by (auto split: if_splits option.splits list.splits dest!: v e skip_space_Cons)
next
  have vt: "length r < length t" if "parse_value f (tl (skip_space t)) = Some (v, r)" for t v r
    using v [OF that] length_skip_space [of t] by simp
  assume "parse_members (Suc f) s = Some (kvs', r)"
  then show "length r < length s"
    by (auto split: if_splits option.splits list.splits
        dest!: vt m skip_space_Cons parse_chars_shorter)
qed

lemma parse_shorter:
  "parse_value f s = Some (v, r) \<Longrightarrow> length r < length s"
  "parse_elems f s = Some (vs, r) \<Longrightarrow> length r < length s"
  "parse_members f s = Some (kvs, r) \<Longrightarrow> length r < length s"
proof (induction f arbitrary: s v r vs kvs)
  case (Suc f)
  {
    case 1
    then show ?case by (rule parse_shorter_step(1) [rotated -1]) (rule Suc; assumption)+
  next
    case 2
    then show ?case by (rule parse_shorter_step(2) [rotated -1]) (rule Suc; assumption)+
  next
    case 3
    then show ?case by (rule parse_shorter_step(3) [rotated -1]) (rule Suc; assumption)+
  }
qed simp_all

section \<open>The recursion bound is enough\<close>

lemma parse_fuel_step:
  assumes v: "\<And>s. 2 * length s + 1 \<le> f \<Longrightarrow> 2 * length s + 1 \<le> g \<Longrightarrow> parse_value f s = parse_value g s"
    and e: "\<And>s. 2 * length s + 2 \<le> f \<Longrightarrow> 2 * length s + 2 \<le> g \<Longrightarrow> parse_elems f s = parse_elems g s"
    and m: "\<And>s. 2 * length s + 2 \<le> f \<Longrightarrow> 2 * length s + 2 \<le> g \<Longrightarrow> parse_members f s = parse_members g s"
  shows "2 * length s + 1 \<le> Suc f \<Longrightarrow> 2 * length s + 1 \<le> Suc g \<Longrightarrow>
           parse_value (Suc f) s = parse_value (Suc g) s"
    and "2 * length s + 2 \<le> Suc f \<Longrightarrow> 2 * length s + 2 \<le> Suc g \<Longrightarrow>
           parse_elems (Suc f) s = parse_elems (Suc g) s"
    and "2 * length s + 2 \<le> Suc f \<Longrightarrow> 2 * length s + 2 \<le> Suc g \<Longrightarrow>
           parse_members (Suc f) s = parse_members (Suc g) s"
proof -
  assume b: "2 * length s + 1 \<le> Suc f" "2 * length s + 1 \<le> Suc g"
  show "parse_value (Suc f) s = parse_value (Suc g) s"
  proof (cases "skip_space s")
    case (Cons u t)
    then have "2 * length t + 2 \<le> f" "2 * length t + 2 \<le> g"
      using b skip_space_Cons by fastforce+
    then have "parse_elems f t = parse_elems g t" "parse_members f t = parse_members g t"
      by (simp_all add: e m)
    with Cons show ?thesis by simp
  next
    case Nil
    then show ?thesis by (simp only: parse_value.simps list.case)
  qed
next
  assume b: "2 * length s + 2 \<le> Suc f" "2 * length s + 2 \<le> Suc g"
  then have eq: "parse_value f s = parse_value g s" by (intro v) auto
  have "parse_elems f r' = parse_elems g r'"
    if "parse_value g s = Some (w, r)" "skip_space r = u # r'" for w r u r'
    using b parse_shorter(1) [OF that(1)] skip_space_Cons [OF that(2)] by (intro e) auto
  then show "parse_elems (Suc f) s = parse_elems (Suc g) s"
    by (auto simp: eq split: option.splits list.splits)
next
  assume b: "2 * length s + 2 \<le> Suc f" "2 * length s + 2 \<le> Suc g"
  have v_eq: "parse_value f (tl (skip_space t)) = parse_value g (tl (skip_space t))"
    if "length t < length s" for t
    using b that length_skip_space [of t] by (intro v) auto
  have m_eq: "parse_members f r' = parse_members g r'"
    if "length t < length s" "parse_value g (tl (skip_space t)) = Some (w, r)" "skip_space r = u # r'"
    for t w r u r'
    using b that parse_shorter(1) [OF that(2)] skip_space_Cons [OF that(3)] length_skip_space [of t]
    by (intro m) auto
  have len: "length r1 < length s" if "skip_space s = u # r" "parse_chars r = Some (k, r1)" for u r k r1
    using skip_space_Cons [OF that(1)] parse_chars_shorter [OF that(2)] by simp
  then show "parse_members (Suc f) s = parse_members (Suc g) s"
    by (auto simp: v_eq split: option.splits list.splits) (metis len m_eq)
qed

lemma parse_fuel:
  "2 * length s + 1 \<le> f \<Longrightarrow> 2 * length s + 1 \<le> g \<Longrightarrow> parse_value f s = parse_value g s"
  "2 * length s + 2 \<le> f \<Longrightarrow> 2 * length s + 2 \<le> g \<Longrightarrow> parse_elems f s = parse_elems g s"
  "2 * length s + 2 \<le> f \<Longrightarrow> 2 * length s + 2 \<le> g \<Longrightarrow> parse_members f s = parse_members g s"
proof (induction f arbitrary: g s)
  case (Suc f)
  {
    case 1
    then obtain g' where g: "g = Suc g'" by (cases g) auto
    show ?case unfolding g
      by (rule parse_fuel_step(1)) ((rule Suc.IH; assumption)+, use 1 g in simp_all)
  next
    case 2
    then obtain g' where g: "g = Suc g'" by (cases g) auto
    show ?case unfolding g
      by (rule parse_fuel_step(2)) ((rule Suc.IH; assumption)+, use 2 g in simp_all)
  next
    case 3
    then obtain g' where g: "g = Suc g'" by (cases g) auto
    show ?case unfolding g
      by (rule parse_fuel_step(3)) ((rule Suc.IH; assumption)+, use 3 g in simp_all)
  }
qed simp_all

text \<open>Any larger bound gives the same answer, so \<open>JSON_parse\<close> never stops for lack of depth.\<close>

lemma JSON_parse_fuel:
  "2 * length s + 1 \<le> f \<Longrightarrow>
     JSON_parse s =
       (case parse_value f s of
          None \<Rightarrow> None
        | Some (v, r) \<Rightarrow> if skip_space r = [] then Some v else None)"
  using parse_fuel(1) [of s "2 * length s + 2" f] by (simp add: JSON_parse_def)

section \<open>Strings read back\<close>

lemma hex_val_hex_char: "n < 16 \<Longrightarrow> hex_val (cu (hex_char n)) = Some n"
proof -
  have "list_all (\<lambda>n. hex_val (cu (hex_char n)) = Some n) [0..<16]" by code_simp
  then show "n < 16 \<Longrightarrow> hex_val (cu (hex_char n)) = Some n" by (simp add: list_all_iff)
qed

lemma hex4_sum: "(n :: nat) < 65536 \<Longrightarrow>
  n div 4096 mod 16 * 4096 + n div 256 mod 16 * 256 + n div 16 mod 16 * 16 + n mod 16 = n"
proof -
  define a b c where "a = n div 16" and "b = a div 16" and "c = b div 16"
  assume "n < 65536"
  have eqs: "n div 256 = b" "n div 4096 = c"
    by (simp_all add: a_def b_def c_def flip: div_mult2_eq)
  with \<open>n < 65536\<close> have "c mod 16 = c" by auto
  moreover have "c * 16 + b mod 16 = b" "b * 16 + a mod 16 = a" "a * 16 + n mod 16 = n"
    by (simp_all add: a_def b_def c_def)
  ultimately show ?thesis unfolding eqs a_def [symmetric] by linarith
qed

lemma parse_chars_u_escape: "parse_chars (u_escape u @ t) = cons_fst u (parse_chars t)"
proof -
  let ?n = "unat u"
  have "read_hex4 (cu (hex_char (?n div 4096 mod 16))) (cu (hex_char (?n div 256 mod 16)))
          (cu (hex_char (?n div 16 mod 16))) (cu (hex_char (?n mod 16))) = Some ?n"
    using hex4_sum [OF unat_cunit_less] by (simp add: read_hex4_def hex_val_hex_char)
  then show ?thesis by (simp add: u_escape_def hex4_def js_def)
qed

lemma cu_code: "cu (CHR 0x22) = 34" "cu (CHR 0x5C) = 92"
  by (simp_all add: cu_def)

lemma parse_chars_simple:
  "parse_chars (js [CHR 0x5C, CHR ''b''] @ t) = cons_fst 8 (parse_chars t)"
  "parse_chars (js [CHR 0x5C, CHR ''t''] @ t) = cons_fst 9 (parse_chars t)"
  "parse_chars (js [CHR 0x5C, CHR ''n''] @ t) = cons_fst 10 (parse_chars t)"
  "parse_chars (js [CHR 0x5C, CHR ''f''] @ t) = cons_fst 12 (parse_chars t)"
  "parse_chars (js [CHR 0x5C, CHR ''r''] @ t) = cons_fst 13 (parse_chars t)"
  "parse_chars (js [CHR 0x5C, CHR 0x22] @ t) = cons_fst (cu (CHR 0x22)) (parse_chars t)"
  "parse_chars (js [CHR 0x5C, CHR 0x5C] @ t) = cons_fst (cu (CHR 0x5C)) (parse_chars t)"
  by (simp_all add: js_def simple_escape_def)

lemma parse_chars_quote_unit: "parse_chars (quote_unit u @ t) = cons_fst u (parse_chars t)"
proof (cases "unat u < 32 \<or> u = cu (CHR 0x22) \<or> u = cu (CHR 0x5C)")
  case True
  then show ?thesis
    by (auto simp: quote_unit_def parse_chars_simple parse_chars_u_escape simp del: parse_chars.simps)
next
  case False
  then have "quote_unit u = [u]" by (auto simp: quote_unit_def)
  with False show ?thesis by simp
qed

lemma parse_chars_quote_chars: "parse_chars (quote_chars s @ cu (CHR 0x22) # t) = Some (s, t)"
proof (induction s rule: quote_chars.induct)
  case (2 u)
  then show ?case
    by (simp add: parse_chars_quote_unit parse_chars_u_escape del: parse_chars.simps(2)) simp
next
  case (3 u v s)
  show ?case
  proof (cases "is_high u \<and> is_low v")
    case True
    then have "\<not> unat u < 32" "\<not> unat v < 32" "u \<noteq> cu (CHR 0x22)" "u \<noteq> cu (CHR 0x5C)"
      "v \<noteq> cu (CHR 0x22)" "v \<noteq> cu (CHR 0x5C)"
      by (auto simp: is_high_def is_low_def)
    with True 3 show ?thesis by simp
  next
    case False
    with 3 show ?thesis
      by (auto simp: parse_chars_quote_unit parse_chars_u_escape simp del: parse_chars.simps(2))
  qed
qed simp

lemma parse_chars_quote: "quote s @ t = cu (CHR 0x22) # quote_chars s @ cu (CHR 0x22) # t"
  by (simp add: quote_def)

section \<open>Integers read back\<close>

definition follow :: "jstring \<Rightarrow> bool" where
  "follow r \<longleftrightarrow> r = [] \<or>
     (\<not> is_digit (hd r) \<and> hd r \<noteq> cu (CHR ''.'') \<and> hd r \<noteq> cu (CHR ''e'') \<and> hd r \<noteq> cu (CHR ''E''))"

lemma take_digits_dec_string:
  assumes "r = [] \<or> \<not> is_digit (hd r)"
  shows "take_digits (dec_string n @ r) = Some (dec_string n, r)"
proof -
  have all: "\<forall>u\<in>set (dec_string n). is_digit u" using dec_string_digits by (simp add: list_all_iff)
  have "takeWhile is_digit r = []" "dropWhile is_digit r = r"
    using assms by (cases r; simp)+
  with all have "takeWhile is_digit (dec_string n @ r) = dec_string n"
    "dropWhile is_digit (dec_string n @ r) = r"
    by (simp_all add: takeWhile_append2 dropWhile_append2)
  then show ?thesis by (simp add: take_digits_def)
qed

lemma parse_int_part_dec_string:
  assumes "r = [] \<or> \<not> is_digit (hd r)"
  shows "parse_int_part (dec_string n @ r) = Some (dec_string n, r)"
proof (cases "n = 0")
  case True
  with take_digits_dec_string [OF assms, of 0] show ?thesis by (simp add: parse_int_part_def)
next
  case False
  with take_digits_dec_string [OF assms] hd_dec_string [OF False] show ?thesis
    by (simp add: parse_int_part_def)
qed

lemma follow_number:
  assumes "follow r"
  shows "parse_fraction r = Some ([], r)" "parse_exponent r = Some (0, r)" "r = [] \<or> \<not> is_digit (hd r)"
  using assms by (cases r; auto simp: follow_def parse_fraction_def parse_exponent_def)+

lemma minus_not_digit: "\<not> is_digit (cu (CHR ''-''))"
  by (simp add: is_digit_def)

lemma hd_dec_string_digit: "is_digit (hd (dec_string n))"
  using dec_string_digits [of n] by (cases "dec_string n") auto

lemma parse_number_int:
  assumes "\<bar>n\<bar> \<le> max_safe_integer" "follow r"
  shows "parse_number (int_string n @ r) = Some (JNum (num_of_int n), r)"
proof -
  note follow_number [OF assms(2)] parse_int_part_dec_string [OF follow_number(3) [OF assms(2)]]
  moreover have "take 1 (dec_string m @ r) \<noteq> js ''-''" for m
    using hd_dec_string_digit [of m] minus_not_digit by (cases "dec_string m") (auto simp: js_def)
  moreover have "- rat_of_nat (nat (- n)) = of_int n" if "n < 0" using that by simp
  moreover have "rat_of_nat (nat n) = of_int n" if "0 \<le> n" using that by simp
  ultimately show ?thesis
    using to_double_int [OF assms(1)]
    by (cases "n < 0") (simp_all add: parse_number_def Let_def int_string_def js_def del: take_append)
qed

section \<open>Values read back\<close>

fun json_ok :: "json \<Rightarrow> bool" where
  "json_ok JNull = True"
| "json_ok (JBool b) = True"
| "json_ok (JNum x) = isSafeInteger x"
| "json_ok (JStr s) = True"
| "json_ok (JArr vs) = list_all json_ok vs"
| "json_ok (JObj kvs) = (canonical kvs \<and> list_all (\<lambda>kv. json_ok (snd kv)) kvs)"

text \<open>The first code unit of a printed value is no space and no closing bracket.\<close>

definition opens :: "jstring \<Rightarrow> bool" where
  "opens s \<longleftrightarrow> (\<exists>u t. s = u # t \<and> \<not> json_space u \<and> u \<noteq> cu (CHR '']'') \<and> u \<noteq> cu (CHR ''}''))"

lemma opens_Cons: "opens (u # t) \<longleftrightarrow> \<not> json_space u \<and> u \<noteq> cu (CHR '']'') \<and> u \<noteq> cu (CHR ''}'')"
  by (auto simp: opens_def)

lemma opens_append: "opens s \<Longrightarrow> opens (s @ t)"
  by (auto simp: opens_def)

lemma json_space_cu: "json_space (cu c) \<longleftrightarrow> of_char c \<in> {9, 10, 13, 32 :: nat}"
proof -
  have "cu c = word_of_nat n \<longleftrightarrow> of_char c = n" if "n < 65536" for n
    using that by (simp add: word_unat_eq_iff unat_of_nat)
  from this [of 9] this [of 10] this [of 13] this [of 32] show ?thesis
    by (auto simp: json_space_def)
qed

lemma digit_opens: "is_digit u \<Longrightarrow> \<not> json_space u \<and> u \<noteq> cu (CHR '']'') \<and> u \<noteq> cu (CHR ''}'')"
  by (auto simp: is_digit_def json_space_def)

lemma opens_int_string: "opens (int_string n)"
proof (cases "n < 0")
  case True
  then show ?thesis by (simp add: int_string_def js_def opens_Cons json_space_cu)
next
  case False
  then show ?thesis
    using hd_dec_string_digit [of "nat n"] digit_opens
    by (cases "dec_string (nat n)") (auto simp: int_string_def opens_Cons)
qed

lemma stringify_num: "isSafeInteger x \<Longrightarrow> \<exists>n. x = num_of_int n \<and> \<bar>n\<bar> \<le> max_safe_integer \<and>
    stringify (JNum x) = int_string n"
  by (erule isSafeIntegerE) (auto simp: num_to_string_int)

lemma opens_stringify: "json_ok v \<Longrightarrow> opens (stringify v)"
proof (cases v)
  case (JNum x)
  assume "json_ok v"
  with JNum show ?thesis using stringify_num [of x] opens_int_string by auto
qed (auto simp: js_def opens_Cons json_space_cu quote_def)

lemma skip_space_opens: "opens s \<Longrightarrow> skip_space s = s"
  by (auto simp: opens_def skip_space_def)

lemma skip_space_cu: "of_char c \<notin> {9, 10, 13, 32 :: nat} \<Longrightarrow> skip_space (cu c # s) = cu c # s"
  by (simp add: skip_space_def json_space_cu)

lemma opens_take: "opens s \<Longrightarrow> take 1 s \<noteq> js '']''" "opens s \<Longrightarrow> take 1 s \<noteq> js ''}''"
  by (auto simp: opens_def js_def)

lemma opens_skip:
  "opens s \<Longrightarrow> take 1 (skip_space s) \<noteq> js '']''" "opens s \<Longrightarrow> take 1 (skip_space s) \<noteq> js ''}''"
  using opens_take [of s] skip_space_opens [of s] by simp_all

lemma follow_cu: "c \<in> {CHR '','', CHR '']'', CHR ''}''} \<Longrightarrow> follow (cu c # r)"
  by (auto simp: follow_def is_digit_def)

definition reads_back :: "json \<Rightarrow> bool" where
  "reads_back v \<longleftrightarrow>
     (\<forall>r f. follow r \<longrightarrow> 2 * length (stringify v @ r) + 1 \<le> f \<longrightarrow>
        parse_value f (stringify v @ r) = Some (v, r))"

lemma reads_backD:
  "reads_back v \<Longrightarrow> follow r \<Longrightarrow> 2 * length (stringify v @ r) + 1 \<le> f \<Longrightarrow>
     parse_value f (stringify v @ r) = Some (v, r)"
  by (simp add: reads_back_def)

lemma reads_backI:
  assumes "\<And>r g. follow r \<Longrightarrow> parse_value (Suc g) (stringify v @ r) = Some (v, r)"
  shows "reads_back v"
  unfolding reads_back_def
proof (intro allI impI)
  fix r f
  assume "follow r" "2 * length (stringify v @ r) + 1 \<le> f"
  then show "parse_value f (stringify v @ r) = Some (v, r)"
    using assms by (cases f) auto
qed

lemma parse_elems_back:
  assumes "vs \<noteq> []" "\<forall>v\<in>set vs. reads_back v"
    "2 * length (join_commas (map stringify vs) @ cu (CHR '']'') # r) + 2 \<le> f"
  shows "parse_elems f (join_commas (map stringify vs) @ cu (CHR '']'') # r) = Some (vs, r)"
  using assms
proof (induction vs arbitrary: f rule: induct_list012)
  case (2 v)
  then obtain g where f: "f = Suc g" by (cases f) auto
  with 2 have "parse_value g (stringify v @ cu (CHR '']'') # r) = Some (v, cu (CHR '']'') # r)"
    by (intro reads_backD follow_cu) auto
  then show ?case by (simp add: f skip_space_cu)
next
  case (3 v w vs)
  let ?t = "join_commas (map stringify (w # vs)) @ cu (CHR '']'') # r"
  from 3 obtain g where f: "f = Suc g" by (cases f) auto
  with 3 have "parse_value g (stringify v @ cu (CHR '','') # ?t) = Some (v, cu (CHR '','') # ?t)"
    by (intro reads_backD follow_cu) (auto simp: js_def)
  moreover have "parse_elems g ?t = Some (w # vs, r)"
    using 3 f by (intro 3) (auto simp: js_def)
  ultimately show ?case by (simp add: f skip_space_cu js_def)
qed simp

abbreviation member_text :: "jstring \<times> json \<Rightarrow> jstring" where
  "member_text \<equiv> (\<lambda>kv. quote (fst kv) @ js '':'' @ stringify (snd kv))"

lemma parse_member:
  assumes "reads_back v" "follow r" "2 * length (member_text (k, v) @ r) + 2 \<le> Suc g"
  shows "parse_members (Suc g) (member_text (k, v) @ r) =
    (case skip_space r of
       [] \<Rightarrow> None
     | u' # r3 \<Rightarrow>
         if u' = cu (CHR '','') then cons_fst (k, v) (parse_members g r3)
         else if u' = cu (CHR ''}'') then Some ([(k, v)], r3)
         else None)"
proof -
  have "parse_value g (stringify v @ r) = Some (v, r)"
    using assms by (intro reads_backD) (auto simp: quote_def js_def)
  then show ?thesis
    by (simp add: parse_chars_quote skip_space_cu parse_chars_quote_chars js_def)
qed

lemma parse_members_back:
  assumes "kvs \<noteq> []" "\<forall>kv\<in>set kvs. reads_back (snd kv)"
    "2 * length (join_commas (map member_text kvs) @ cu (CHR ''}'') # r) + 2 \<le> f"
  shows "parse_members f (join_commas (map member_text kvs) @ cu (CHR ''}'') # r) = Some (kvs, r)"
  using assms
proof (induction kvs arbitrary: f rule: induct_list012)
  case (2 kv)
  then obtain g where f: "f = Suc g" by (cases f) auto
  obtain k v where kv: "kv = (k, v)" by (cases kv)
  with 2 f show ?case
    using parse_member [of v "cu (CHR ''}'') # r" k g]
    by (simp add: skip_space_cu follow_cu del: parse_members.simps)
next
  case (3 kv kw kvs)
  let ?t = "join_commas (map member_text (kw # kvs)) @ cu (CHR ''}'') # r"
  from 3 obtain g where f: "f = Suc g" by (cases f) auto
  obtain k v where kv: "kv = (k, v)" by (cases kv)
  have "parse_members g ?t = Some (kw # kvs, r)"
    using 3 f by (intro 3) (auto simp: js_def)
  then have "parse_members (Suc g) (member_text (k, v) @ cu (CHR '','') # ?t) = Some (kv # kw # kvs, r)"
    using 3 f kv by (subst parse_member) (auto simp: js_def follow_cu skip_space_cu)
  then show ?case by (simp add: f kv js_def del: parse_members.simps)
qed simp

lemma opens_join_commas:
  "ss \<noteq> [] \<Longrightarrow> (\<And>s. s \<in> set ss \<Longrightarrow> opens s) \<Longrightarrow> opens (join_commas ss @ t)"
  by (induction ss rule: join_commas.induct) (auto intro: opens_append)

lemma reads_back_arr:
  assumes "\<forall>v\<in>set vs. reads_back v \<and> json_ok v"
  shows "reads_back (JArr vs)"
  unfolding reads_back_def
proof (intro allI impI)
  fix r f
  assume "follow r" and b: "2 * length (stringify (JArr vs) @ r) + 1 \<le> f"
  let ?t = "join_commas (map stringify vs) @ cu (CHR '']'') # r"
  from b obtain g where f: "f = Suc g" by (cases f) auto
  show "parse_value f (stringify (JArr vs) @ r) = Some (JArr vs, r)"
  proof (cases "vs = []")
    case True
    then show ?thesis by (simp add: f js_def skip_space_cu)
  next
    case False
    then have "opens ?t" using assms by (intro opens_join_commas) (auto intro: opens_stringify)
    then have "take 1 (skip_space ?t) \<noteq> js '']''" by (rule opens_skip)
    moreover have "parse_elems g ?t = Some (vs, r)"
      using False assms b f by (intro parse_elems_back) (auto simp: js_def)
    ultimately show ?thesis by (simp add: f js_def skip_space_cu)
  qed
qed

lemma reads_back_obj:
  assumes "\<forall>kv\<in>set kvs. reads_back (snd kv)" "canonical kvs"
  shows "reads_back (JObj kvs)"
  unfolding reads_back_def
proof (intro allI impI)
  fix r f
  assume "follow r" and b: "2 * length (stringify (JObj kvs) @ r) + 1 \<le> f"
  let ?t = "join_commas (map member_text kvs) @ cu (CHR ''}'') # r"
  from b obtain g where f: "f = Suc g" by (cases f) auto
  show "parse_value f (stringify (JObj kvs) @ r) = Some (JObj kvs, r)"
  proof (cases "kvs = []")
    case True
    then show ?thesis by (simp add: f js_def skip_space_cu)
  next
    case False
    then have "opens ?t"
      by (intro opens_join_commas) (auto simp: quote_def opens_Cons json_space_cu)
    then have "take 1 (skip_space ?t) \<noteq> js ''}''" by (rule opens_skip)
    moreover have "parse_members g ?t = Some (kvs, r)"
      using False assms b f by (intro parse_members_back) (auto simp: js_def)
    ultimately show ?thesis
      by (simp add: f js_def skip_space_cu obj_build_canonical [OF assms(2)])
  qed
qed

lemma reads_back_num:
  assumes "isSafeInteger x"
  shows "reads_back (JNum x)"
proof -
  obtain n where x: "x = num_of_int n" and n: "\<bar>n\<bar> \<le> max_safe_integer"
    and s: "stringify (JNum x) = int_string n"
    using stringify_num [OF assms] by blast
  show ?thesis
    unfolding reads_back_def s
  proof (intro allI impI)
    fix r f
    assume r: "follow r" and b: "2 * length (int_string n @ r) + 1 \<le> f"
    then obtain g where f: "f = Suc g" by (cases f) auto
    have "opens (int_string n @ r)" by (rule opens_append) (rule opens_int_string)
    then have skip: "skip_space (int_string n @ r) = int_string n @ r" by (rule skip_space_opens)
    obtain u t where ut: "int_string n @ r = u # t" and u: "is_digit u \<or> u = cu (CHR ''-'')"
      using hd_dec_string_digit [of "nat n"]
      by (cases "n < 0"; cases "dec_string (nat n)") (auto simp: int_string_def js_def)
    have "u \<notin> cu ` {CHR 0x22, CHR ''['', CHR ''{'', CHR ''n'', CHR ''t'', CHR ''f''}"
      using u by (auto simp: is_digit_def)
    then have "parse_value f (u # t) = parse_number (u # t)"
      using skip ut by (simp add: f)
    then show "parse_value f (int_string n @ r) = Some (JNum x, r)"
      using parse_number_int [OF n r] by (simp add: x ut)
  qed
qed

lemma json_ok_reads_back: "json_ok v \<Longrightarrow> reads_back v"
proof (induction v)
  case JNull
  show ?case by (rule reads_backI) (simp add: js_def parse_word_def skip_space_cu)
next
  case (JBool b)
  show ?case by (rule reads_backI) (simp add: js_def parse_word_def skip_space_cu)
next
  case (JNum x)
  then show ?case by (simp add: reads_back_num)
next
  case (JStr s)
  show ?case
    by (rule reads_backI) (simp add: parse_chars_quote parse_chars_quote_chars skip_space_cu)
next
  case (JArr vs)
  then show ?case by (intro reads_back_arr) (auto simp: list_all_iff)
next
  case (JObj kvs)
  then have "\<forall>kv\<in>set kvs. reads_back (snd kv)" by (force simp: list_all_iff)
  with JObj show ?case by (intro reads_back_obj) auto
qed

theorem JSON_parse_stringify: "json_ok v \<Longrightarrow> JSON_parse (stringify v) = Some v"
  using reads_backD [OF json_ok_reads_back, of v "[]" "2 * length (stringify v) + 1"]
  by (subst JSON_parse_fuel [of _ "2 * length (stringify v) + 1"])
    (simp_all add: follow_def skip_space_def)

interpretation json: codec stringify JSON_parse json_ok
  by unfold_locales (rule JSON_parse_stringify)

section \<open>Printed values are well-formed text\<close>

text \<open>
  The printer escapes unpaired surrogates, so its output survives UTF-8 whatever strings
  the value holds.
\<close>

definition plain :: "cunit \<Rightarrow> bool" where
  "plain u \<longleftrightarrow> \<not> is_high u \<and> \<not> is_low u"

lemma well_formed_plain_Cons: "plain u \<Longrightarrow> well_formed s \<Longrightarrow> well_formed (u # s)"
  by (cases s) (simp_all add: plain_def)

lemma well_formed_append: "well_formed s \<Longrightarrow> well_formed t \<Longrightarrow> well_formed (s @ t)"
proof (induction s rule: well_formed.induct)
  case (2 u)
  then show ?case by (simp add: well_formed_plain_Cons plain_def)
qed (auto split: if_splits)

lemma well_formed_plain: "list_all plain s \<Longrightarrow> well_formed s"
  by (induction s) (simp_all add: well_formed_plain_Cons)

lemma plain_cu [simp]: "plain (cu c)"
proof -
  have "(of_char c :: nat) < 55296" using nat_of_char_less_256 [of c] by linarith
  then show ?thesis by (simp add: plain_def is_high_def is_low_def)
qed

lemma well_formed_js [simp]: "well_formed (js s)"
  by (rule well_formed_plain) (simp add: js_def list_all_iff)

lemma well_formed_u_escape: "well_formed (u_escape u)"
  by (rule well_formed_plain) (simp add: u_escape_def hex4_def js_def)

lemma well_formed_quote_unit: "plain u \<Longrightarrow> well_formed (quote_unit u)"
  by (simp add: quote_unit_def well_formed_u_escape plain_def)

lemma well_formed_quote_chars: "well_formed (quote_chars s)"
proof (induction s rule: quote_chars.induct)
  case (3 u v s)
  then show ?case
    by (auto intro!: well_formed_append well_formed_u_escape well_formed_quote_unit simp: plain_def)
qed (auto intro: well_formed_u_escape well_formed_quote_unit simp: plain_def)

lemma well_formed_quote: "well_formed (quote s)"
proof -
  have "well_formed [cu (CHR 0x22)]" by (rule well_formed_plain) simp
  then show ?thesis
    unfolding quote_def by (intro well_formed_plain_Cons well_formed_append well_formed_quote_chars) simp_all
qed

lemma plain_digit: "is_digit u \<Longrightarrow> plain u"
  by (auto simp: is_digit_def plain_def is_high_def is_low_def word_le_nat_alt)

lemma well_formed_int_string: "well_formed (int_string n)"
proof -
  have "well_formed (dec_string m)" for m
    using dec_string_digits [of m] by (intro well_formed_plain) (auto simp: list_all_iff plain_digit)
  then show ?thesis by (simp add: int_string_def well_formed_append)
qed

lemma well_formed_join_commas: "list_all well_formed ss \<Longrightarrow> well_formed (join_commas ss)"
  by (induction ss rule: join_commas.induct) (auto intro!: well_formed_append)

lemma well_formed_stringify: "json_ok v \<Longrightarrow> well_formed (stringify v)"
proof (induction v)
  case (JNum x)
  then show ?case using stringify_num [of x] well_formed_int_string by auto
next
  case (JStr s)
  show ?case by (simp add: well_formed_quote)
next
  case (JArr vs)
  then have "list_all well_formed (map stringify vs)" by (auto simp: list_all_iff)
  then show ?case by (auto intro!: well_formed_append well_formed_join_commas)
next
  case (JObj kvs)
  then have "\<forall>kv\<in>set kvs. well_formed (stringify (snd kv))" by (force simp: list_all_iff)
  then have "list_all well_formed (map (\<lambda>kv. quote (fst kv) @ js '':'' @ stringify (snd kv)) kvs)"
    by (auto simp: list_all_iff intro!: well_formed_append well_formed_quote)
  then show ?case by (auto intro!: well_formed_append well_formed_join_commas simp del: list.map)
qed simp_all

lemma stringify_not_bom: "json_ok v \<Longrightarrow> take 1 (stringify v) \<noteq> [65279]"
proof (cases v)
  case (JNum x)
  assume "json_ok v"
  then obtain n where "stringify v = int_string n" using stringify_num JNum by auto
  moreover have "hd (int_string n) \<noteq> 65279"
    using hd_dec_string_digit [of "nat n"]
    by (auto simp: int_string_def js_def is_digit_def word_le_nat_alt cu_def)
  ultimately show ?thesis by (cases "int_string n") auto
qed (auto simp: js_def quote_def cu_def)

lemma utf8_ok_stringify [simp]: "json_ok v \<Longrightarrow> utf8_ok (stringify v)"
  by (simp add: utf8_ok_def well_formed_stringify stringify_not_bom del: One_nat_def)

lemma stringify_not_Nil: "json_ok v \<Longrightarrow> stringify v \<noteq> []"
  using opens_stringify [of v] by (auto simp: opens_def)

interpretation json_utf8: codec_chain stringify JSON_parse json_ok
    utf8_encode "\<lambda>bs. Some (utf8_decode bs)" utf8_ok
  by unfold_locales simp

section \<open>Printed values that are ASCII\<close>

fun json_ascii :: "json \<Rightarrow> bool" where
  "json_ascii (JStr s) = is_ascii s"
| "json_ascii (JArr vs) = list_all json_ascii vs"
| "json_ascii (JObj kvs) = list_all (\<lambda>kv. is_ascii (fst kv) \<and> json_ascii (snd kv)) kvs"
| "json_ascii v = True"

lemma is_ascii_int_string: "is_ascii (int_string n)"
proof -
  have digit: "u < 128" if "is_digit u" for u
    using that by (auto simp: is_digit_def word_le_nat_alt word_less_nat_alt)
  have "is_ascii (dec_string m)" for m
    unfolding is_ascii_def by (rule list.pred_mono_strong [OF dec_string_digits]) (rule digit)
  then show ?thesis by (simp add: int_string_def js_def cu_def)
qed

lemma cu_ascii: "of_char c < (128 :: nat) \<Longrightarrow> cu c < 128"
  by (simp add: cu_def word_less_nat_alt unat_of_nat)

lemma is_ascii_js: "list_all (\<lambda>c. of_char c < (128 :: nat)) s \<Longrightarrow> is_ascii (js s)"
  by (induction s) (simp_all add: js_def cu_ascii)

lemma ascii_hex_char: "n < 16 \<Longrightarrow> cu (hex_char n) < 128"
proof (rule cu_ascii)
  have all: "list_all (\<lambda>c. of_char c < (128 :: nat)) ''0123456789abcdef''" by simp
  assume "n < 16"
  then have "hex_char n \<in> set ''0123456789abcdef''" unfolding hex_char_def by (intro nth_mem) simp
  then show "of_char (hex_char n) < (128 :: nat)" using all unfolding list_all_iff by blast
qed

lemma is_ascii_u_escape: "is_ascii (u_escape u)"
  by (simp add: u_escape_def hex4_def ascii_hex_char js_def) (simp add: cu_def)

lemma is_ascii_quote_unit: "u < 128 \<Longrightarrow> is_ascii (quote_unit u)"
  by (simp add: quote_unit_def is_ascii_u_escape) (simp add: js_def cu_def)

lemma is_ascii_quote_chars: "is_ascii s \<Longrightarrow> is_ascii (quote_chars s)"
  by (induction s rule: quote_chars.induct) (simp_all add: is_ascii_u_escape is_ascii_quote_unit)

lemma is_ascii_quote: "is_ascii s \<Longrightarrow> is_ascii (quote s)"
  using is_ascii_quote_chars by (simp add: quote_def cu_def)

lemma is_ascii_join_commas: "list_all is_ascii ss \<Longrightarrow> is_ascii (join_commas ss)"
  by (induction ss rule: join_commas.induct) (auto simp: js_def cu_def)

lemma is_ascii_stringify: "json_ok v \<Longrightarrow> json_ascii v \<Longrightarrow> is_ascii (stringify v)"
proof (induction v)
  case (JNum x)
  then show ?case using stringify_num [of x] is_ascii_int_string by auto
next
  case (JArr vs)
  then have "list_all is_ascii (map stringify vs)" by (auto simp: list_all_iff)
  then show ?case by (auto intro!: is_ascii_join_commas simp: js_def cu_def)
next
  case (JObj kvs)
  then have "\<forall>kv\<in>set kvs. is_ascii (fst kv) \<and> is_ascii (stringify (snd kv))" by (force simp: list_all_iff)
  then have "list_all is_ascii (map (\<lambda>kv. quote (fst kv) @ js '':'' @ stringify (snd kv)) kvs)"
    by (auto simp: list_all_iff is_ascii_quote) (simp add: js_def cu_def)
  then show ?case by (auto intro!: is_ascii_join_commas is_ascii_js simp del: list.map)
qed (simp_all add: is_ascii_quote js_def cu_def)

end
