(* ===== verification/Platform.thy ===== *)
theory Platform
  imports Base64 JsonFacts
begin

text \<open>
  What the TypeScript sources rely on outside the repository.

  \<^item> \<open>platform\<close>: the runtime's globals, the Unicode case tables and the functions of
    the \<^verbatim>\<open>ethers\<close> package the sources call. They are parameters: every definition that
    uses them takes a \<open>platform\<close>, and a theorem that needs a documented behaviour of
    one of them states it as a hypothesis. \<open>numberToHex\<close> is \<^verbatim>\<open>toString(16)\<close> of a number that is
    no safe integer, which the language leaves to the implementation.
  \<^item> \<open>response\<close>, \<open>request_init\<close>, \<open>fetcher\<close>: the Fetch API, over a world \<open>'w\<close>
    that stands for the network and every other party.
  \<^item> reading properties of values of unknown shape, as \<^verbatim>\<open>value.a.b\<close> does.
\<close>

section \<open>Runtime and third-party functions\<close>

record 'sig platform = runtime +
  lowerUnicode :: "jstring \<Rightarrow> jstring"
  keccak256 :: "byte list \<Rightarrow> jstring"
  sha256 :: "byte list \<Rightarrow> jstring"
  toUtf8Bytes :: "jstring \<Rightarrow> (thrown, byte list) result"
  getBytes :: "jstring \<Rightarrow> (thrown, byte list) result"
  hexlify :: "byte list \<Rightarrow> jstring"
  computePublicKey :: "jstring \<Rightarrow> (thrown, jstring) result"
  Signature_from :: "jstring \<Rightarrow> jstring \<Rightarrow> nat \<Rightarrow> (thrown, 'sig) result"
  recoverPublicKey :: "jstring \<Rightarrow> 'sig \<Rightarrow> (thrown, jstring) result"
  numberToHex :: "jsnum \<Rightarrow> jstring"

definition lower :: "'sig platform \<Rightarrow> jstring \<Rightarrow> jstring" where
  "lower P s = toLowerCase (lowerUnicode P) s"

text \<open>\<^verbatim>\<open>ethers.ZeroAddress\<close>\<close>

definition ZeroAddress :: jstring where
  "ZeroAddress = js ''0x0000000000000000000000000000000000000000''"

section \<open>The Fetch API\<close>

text \<open>
  Header names of a response are lower case, as the \<^verbatim>\<open>Headers\<close> object keeps them, and
  \<^verbatim>\<open>get\<close> ignores the case of the name it is given. Reading the body may fail.
\<close>

record response =
  r_status :: int
  r_headers :: "(jstring \<times> jstring) list"
  r_text :: "(thrown, jstring) result"

definition response_ok :: "response \<Rightarrow> bool" where
  "response_ok r \<longleftrightarrow> 200 \<le> r_status r \<and> r_status r \<le> 299"

definition header_get :: "response \<Rightarrow> jstring \<Rightarrow> jstring option" where
  "header_get r name = map_of (r_headers r) (map ascii_lower name)"

definition parse_text :: "jstring \<Rightarrow> (thrown, json) result" where
  "parse_text s = (case JSON_parse s of None \<Rightarrow> Inl (NativeError SyntaxError) | Some v \<Rightarrow> Inr v)"

definition response_json :: "response \<Rightarrow> (thrown, json) result" where
  "response_json r = bindR (r_text r) parse_text"

record request_init =
  i_method :: jstring
  i_headers :: "(jstring \<times> jstring) list"
  i_body :: "jstring option"

type_synonym 'w fetcher = "jstring \<Rightarrow> request_init option \<Rightarrow> ('w, thrown, response) io"

section \<open>Reading values of unknown shape\<close>

text \<open>
  \<open>None\<close> is \<^verbatim>\<open>undefined\<close>. The sources test \<^verbatim>\<open>isRecord\<close> before they read a
  property, so the \<^verbatim>\<open>TypeError\<close> of reading from \<^verbatim>\<open>undefined\<close> or \<^verbatim>\<open>null\<close> does not occur
  where \<open>field\<close> is used.
\<close>

definition field :: "json option \<Rightarrow> string \<Rightarrow> json option" where
  "field v k = (case v of None \<Rightarrow> None | Some w \<Rightarrow> get_prop w (js k))"

definition str_of :: "json option \<Rightarrow> jstring option" where
  "str_of v = (case v of Some (JStr s) \<Rightarrow> Some s | _ \<Rightarrow> None)"

text \<open>An object literal; properties whose value is \<^verbatim>\<open>undefined\<close> are not printed.\<close>

definition obj_lit :: "(string \<times> json option) list \<Rightarrow> json" where
  "obj_lit kvs = JObj (List.map_filter (\<lambda>(k, v). map_option (\<lambda>w. (js k, w)) v) kvs)"

lemma field_simps' [simp, field_simps_json]:
  "field None k = None"
  "field (Some (JObj kvs)) k = map_of kvs (js k)"
  "field (Some JNull) k = None" "field (Some (JBool b)) k = None" "field (Some (JNum x)) k = None"
  "field (Some (JStr s)) k = None" "field (Some (JArr vs)) k = None"
  by (simp_all add: field_def)

lemma str_of_simps [simp, field_simps_json]:
  "str_of None = None" "str_of (Some (JStr s)) = Some s" "str_of (Some JNull) = None"
  "str_of (Some (JBool b)) = None" "str_of (Some (JNum x)) = None" "str_of (Some (JArr vs)) = None"
  "str_of (Some (JObj kvs)) = None"
  by (simp_all add: str_of_def)

lemma str_of_Some_iff: "str_of v = Some s \<longleftrightarrow> v = Some (JStr s)"
  by (auto simp: str_of_def split: option.splits json.splits)

lemma parse_text_stringify [simp]: "json_ok v \<Longrightarrow> parse_text (stringify v) = Inr v"
  by (simp add: parse_text_def JSON_parse_stringify)

text \<open>No key of the model's own object literals is an array index.\<close>

lemma index_of_js: "(\<not> list_all is_digit (js k)) \<Longrightarrow> index_of (js k) = None"
  by (auto simp: index_of_def)

lemma key_before_named: "index_of b = None \<Longrightarrow> key_before a b"
  by (simp add: key_before_def)

lemma canonical_named:
  assumes "distinct (map fst kvs)" "list_all (\<lambda>kv. index_of (fst kv) = None) kvs"
  shows "canonical kvs"
proof -
  have "sorted_wrt key_before (map fst kvs)"
    using assms(2) by (induction kvs) (auto simp: list_all_iff key_before_named)
  with assms show ?thesis by (simp add: canonical_def)
qed

end
