(* ===== verification/JsValue.thy ===== *)
theory JsValue
  imports Platform
begin

text \<open>
  Reading values of unknown shape the way untyped code does: truthiness, property reads
  that throw on \<^verbatim>\<open>undefined\<close> and \<^verbatim>\<open>null\<close>, optional chaining, method calls and the
  conversion to a string. Values come from \<^verbatim>\<open>JSON.parse\<close>, so their own properties are
  never functions and the methods a string has are the built-in ones.
\<close>

definition truthy :: "json option \<Rightarrow> bool" where
  "truthy v =
     (case v of
        None \<Rightarrow> False
      | Some JNull \<Rightarrow> False
      | Some (JBool b) \<Rightarrow> b
      | Some (JNum x) \<Rightarrow> x \<noteq> NaN \<and> x \<noteq> Fin 0
      | Some (JStr s) \<Rightarrow> s \<noteq> []
      | Some (JArr _) \<Rightarrow> True
      | Some (JObj _) \<Rightarrow> True)"

definition nullish :: "json option \<Rightarrow> bool" where
  "nullish v \<longleftrightarrow> v = None \<or> v = Some JNull"

text \<open>\<^verbatim>\<open>v.k\<close>\<close>

definition prop_of :: "json option \<Rightarrow> string \<Rightarrow> (thrown, json option) result" where
  "prop_of v k = (if nullish v then Inl (NativeError TypeError) else Inr (field v k))"

text \<open>\<^verbatim>\<open>v?.startsWith(p)\<close>, used for its truth value\<close>

definition call_startsWith :: "json option \<Rightarrow> string \<Rightarrow> (thrown, bool) result" where
  "call_startsWith v p =
     (case v of
        None \<Rightarrow> Inr False
      | Some JNull \<Rightarrow> Inr False
      | Some (JStr s) \<Rightarrow> Inr (startsWith s (js p))
      | Some _ \<Rightarrow> Inl (NativeError TypeError))"

text \<open>\<^verbatim>\<open>v.toLowerCase()\<close>\<close>

definition call_toLowerCase :: "'sig platform \<Rightarrow> json option \<Rightarrow> (thrown, jstring) result" where
  "call_toLowerCase P v =
     (case v of Some (JStr s) \<Rightarrow> Inr (lower P s) | _ \<Rightarrow> Inl (NativeError TypeError))"

text \<open>
  The conversion to a string. An array is its elements joined by commas, \<^verbatim>\<open>null\<close> as the
  empty string; an object with a property of its own named \<^verbatim>\<open>toString\<close> cannot be converted.
\<close>

fun to_string :: "json \<Rightarrow> jstring option" where
  "to_string JNull = Some (js ''null'')"
| "to_string (JBool b) = Some (if b then js ''true'' else js ''false'')"
| "to_string (JNum x) = Some (num_to_string x)"
| "to_string (JStr s) = Some s"
| "to_string (JArr vs) =
     map_option join_commas (those (map (\<lambda>v. if v = JNull then Some [] else to_string v) vs))"
| "to_string (JObj kvs) =
     (if js ''toString'' \<in> fst ` set kvs then None else Some (js ''[object Object]''))"

definition String_of :: "json option \<Rightarrow> (thrown, jstring) result" where
  "String_of v =
     (case v of
        None \<Rightarrow> Inr (js ''undefined'')
      | Some w \<Rightarrow>
          (case to_string w of None \<Rightarrow> Inl (NativeError TypeError) | Some s \<Rightarrow> Inr s))"

text \<open>\<^verbatim>\<open>v.toString()\<close>\<close>

definition call_toString :: "json option \<Rightarrow> (thrown, jstring) result" where
  "call_toString v = (if nullish v then Inl (NativeError TypeError) else String_of v)"

text \<open>\<^verbatim>\<open>a && b\<close> where \<^verbatim>\<open>a\<close> may throw\<close>

definition andR :: "('e, bool) result \<Rightarrow> ('e, bool) result \<Rightarrow> ('e, bool) result" where
  "andR a b = bindR a (\<lambda>x. if x then b else Inr False)"

lemma truthy_simps [simp]:
  "\<not> truthy None" "\<not> truthy (Some JNull)" "truthy (Some (JStr s)) \<longleftrightarrow> s \<noteq> []"
  "truthy (Some (JObj kvs))" "truthy (Some (JArr vs))" "truthy (Some (JBool b)) \<longleftrightarrow> b"
  by (simp_all add: truthy_def)

lemma truthy_not_nullish: "truthy v \<Longrightarrow> \<not> nullish v"
  by (cases v) (auto simp: nullish_def)

lemma nullish_simps [simp]:
  "nullish None" "nullish (Some JNull)" "\<not> nullish (Some (JStr s))" "\<not> nullish (Some (JNum x))"
  "\<not> nullish (Some (JBool b))" "\<not> nullish (Some (JArr vs))" "\<not> nullish (Some (JObj kvs))"
  by (simp_all add: nullish_def)

lemma prop_of_simps [simp]:
  "prop_of (Some (JObj kvs)) k = Inr (map_of kvs (js k))"
  "prop_of None k = Inl (NativeError TypeError)" "prop_of (Some JNull) k = Inl (NativeError TypeError)"
  by (simp_all add: prop_of_def)

lemma call_simps [simp]:
  "call_startsWith (Some (JStr s)) p = Inr (startsWith s (js p))"
  "call_startsWith None p = Inr False"
  "call_toLowerCase P (Some (JStr s)) = Inr (lower P s)"
  by (simp_all add: call_startsWith_def call_toLowerCase_def)

lemma andR_simps [simp, result_simps]:
  "andR (Inl e) b = Inl e" "andR (Inr True) b = b" "andR (Inr False) b = Inr False"
  by (simp_all add: andR_def)

lemma andR_True: "andR a b = Inr True \<longleftrightarrow> a = Inr True \<and> b = Inr True"
  by (cases a) (auto simp: andR_def split: if_splits)

end
