(* ===== verification/Samples.thy ===== *)
theory Samples
  imports Platform
begin

text \<open>
  Concrete values the witnesses evaluate: a platform whose functions are simple total
  functions (every signature is the one of \<open>sample_key\<close>), sample responses, and a
  transport that answers from a list. They model no code of the repository.
\<close>

definition sample_key :: jstring where
  "sample_key = js ''0x04aa''"

definition sample_platform :: "unit platform" where
  "sample_platform =
     \<lparr>has_atob = True, has_btoa = True,
      lowerUnicode = (\<lambda>s. s),
      keccak256 = (\<lambda>bs. js ''0x'' @ dec_string (length bs)),
      sha256 = (\<lambda>bs. js ''0x'' @ dec_string (length bs)),
      toUtf8Bytes = (\<lambda>s. Inr (utf8_encode s)),
      getBytes = (\<lambda>s. Inr (replicate 65 0)),
      hexlify = (\<lambda>bs. js ''0x'' @ dec_string (length bs)),
      computePublicKey = (\<lambda>k. Inr k),
      Signature_from = (\<lambda>r s v. Inr ()),
      recoverPublicKey = (\<lambda>h s. Inr sample_key),
      numberToHex = (\<lambda>x. [])\<rparr>"

text \<open>A transport whose world is the list of answers still to give.\<close>

type_synonym script = "(thrown, response) result list"

definition scripted :: "script fetcher" where
  "scripted url init w = (case w of [] \<Rightarrow> (Inl (Foreign (js ''offline'')), []) | r # w' \<Rightarrow> (r, w'))"

definition sample_response :: "int \<Rightarrow> string \<Rightarrow> response" where
  "sample_response st body = \<lparr>r_status = st, r_headers = [], r_text = Inr (js body)\<rparr>"

lemma scripted_simps [simp]:
  "scripted url init [] = (Inl (Foreign (js ''offline'')), [])"
  "scripted url init (r # w) = (r, w)"
  by (simp_all add: scripted_def)

end
