(* ===== verification/WebErrors.thy ===== *)
theory WebErrors
  imports JsValue Samples
begin

text \<open>
  Classification of failures for the user: \<^verbatim>\<open>web/src/lib/errors.ts\<close>.

  The properties tie the classification to the gateway's public errors
  (\<^verbatim>\<open>gateway/errors.go\<close>): every code the gateway answers with gets its own kind, and the
  detail shown is the code with its correlation id.
\<close>

section \<open>Data\<close>

datatype ErrorKind =
    no_wallet | wrong_chain | user_rejected | expired | duplicate_nonce | invalid_signature
  | rate_limited | ai_timeout | ai_unavailable | verifier_timeout | verifier_unavailable
  | network | unknown

record error_copy =
  cp_title :: jstring
  cp_message :: jstring

record ClassifiedError =
  ce_kind :: ErrorKind
  ce_title :: jstring
  ce_message :: jstring
  ce_detail :: "jstring option"
  ce_recoverable :: bool

record ErrorContext =
  ec_status :: "int option"
  ec_bodyText :: "jstring option"

text \<open>
  A thrown value: an object, with the three properties the code reads at their declared
  types, or a value that is no object, given by its string.
\<close>

datatype error_value =
    ErrorObject (shortMessage: "jstring option") (errMessage: "jstring option") (errCode: "json option")
  | ErrorOther jstring

definition em_dash :: jstring where
  "em_dash = [0x2014]"

primrec COPY :: "ErrorKind \<Rightarrow> error_copy" where
  "COPY no_wallet =
     \<lparr>cp_title = js ''No wallet detected'',
      cp_message = js ''Install MetaMask, Rabby, or Coinbase Wallet, then refresh this page.''\<rparr>"
| "COPY wrong_chain =
     \<lparr>cp_title = js ''Wrong network'',
      cp_message = js ''Your wallet isn't on the expected network. Use the switch button in the wallet widget to fix it.''\<rparr>"
| "COPY user_rejected =
     \<lparr>cp_title = js ''You cancelled the signature'',
      cp_message = js ''No payment was sent. Try again whenever you're ready.''\<rparr>"
| "COPY expired =
     \<lparr>cp_title = js ''Payment context expired'',
      cp_message = js ''The signed challenge took too long to return. Retry to get a fresh one.''\<rparr>"
| "COPY duplicate_nonce =
     \<lparr>cp_title = js ''Signature already used'',
      cp_message = js ''This payment context was already submitted. Each challenge can only be used once. Retry to get a fresh one.''\<rparr>"
| "COPY invalid_signature =
     \<lparr>cp_title = js ''Signature was rejected'',
      cp_message = js ''The verifier didn't accept the signature. Double-check your wallet account hasn't changed mid-flow, then retry.''\<rparr>"
| "COPY rate_limited =
     \<lparr>cp_title = js ''Rate limited'',
      cp_message = js ''Too many requests recently. Wait a moment and try again.''\<rparr>"
| "COPY ai_timeout =
     \<lparr>cp_title = js ''AI provider timed out'',
      cp_message = js ''Payment was verified, but the AI provider didn't respond in time. Your wallet wasn't charged. Retry.''\<rparr>"
| "COPY ai_unavailable =
     \<lparr>cp_title = js ''AI provider unavailable'',
      cp_message = js ''The upstream model is down right now. Try again in a minute.''\<rparr>"
| "COPY verifier_timeout =
     \<lparr>cp_title = js ''Verifier timed out'',
      cp_message = js ''The signature verifier didn't respond in time. Your signature wasn't accepted '' @
        em_dash @ js '' no payment occurred. Retry.''\<rparr>"
| "COPY verifier_unavailable =
     \<lparr>cp_title = js ''Verifier unavailable'',
      cp_message = js ''The signature verifier is down. Your signature wasn't accepted '' @
        em_dash @ js '' no payment occurred. Retry in a moment.''\<rparr>"
| "COPY network =
     \<lparr>cp_title = js ''Network error'',
      cp_message = js ''Couldn't reach the gateway. Check your connection and retry.''\<rparr>"
| "COPY unknown =
     \<lparr>cp_title = js ''Something broke'',
      cp_message = js ''An unexpected error happened. Retry '' @ em_dash @
        js '' and if it persists, check the console.''\<rparr>"

section \<open>Operations\<close>

text \<open>The body of the \<^verbatim>\<open>try\<close>: a returned text, falling through, or a throw.\<close>

definition described_error :: "jstring \<Rightarrow> (thrown, jstring option) result" where
  "described_error raw =
     bindR (parse_text raw) (\<lambda>parsed.
     bindR (prop_of (Some parsed) ''error'') (\<lambda>err.
     case (truthy err, err) of
       (True, Some (JStr errcode)) \<Rightarrow>
         (let cid = field (Some parsed) ''correlation_id'' in
          if truthy cid
          then bindR (String_of cid) (\<lambda>c. Inr (Some (js ''['' @ errcode @ js ''] correlation_id='' @ c)))
          else Inr (Some (js ''['' @ errcode @ js '']'')))
     | _ \<Rightarrow> Inr None))"

definition sanitizeDetail :: "jstring option \<Rightarrow> jstring option" where
  "sanitizeDetail raw_arg =
     (case raw_arg of
        None \<Rightarrow> None
      | Some raw \<Rightarrow>
          if raw = [] then None
          else
            (case described_error raw of
               Inr (Some text) \<Rightarrow> Some text
             | _ \<Rightarrow> Some (if 200 < length raw then take 200 raw @ js ''...'' else raw)))"

definition build_error :: "ErrorKind \<Rightarrow> jstring option \<Rightarrow> ClassifiedError" where
  "build_error kind detail =
     \<lparr>ce_kind = kind, ce_title = cp_title (COPY kind), ce_message = cp_message (COPY kind),
      ce_detail = sanitizeDetail detail, ce_recoverable = (kind \<noteq> no_wallet)\<rparr>"

definition statusToKind :: "int \<Rightarrow> jstring \<Rightarrow> ErrorKind" where
  "statusToKind st body =
     (if st = 400 then
        if str_includes body (js ''chain_id_mismatch'') then wrong_chain
        else if str_includes body (js ''invalid_timestamp'') then expired
        else invalid_signature
      else if st = 402 then expired
      else if st = 403 then invalid_signature
      else if st = 408 then ai_timeout
      else if st = 504 then
        if str_includes body (js ''verifier_timeout'') then verifier_timeout else ai_timeout
      else if st = 409 then
        if str_includes body (js ''nonce_already_used'') then duplicate_nonce else invalid_signature
      else if st = 429 then rate_limited
      else if st = 502 then
        if str_includes body (js ''verification_unavailable'') then verifier_unavailable
        else ai_unavailable
      else if st \<ge> 500 then ai_unavailable
      else unknown)"

definition looksWrongChain :: "'sig platform \<Rightarrow> jstring \<Rightarrow> bool" where
  "looksWrongChain P msg =
     (let m = lower P msg in
      str_includes m (js ''wrong network'') \<or>
      str_includes m (js ''wrong chain'') \<or>
      str_includes m (js ''chain mismatch'') \<or>
      str_includes m (js ''unsupported chain'') \<or>
      str_includes m (js ''chain not supported'') \<or>
      str_includes m (js ''incorrect network'') \<or>
      str_includes m (js ''did not switch to chain''))"

definition looksRejected :: "'sig platform \<Rightarrow> jstring \<Rightarrow> json option \<Rightarrow> bool" where
  "looksRejected P msg cd =
     (if cd = Some (JNum (num_of_int 4001)) \<or> cd = Some (JStr (js ''ACTION_REJECTED'')) then True
      else
        (let m = lower P msg in
         str_includes m (js ''user rejected'') \<or>
         str_includes m (js ''user denied'') \<or>
         str_includes m (js ''rejected the request'') \<or>
         str_includes m (js ''action_rejected'')))"

definition no_context :: ErrorContext where
  "no_context = \<lparr>ec_status = None, ec_bodyText = None\<rparr>"

definition classifyError :: "'sig platform \<Rightarrow> error_value \<Rightarrow> ErrorContext \<Rightarrow> ClassifiedError" where
  "classifyError P err ctx =
     (case (if ec_status ctx = Some 0 then None else ec_status ctx) of
        Some st \<Rightarrow>
          build_error
            (statusToKind st (case ec_bodyText ctx of None \<Rightarrow> [] | Some t \<Rightarrow> t)) (ec_bodyText ctx)
      | None \<Rightarrow>
          (case err of
             ErrorObject sm em cd \<Rightarrow>
               (let msg = (case sm of Some m \<Rightarrow> m | None \<Rightarrow> (case em of Some m \<Rightarrow> m | None \<Rightarrow> [])) in
                if looksRejected P msg cd then build_error user_rejected (Some msg)
                else if looksWrongChain P msg then build_error wrong_chain (Some msg)
                else if str_includes (lower P msg) (js ''no wallet'') \<or>
                        str_includes (lower P msg) (js ''no crypto wallet'')
                then build_error no_wallet (Some msg)
                else if str_includes (lower P msg) (js ''failed to fetch'') \<or>
                        str_includes (lower P msg) (js ''networkerror'')
                then build_error network (Some msg)
                else build_error unknown (Some msg))
           | ErrorOther s \<Rightarrow> build_error unknown (Some s)))"

section \<open>The gateway's errors\<close>

text \<open>
  \<^verbatim>\<open>respondError\<close> of the gateway answers with an object of two members, printed in the order
  of their names.
\<close>

definition gateway_error :: "string \<Rightarrow> jstring \<Rightarrow> json" where
  "gateway_error public_msg cid =
     JObj [(js ''correlation_id'', JStr cid), (js ''error'', JStr (js public_msg))]"

text \<open>The status and public code of each of the gateway's errors, with the kind meant for it.\<close>

definition gateway_errors :: "(int \<times> string \<times> ErrorKind) list" where
  "gateway_errors =
     [(400, ''chain_id_mismatch'', wrong_chain),
      (400, ''invalid_timestamp'', expired),
      (403, ''invalid_signature'', invalid_signature),
      (409, ''nonce_already_used'', duplicate_nonce),
      (504, ''verifier_timeout'', verifier_timeout),
      (504, ''upstream_timeout'', ai_timeout),
      (502, ''verification_unavailable'', verifier_unavailable),
      (502, ''upstream_unavailable'', ai_unavailable),
      (500, ''receipt_generation_failed'', ai_unavailable)]"

text \<open>A correlation id without quotes, escapes or underscores, such as a UUID.\<close>

definition plain_id :: "jstring \<Rightarrow> bool" where
  "plain_id cid \<longleftrightarrow>
     cid \<noteq> [] \<and>
     list_all (\<lambda>u. 32 \<le> unat u \<and> unat u < 127 \<and>
       u \<notin> {cu (CHR 0x22), cu (CHR 0x5C), cu CHR ''_''}) cid"

lemma quote_plain:
  assumes "list_all (\<lambda>u. 32 \<le> unat u \<and> unat u < 127 \<and> u \<noteq> cu (CHR 0x22) \<and> u \<noteq> cu (CHR 0x5C)) s"
  shows "quote s = [cu (CHR 0x22)] @ s @ [cu (CHR 0x22)]"
proof -
  have "quote_chars s = s" using assms
  proof (induction s rule: quote_chars.induct)
    case (2 u)
    then show ?case by (auto simp: quote_unit_def is_high_def is_low_def)
  next
    case (3 u v s)
    then show ?case by (auto simp: quote_unit_def is_high_def is_low_def)
  qed simp
  then show ?thesis by (simp add: quote_def)
qed

lemma sublist_across:
  assumes "sublist p (a @ [q] @ b)" "q \<notin> set p"
  shows "sublist p a \<or> sublist p b"
  using assms(1)
proof (induction a)
  case Nil
  then show ?case using assms(2) by (cases p) (auto simp: sublist_Cons_right)
next
  case (Cons x a)
  show ?case
  proof (cases "prefix p (x # a @ [q] @ b)")
    case True
    then have "prefix p (x # a)"
      using assms(2) prefix_append [of p "x # a" "[q] @ b"] by (auto simp: prefix_Cons)
    then show ?thesis by (simp add: prefix_imp_sublist)
  next
    case False
    with Cons show ?thesis by (auto simp: sublist_Cons_right)
  qed
qed

text \<open>A public code occurs in the printed error exactly where the code itself is.\<close>

definition code_text :: "string \<Rightarrow> bool" where
  "code_text m \<longleftrightarrow>
     list_all (\<lambda>c. 32 \<le> (of_char c :: nat) \<and> of_char c < (127 :: nat) \<and>
       c \<notin> {CHR 0x22, CHR 0x5C, CHR '':'', CHR '','', CHR ''{'', CHR ''}''}) m"

definition searched_code :: "string \<Rightarrow> bool" where
  "searched_code p \<longleftrightarrow>
     code_text p \<and> CHR ''_'' \<in> set p \<and> \<not> sublist p ''correlation_id'' \<and> \<not> sublist p ''error''"

lemma includes_gateway_error:
  assumes "plain_id cid" "searched_code p" "code_text public_msg"
  shows "str_includes (stringify (gateway_error public_msg cid)) (js p) \<longleftrightarrow> sublist p public_msg"
proof -
  have q: "quote (js public_msg) = [cu (CHR 0x22)] @ js public_msg @ [cu (CHR 0x22)]"
    using assms(3) by (intro quote_plain) (auto simp: code_text_def list_all_iff js_def)
  have c: "quote cid = [cu (CHR 0x22)] @ cid @ [cu (CHR 0x22)]"
    using assms(1) by (intro quote_plain) (auto simp: plain_id_def list_all_iff)
  have k: "quote (js ''correlation_id'') = [cu (CHR 0x22)] @ js ''correlation_id'' @ [cu (CHR 0x22)]"
    "quote (js ''error'') = [cu (CHR 0x22)] @ js ''error'' @ [cu (CHR 0x22)]"
    by (intro quote_plain, simp add: js_def)+
  have printed: "stringify (gateway_error public_msg cid) =
      js ''{'' @ [cu (CHR 0x22)] @ js ''correlation_id'' @ [cu (CHR 0x22)] @ js '':'' @ [cu (CHR 0x22)] @ cid @
      [cu (CHR 0x22)] @ js '','' @ [cu (CHR 0x22)] @ js ''error'' @ [cu (CHR 0x22)] @ js '':'' @
      [cu (CHR 0x22)] @ js public_msg @ [cu (CHR 0x22)] @ js ''}''"
    by (simp add: gateway_error_def q c k)
  have p: "CHR ''_'' \<in> set p" "CHR 0x22 \<notin> set p" "CHR '':'' \<notin> set p" "CHR '','' \<notin> set p"
    "CHR ''{'' \<notin> set p" "CHR ''}'' \<notin> set p" "\<not> sublist p ''correlation_id''" "\<not> sublist p ''error''"
    using assms(2) by (auto simp: searched_code_def code_text_def list_all_iff)
  have no: "cu (CHR 0x22) \<notin> set (js p)" using p(2) by (auto simp: js_def)
  have cid: "\<not> sublist (js p) cid"
  proof
    assume "sublist (js p) cid"
    then have "set (js p) \<subseteq> set cid" by (auto simp: sublist_def)
    moreover have "cu CHR ''_'' \<in> set (js p)" using p(1) by (auto simp: js_def)
    ultimately show False using assms(1) by (auto simp: plain_id_def list_all_iff)
  qed
  have single: "\<not> sublist p [x]" if "x \<notin> set p" for x
    using that p(1) by (cases p) (auto simp: sublist_Cons_right)
  have across: "sublist (js p) (a @ cu (CHR 0x22) # b) \<longleftrightarrow> sublist (js p) a \<or> sublist (js p) b" for a b
    using sublist_across [OF _ no, of a b] sublist_append [of "js p" a "cu (CHR 0x22) # b"]
      sublist_Cons_right [of "js p"] by auto
  show ?thesis
    using cid p(7, 8) single [OF p(3)] single [OF p(4)] single [OF p(5)] single [OF p(6)]
    by (simp add: str_includes_def printed across)
qed

text \<open>The kind as a function of the status and the code alone.\<close>

definition code_kind :: "int \<Rightarrow> string \<Rightarrow> ErrorKind" where
  "code_kind st m = statusToKind st (js m)"

lemma gateway_errors_kinds: "list_all (\<lambda>(st, m, k). code_kind st m = k \<and> code_text m) gateway_errors"
  by code_simp

lemma statusToKind_body:
  assumes "plain_id cid" "code_text public_msg"
  shows "statusToKind st (stringify (gateway_error public_msg cid)) = code_kind st public_msg"
proof -
  have searched: "searched_code ''chain_id_mismatch''" "searched_code ''invalid_timestamp''"
    "searched_code ''verifier_timeout''" "searched_code ''nonce_already_used''"
    "searched_code ''verification_unavailable''"
    by code_simp+
  show ?thesis
    unfolding statusToKind_def code_kind_def includes_js
    unfolding includes_gateway_error [OF assms(1) searched(1) assms(2)]
      includes_gateway_error [OF assms(1) searched(2) assms(2)]
      includes_gateway_error [OF assms(1) searched(3) assms(2)]
      includes_gateway_error [OF assms(1) searched(4) assms(2)]
      includes_gateway_error [OF assms(1) searched(5) assms(2)] ..
qed

lemma statusToKind_gateway:
  assumes "plain_id cid" "(st, public_msg, kind) \<in> set gateway_errors"
  shows "statusToKind st (stringify (gateway_error public_msg cid)) = kind"
  using gateway_errors_kinds assms(2) statusToKind_body [OF assms(1)] by (fastforce simp: list_all_iff)

lemma json_ok_gateway_error: "json_ok (gateway_error public_msg cid)"
  by (auto simp: gateway_error_def intro!: canonical_named index_of_js) (auto simp: js_def is_digit_def)

lemma sanitizeDetail_gateway:
  assumes "cid \<noteq> []" "public_msg \<noteq> []"
  shows "sanitizeDetail (Some (stringify (gateway_error public_msg cid))) =
    Some (js ''['' @ js public_msg @ js ''] correlation_id='' @ cid)"
proof -
  have "described_error (stringify (gateway_error public_msg cid)) =
      Inr (Some (js ''['' @ js public_msg @ js ''] correlation_id='' @ cid))"
    using assms json_ok_gateway_error [of public_msg cid]
    by (simp add: described_error_def) (simp add: gateway_error_def String_of_def)
  then show ?thesis using stringify_not_Nil [OF json_ok_gateway_error] by (simp add: sanitizeDetail_def)
qed

section \<open>Properties\<close>



text \<open>
  A detail is short or it is the gateway's own code: the text shown for a body that is not a
  gateway error has at most 203 code units, is not empty and starts like the body.
\<close>

lemma detail_bounded:
  assumes "sanitizeDetail raw = Some d" "\<And>r. raw = Some r \<Longrightarrow> described_error r \<in> {Inr None} \<union> range Inl"
  shows "d \<noteq> [] \<and> length d \<le> 203 \<and> take 200 d = take 200 (the raw)"
  using assms
  by (cases raw) (auto simp: sanitizeDetail_def split: if_splits sum.splits option.splits)

text \<open>
  A rejected wallet prompt is never reported as anything else: a provider error with code
  4001 is classified as the user's rejection, whatever its message, and can be retried.
\<close>

lemma wallet_rejection:
  "let e = classifyError P (ErrorObject sm em (Some (JNum (num_of_int 4001)))) no_context in
     ce_kind e = user_rejected \<and> ce_recoverable e \<and>
     ce_title e = js ''You cancelled the signature''"
  by (simp add: classifyError_def no_context_def looksRejected_def build_error_def)

text \<open>
  Every other bad request is blamed on the signature, also the gateway's answer to a body it
  cannot read, which it gives after the signature was verified.
\<close>

lemma bad_request_blames_signature:
  assumes "\<not> str_includes body (js ''chain_id_mismatch'')" "\<not> str_includes body (js ''invalid_timestamp'')"
  shows "ce_kind (classifyError P err \<lparr>ec_status = Some 400, ec_bodyText = Some body\<rparr>) = invalid_signature"
  using assms by (simp add: classifyError_def build_error_def statusToKind_def)

lemma unreadable_body_blames_signature:
  "ce_kind (classifyError P err
     \<lparr>ec_status = Some 400, ec_bodyText = Some (js ''{'' @ [cu (CHR 0x22)] @ js ''error'' @ [cu (CHR 0x22)] @ js '':'' @
        [cu (CHR 0x22)] @ js ''Invalid request body'' @ [cu (CHR 0x22)] @ js ''}'')\<rparr>) = invalid_signature"
proof (rule bad_request_blames_signature)
  let ?body = "js ''{'' @ [cu (CHR 0x22)] @ js ''error'' @ [cu (CHR 0x22)] @ js '':'' @
        [cu (CHR 0x22)] @ js ''Invalid request body'' @ [cu (CHR 0x22)] @ js ''}''"
  have "cu (CHR ''_'') \<notin> set ?body" by (simp add: js_Cons)
  moreover have "cu (CHR ''_'') \<in> set b" if "str_includes b (js p)" "CHR ''_'' \<in> set p" for b p
    using that by (auto simp: str_includes_def sublist_def js_def)
  ultimately have no: "\<not> str_includes ?body (js p)" if "CHR ''_'' \<in> set p" for p
    using that by blast
  show "\<not> str_includes ?body (js ''chain_id_mismatch'')" "\<not> str_includes ?body (js ''invalid_timestamp'')"
    by (rule no, simp)+
qed

end
