(* ===== verification/Payment.thy ===== *)
theory Payment
  imports Platform
begin

text \<open>
  Payment contexts and their signatures: \<^verbatim>\<open>sdk/typescript/src/payment.ts\<close> and the
  payment types of \<^verbatim>\<open>sdk/typescript/src/protocol/types.ts\<close>.

  A \<open>PaymentContext\<close> is what the gateway's 402 answer asks the client to sign. The typed
  data handed to the signer is the value \<open>buildPaymentTypedData\<close> returns; the signer is a
  parameter, a function over the world.
\<close>

section \<open>Data\<close>

record PaymentContext =
  ctx_recipient :: jstring
  ctx_token :: jstring
  ctx_amount :: jstring
  ctx_nonce :: jstring
  ctx_chainId :: jsnum
  ctx_timestamp :: jsnum

record TypedDataDomain =
  dom_name :: jstring
  dom_version :: jstring
  dom_chainId :: jsnum
  dom_verifyingContract :: jstring

record TypedDataField =
  tf_name :: jstring
  tf_type :: jstring

record PaymentValue =
  val_recipient :: jstring
  val_token :: jstring
  val_amount :: jstring
  val_nonce :: jstring
  val_timestamp :: jsnum

record TypedData =
  td_domain :: TypedDataDomain
  td_types :: "(jstring \<times> TypedDataField list) list"
  td_value :: PaymentValue

text \<open>\<^verbatim>\<open>PaymentSigner\<close>: its one method \<^verbatim>\<open>signTypedData\<close>.\<close>

type_synonym 'w PaymentSigner =
  "TypedDataDomain \<Rightarrow> (jstring \<times> TypedDataField list) list \<Rightarrow> PaymentValue \<Rightarrow>
     ('w, thrown, jstring) io"

section \<open>Operations\<close>

definition PAYMENT_DOMAIN_NAME :: jstring where
  "PAYMENT_DOMAIN_NAME = js ''MicroAI Paygate''"

definition PAYMENT_DOMAIN_VERSION :: jstring where
  "PAYMENT_DOMAIN_VERSION = js ''1''"

definition PAYMENT_TYPES :: "(jstring \<times> TypedDataField list) list" where
  "PAYMENT_TYPES =
     [(js ''Payment'',
       [\<lparr>tf_name = js ''recipient'', tf_type = js ''address''\<rparr>,
        \<lparr>tf_name = js ''token'', tf_type = js ''string''\<rparr>,
        \<lparr>tf_name = js ''amount'', tf_type = js ''string''\<rparr>,
        \<lparr>tf_name = js ''nonce'', tf_type = js ''string''\<rparr>,
        \<lparr>tf_name = js ''timestamp'', tf_type = js ''uint256''\<rparr>])]"

definition buildPaymentTypedData :: "PaymentContext \<Rightarrow> TypedData" where
  "buildPaymentTypedData ctx =
     \<lparr>td_domain =
        \<lparr>dom_name = PAYMENT_DOMAIN_NAME, dom_version = PAYMENT_DOMAIN_VERSION,
         dom_chainId = ctx_chainId ctx, dom_verifyingContract = ZeroAddress\<rparr>,
      td_types = PAYMENT_TYPES,
      td_value =
        \<lparr>val_recipient = ctx_recipient ctx, val_token = ctx_token ctx,
         val_amount = ctx_amount ctx, val_nonce = ctx_nonce ctx,
         val_timestamp = ctx_timestamp ctx\<rparr>\<rparr>"

definition signPaymentContext ::
    "'w PaymentSigner \<Rightarrow> PaymentContext \<Rightarrow> ('w, thrown, jstring) io" where
  "signPaymentContext signer ctx =
     (let td = buildPaymentTypedData ctx in signer (td_domain td) (td_types td) (td_value td))"

definition buildSignedHeaders :: "PaymentContext \<Rightarrow> jstring \<Rightarrow> (jstring \<times> jstring) list" where
  "buildSignedHeaders ctx signature =
     [(js ''X-402-Signature'', signature),
      (js ''X-402-Nonce'', ctx_nonce ctx),
      (js ''X-402-Timestamp'', num_to_string (ctx_timestamp ctx))]"

section \<open>What the signature and the headers cover\<close>

text \<open>The members of the signed struct are the fields of the declared type, in order.\<close>

lemma PAYMENT_TYPES_members:
  "map tf_name (the (map_of PAYMENT_TYPES (js ''Payment''))) =
     map js [''recipient'', ''token'', ''amount'', ''nonce'', ''timestamp'']"
  by (simp add: PAYMENT_TYPES_def)

lemma buildPaymentTypedData_inject:
  "buildPaymentTypedData c = buildPaymentTypedData d \<Longrightarrow> c = d"
  by (cases c; cases d) (simp add: buildPaymentTypedData_def)

lemma timestamp_header:
  assumes "ctx_timestamp ctx = num_of_int n" "0 < n" "n \<le> max_safe_integer"
  shows "map_of (buildSignedHeaders ctx sig) (js ''X-402-Timestamp'') = Some (dec_string (nat n))"
  using assms by (simp add: buildSignedHeaders_def num_to_string_int int_string_def)

lemma signed_headers_lookup [simp]:
  "map_of (buildSignedHeaders ctx sig) (js ''X-402-Signature'') = Some sig"
  "map_of (buildSignedHeaders ctx sig) (js ''X-402-Nonce'') = Some (ctx_nonce ctx)"
  by (simp_all add: buildSignedHeaders_def)

section \<open>Properties\<close>

text \<open>
  A signature commits to the whole challenge: payment contexts that differ in any field,
  the chain id included, give different typed data.
\<close>

lemma typed_data_injective: "inj buildPaymentTypedData"
  by (rule injI) (rule buildPaymentTypedData_inject)

text \<open>
  The timestamp header is the decimal numeral of the context's timestamp: digits only, and
  it denotes that number, so the gateway reads back the timestamp that was signed.
\<close>

lemma timestamp_header_denotes:
  assumes "ctx_timestamp ctx = num_of_int n" "0 < n" "n \<le> max_safe_integer"
  shows "\<exists>t. map_of (buildSignedHeaders ctx sig) (js ''X-402-Timestamp'') = Some t \<and>
    list_all is_digit t \<and> digits_value t = nat n"
  using timestamp_header [OF assms] dec_string_digits by simp

end
