(* ===== verification/Receipts.thy ===== *)
theory Receipts
  imports Payment Samples
begin

text \<open>
  Receipts: \<^verbatim>\<open>sdk/typescript/src/receipts.ts\<close> and the receipt types of
  \<^verbatim>\<open>sdk/typescript/src/protocol/types.ts\<close>.

  A receipt reaches the SDK as a JSON value of unknown shape and leaves it as the same
  value, extra properties included, so the operations work on \<open>json\<close>. The records
  \<open>Receipt\<close> and \<open>SignedReceipt\<close> are the declared types; \<open>as_SignedReceipt\<close> reads
  a value as such a record and \<open>json_of_signed\<close> builds the value the gateway sends.
  The lemmas relate the two levels: \<open>validateReceiptFormat\<close> accepts exactly the values
  that are well-formed records, the signed text determines every field of the record, and
  \<open>verifyReceipt\<close> is the declarative \<open>authentic\<close>.
\<close>

section \<open>Data\<close>

record PaymentDetails =
  pd_payer :: jstring
  pd_recipient :: jstring
  pd_amount :: jstring
  pd_token :: jstring
  pd_chainId :: jsnum
  pd_nonce :: jstring

record ServiceDetails =
  sd_endpoint :: jstring
  sd_request_hash :: jstring
  sd_response_hash :: jstring

record Receipt =
  rc_id :: jstring
  rc_version :: jstring
  rc_timestamp :: jstring
  rc_payment :: PaymentDetails
  rc_service :: ServiceDetails

record SignedReceipt =
  sr_receipt :: Receipt
  sr_signature :: jstring
  sr_server_public_key :: jstring

section \<open>Format\<close>

definition isRecord :: "json option \<Rightarrow> bool" where
  "isRecord v = (case v of Some (JArr _) \<Rightarrow> True | Some (JObj _) \<Rightarrow> True | _ \<Rightarrow> False)"

definition isNonEmptyString :: "json option \<Rightarrow> bool" where
  "isNonEmptyString v = (case v of Some (JStr s) \<Rightarrow> 0 < length s | _ \<Rightarrow> False)"

definition isPrefixedString :: "json option \<Rightarrow> string \<Rightarrow> bool" where
  "isPrefixedString v p \<longleftrightarrow>
     isNonEmptyString v \<and> (case v of Some (JStr s) \<Rightarrow> startsWith s (js p) | _ \<Rightarrow> False)"

text \<open>\<^verbatim>\<open>typeof v === "number" && Number.isSafeInteger(v) && v > 0\<close>\<close>

definition isPositiveSafeInteger :: "json option \<Rightarrow> bool" where
  "isPositiveSafeInteger v =
     (case v of Some (JNum x) \<Rightarrow> isSafeInteger x \<and> positive_num x | _ \<Rightarrow> False)"

definition validateReceiptFormat :: "json option \<Rightarrow> bool" where
  "validateReceiptFormat v =
     (if \<not> isRecord v then False
      else
        (let receipt = field v ''receipt'' in
         if \<not> isRecord receipt then False
         else
           (let payment = field receipt ''payment''; service = field receipt ''service'' in
            if \<not> isRecord payment \<or> \<not> isRecord service then False
            else
              isPrefixedString (field receipt ''id'') ''rcpt_'' \<and>
              isNonEmptyString (field receipt ''version'') \<and>
              isNonEmptyString (field receipt ''timestamp'') \<and>
              isNonEmptyString (field payment ''payer'') \<and>
              isNonEmptyString (field payment ''recipient'') \<and>
              isNonEmptyString (field payment ''amount'') \<and>
              isNonEmptyString (field payment ''token'') \<and>
              isPositiveSafeInteger (field payment ''chainId'') \<and>
              isNonEmptyString (field payment ''nonce'') \<and>
              isNonEmptyString (field service ''endpoint'') \<and>
              isPrefixedString (field service ''request_hash'') ''sha256:'' \<and>
              isPrefixedString (field service ''response_hash'') ''sha256:'' \<and>
              isPrefixedString (field v ''signature'') ''0x'' \<and>
              isPrefixedString (field v ''server_public_key'') ''0x'')))"

section \<open>Decoding the receipt header\<close>

definition decodeReceiptHeader :: "'sig platform \<Rightarrow> jstring \<Rightarrow> (thrown, json) result" where
  "decodeReceiptHeader P headerValue =
     catchR
       (bindR (decodeBase64ToUtf8 P headerValue) (\<lambda>json.
        bindR (parse_text json) (\<lambda>decoded.
          if \<not> validateReceiptFormat (Some decoded)
          then Inl (JsError (js ''decoded receipt does not match SignedReceipt shape''))
          else Inr decoded)))
       (\<lambda>error. Inl (new_PaygateSdkError receipt_decode_failed
          ''Failed to decode X-402-Receipt as a gateway SignedReceipt''
          (no_options\<lparr>opt_cause := Some error\<rparr>)))"

section \<open>Verification\<close>

definition serializeReceiptForGateway :: "json option \<Rightarrow> jstring" where
  "serializeReceiptForGateway receipt =
     (let payment = field receipt ''payment''; service = field receipt ''service'' in
      stringify (obj_lit
        [(''id'', field receipt ''id''),
         (''version'', field receipt ''version''),
         (''timestamp'', field receipt ''timestamp''),
         (''payment'', Some (obj_lit
            [(''payer'', field payment ''payer''),
             (''recipient'', field payment ''recipient''),
             (''amount'', field payment ''amount''),
             (''token'', field payment ''token''),
             (''chainId'', field payment ''chainId''),
             (''nonce'', field payment ''nonce'')])),
         (''service'', Some (obj_lit
            [(''endpoint'', field service ''endpoint''),
             (''request_hash'', field service ''request_hash''),
             (''response_hash'', field service ''response_hash'')]))]))"

definition normalizePublicKey :: "'sig platform \<Rightarrow> jstring option \<Rightarrow> jstring option" where
  "normalizePublicKey P value =
     (case value of
        None \<Rightarrow> None
      | Some s \<Rightarrow>
          if s = [] then None
          else (case computePublicKey P s of Inl _ \<Rightarrow> None | Inr k \<Rightarrow> Some (lower P k)))"

text \<open>The \<^verbatim>\<open>v\<close> of a signature: a recovery id of 0 or 1 is shifted, 27 and 28 are kept.\<close>

definition recovery_v :: "byte \<Rightarrow> nat" where
  "recovery_v recoveryId = (if unat recoveryId \<le> 1 then unat recoveryId + 27 else unat recoveryId)"

text \<open>
  \<^verbatim>\<open>options?.expectedServerPublicKey\<close> is the last argument. The body may throw at every
  call of the platform; the handler turns each throw into \<^verbatim>\<open>false\<close>.
\<close>

definition verifyReceipt :: "'sig platform \<Rightarrow> json \<Rightarrow> jstring option \<Rightarrow> bool" where
  "verifyReceipt P signedReceipt expectedServerPublicKey =
     (case
        (if \<not> validateReceiptFormat (Some signedReceipt) then Inr False
         else
           (let expectedPublicKey = normalizePublicKey P expectedServerPublicKey in
            if expectedPublicKey = None then Inr False
            else
              (let receiptPublicKey =
                     normalizePublicKey P (str_of (field (Some signedReceipt) ''server_public_key''))
               in
               if receiptPublicKey \<noteq> expectedPublicKey then Inr False
               else
                 (let receiptJson =
                        serializeReceiptForGateway (field (Some signedReceipt) ''receipt'') in
                  bindR (toUtf8Bytes P receiptJson) (\<lambda>message.
                  let messageHash = keccak256 P message in
                  bindR (getBytes P (the (str_of (field (Some signedReceipt) ''signature''))))
                    (\<lambda>sigBytes.
                  if length sigBytes \<noteq> 65 then Inr False
                  else
                    (let recoveryId = sigBytes ! 64; v = recovery_v recoveryId in
                     bindR (Signature_from P (hexlify P (take 32 sigBytes))
                              (hexlify P (take 32 (drop 32 sigBytes))) v) (\<lambda>signature.
                     bindR (recoverPublicKey P messageHash signature) (\<lambda>recoveredPubKey.
                     Inr (normalizePublicKey P (Some recoveredPubKey) = expectedPublicKey))))))))))
      of Inl _ \<Rightarrow> False | Inr b \<Rightarrow> b)"

section \<open>Looking a receipt up at the gateway\<close>

definition fetchReceipt ::
    "jstring \<Rightarrow> jstring option \<Rightarrow> 'w fetcher \<Rightarrow> ('w, thrown, json option) io" where
  "fetchReceipt receiptId gatewayUrl_arg fetcher =
     (let gatewayUrl =
            (case gatewayUrl_arg of None \<Rightarrow> js ''http://localhost:3000'' | Some u \<Rightarrow> u) in
      catchIO
        (case encodeURIComponent receiptId of
           None \<Rightarrow> throwIO (NativeError URIError)
         | Some encoded \<Rightarrow>
             bindIO (fetcher (strip_slashes gatewayUrl @ js ''/api/receipts/'' @ encoded) None)
               (\<lambda>response.
                if r_status response = 404 then returnIO None
                else if \<not> response_ok response then
                  bindIO (liftIO (r_text response)) (\<lambda>text.
                    throwIO (new_PaygateSdkError network_error ''Failed to fetch receipt''
                      (no_options\<lparr>opt_status := Some (r_status response),
                         opt_bodyText := Some text\<rparr>)))
                else
                  bindIO
                    (catchIO (liftIO (response_json response)) (\<lambda>error.
                       throwIO (new_PaygateSdkError receipt_decode_failed
                         ''Receipt lookup response was not JSON''
                         (no_options\<lparr>opt_status := Some (r_status response),
                            opt_cause := Some error\<rparr>))))
                    (\<lambda>body.
                     if \<not> validateReceiptFormat (Some body)
                     then throwIO (new_PaygateSdkError receipt_decode_failed
                       ''Receipt lookup response did not match SignedReceipt shape''
                       (no_options\<lparr>opt_status := Some (r_status response)\<rparr>))
                     else returnIO (Some body))))
        (\<lambda>error.
           if is_sdk_error error then throwIO error
           else throwIO (new_PaygateSdkError network_error ''Network error while fetching receipt''
             (no_options\<lparr>opt_cause := Some error\<rparr>))))"

section \<open>The declared types as values\<close>

definition json_of_receipt :: "Receipt \<Rightarrow> json" where
  "json_of_receipt r =
     JObj
       [(js ''id'', JStr (rc_id r)),
        (js ''version'', JStr (rc_version r)),
        (js ''timestamp'', JStr (rc_timestamp r)),
        (js ''payment'', JObj
           [(js ''payer'', JStr (pd_payer (rc_payment r))),
            (js ''recipient'', JStr (pd_recipient (rc_payment r))),
            (js ''amount'', JStr (pd_amount (rc_payment r))),
            (js ''token'', JStr (pd_token (rc_payment r))),
            (js ''chainId'', JNum (pd_chainId (rc_payment r))),
            (js ''nonce'', JStr (pd_nonce (rc_payment r)))]),
        (js ''service'', JObj
           [(js ''endpoint'', JStr (sd_endpoint (rc_service r))),
            (js ''request_hash'', JStr (sd_request_hash (rc_service r))),
            (js ''response_hash'', JStr (sd_response_hash (rc_service r)))])]"

definition json_of_signed :: "SignedReceipt \<Rightarrow> json" where
  "json_of_signed s =
     JObj
       [(js ''receipt'', json_of_receipt (sr_receipt s)),
        (js ''signature'', JStr (sr_signature s)),
        (js ''server_public_key'', JStr (sr_server_public_key s))]"

definition num_of :: "json option \<Rightarrow> jsnum option" where
  "num_of v = (case v of Some (JNum x) \<Rightarrow> Some x | _ \<Rightarrow> None)"

definition as_PaymentDetails :: "json option \<Rightarrow> PaymentDetails option" where
  "as_PaymentDetails p =
     Option.bind (str_of (field p ''payer'')) (\<lambda>payer.
     Option.bind (str_of (field p ''recipient'')) (\<lambda>recipient.
     Option.bind (str_of (field p ''amount'')) (\<lambda>amount.
     Option.bind (str_of (field p ''token'')) (\<lambda>token.
     Option.bind (num_of (field p ''chainId'')) (\<lambda>chainId.
     Option.bind (str_of (field p ''nonce'')) (\<lambda>nonce.
     Some \<lparr>pd_payer = payer, pd_recipient = recipient, pd_amount = amount, pd_token = token,
           pd_chainId = chainId, pd_nonce = nonce\<rparr>))))))"

definition as_ServiceDetails :: "json option \<Rightarrow> ServiceDetails option" where
  "as_ServiceDetails s =
     Option.bind (str_of (field s ''endpoint'')) (\<lambda>endpoint.
     Option.bind (str_of (field s ''request_hash'')) (\<lambda>request_hash.
     Option.bind (str_of (field s ''response_hash'')) (\<lambda>response_hash.
     Some \<lparr>sd_endpoint = endpoint, sd_request_hash = request_hash,
           sd_response_hash = response_hash\<rparr>)))"

definition as_Receipt :: "json option \<Rightarrow> Receipt option" where
  "as_Receipt r =
     Option.bind (str_of (field r ''id'')) (\<lambda>id.
     Option.bind (str_of (field r ''version'')) (\<lambda>version.
     Option.bind (str_of (field r ''timestamp'')) (\<lambda>timestamp.
     Option.bind (as_PaymentDetails (field r ''payment'')) (\<lambda>payment.
     Option.bind (as_ServiceDetails (field r ''service'')) (\<lambda>service.
     Some \<lparr>rc_id = id, rc_version = version, rc_timestamp = timestamp, rc_payment = payment,
           rc_service = service\<rparr>)))))"

definition as_SignedReceipt :: "json option \<Rightarrow> SignedReceipt option" where
  "as_SignedReceipt v =
     Option.bind (as_Receipt (field v ''receipt'')) (\<lambda>receipt.
     Option.bind (str_of (field v ''signature'')) (\<lambda>signature.
     Option.bind (str_of (field v ''server_public_key'')) (\<lambda>server_public_key.
     Some \<lparr>sr_receipt = receipt, sr_signature = signature,
           sr_server_public_key = server_public_key\<rparr>)))"

definition wf_payment :: "PaymentDetails \<Rightarrow> bool" where
  "wf_payment p \<longleftrightarrow>
     pd_payer p \<noteq> [] \<and> pd_recipient p \<noteq> [] \<and> pd_amount p \<noteq> [] \<and> pd_token p \<noteq> [] \<and>
     isSafeInteger (pd_chainId p) \<and> positive_num (pd_chainId p) \<and> pd_nonce p \<noteq> []"

definition wf_service :: "ServiceDetails \<Rightarrow> bool" where
  "wf_service s \<longleftrightarrow>
     sd_endpoint s \<noteq> [] \<and> startsWith (sd_request_hash s) (js ''sha256:'') \<and>
     startsWith (sd_response_hash s) (js ''sha256:'')"

definition wf_receipt :: "Receipt \<Rightarrow> bool" where
  "wf_receipt r \<longleftrightarrow>
     startsWith (rc_id r) (js ''rcpt_'') \<and> rc_version r \<noteq> [] \<and> rc_timestamp r \<noteq> [] \<and>
     wf_payment (rc_payment r) \<and> wf_service (rc_service r)"

definition wf_signed :: "SignedReceipt \<Rightarrow> bool" where
  "wf_signed s \<longleftrightarrow>
     wf_receipt (sr_receipt s) \<and> startsWith (sr_signature s) (js ''0x'') \<and>
     startsWith (sr_server_public_key s) (js ''0x'')"

text \<open>
  What a verified receipt means, over the record: the key the caller trusts, the key the
  receipt names and the key recovered from the signature over the receipt's text are the
  same key.
\<close>

definition recovered_key :: "'sig platform \<Rightarrow> SignedReceipt \<Rightarrow> (thrown, jstring) result" where
  "recovered_key P s =
     bindR (toUtf8Bytes P (stringify (json_of_receipt (sr_receipt s)))) (\<lambda>message.
     bindR (getBytes P (sr_signature s)) (\<lambda>bs.
     if length bs \<noteq> 65 then Inl (NativeError RangeError)
     else
       bindR (Signature_from P (hexlify P (take 32 bs)) (hexlify P (take 32 (drop 32 bs)))
                (recovery_v (bs ! 64)))
         (recoverPublicKey P (keccak256 P message))))"

definition authentic :: "'sig platform \<Rightarrow> SignedReceipt \<Rightarrow> jstring \<Rightarrow> bool" where
  "authentic P s trusted \<longleftrightarrow>
     (\<exists>k pk. normalizePublicKey P (Some trusted) = Some k \<and>
        normalizePublicKey P (Some (sr_server_public_key s)) = Some k \<and>
        recovered_key P s = Inr pk \<and> normalizePublicKey P (Some pk) = Some k)"

text \<open>A receipt for the witnesses.\<close>

definition sample_signed :: SignedReceipt where
  "sample_signed =
     \<lparr>sr_receipt =
        \<lparr>rc_id = js ''rcpt_1'', rc_version = js ''1.0'', rc_timestamp = js ''2026-01-01T00:00:00Z'',
         rc_payment =
           \<lparr>pd_payer = js ''0xa'', pd_recipient = js ''0xb'', pd_amount = js ''0.001'',
            pd_token = js ''USDC'', pd_chainId = num_of_int 8453, pd_nonce = js ''n-1''\<rparr>,
         rc_service =
           \<lparr>sd_endpoint = js ''/api/ai/summarize'', sd_request_hash = js ''sha256:1'',
            sd_response_hash = js ''sha256:2''\<rparr>\<rparr>,
      sr_signature = js ''0x00'', sr_server_public_key = sample_key\<rparr>"

section \<open>Accepted values are well-formed records\<close>

lemma isRecord_simps [simp]:
  "isRecord (Some (JObj kvs))" "isRecord (Some (JArr vs))" "\<not> isRecord None"
  "\<not> isRecord (Some JNull)" "\<not> isRecord (Some (JBool b))" "\<not> isRecord (Some (JNum x))"
  "\<not> isRecord (Some (JStr s))"
  by (simp_all add: isRecord_def)

lemma field_isRecord: "field v k = Some w \<Longrightarrow> isRecord v"
  by (auto simp: field_def get_prop_def isRecord_def split: option.splits json.splits)

lemma isNonEmptyString_iff: "isNonEmptyString v \<longleftrightarrow> (\<exists>s. str_of v = Some s \<and> s \<noteq> [])"
  by (auto simp: isNonEmptyString_def str_of_def split: option.splits json.splits)

lemma isPrefixedString_iff:
  "p \<noteq> [] \<Longrightarrow> isPrefixedString v p \<longleftrightarrow> (\<exists>s. str_of v = Some s \<and> startsWith s (js p))"
  by (auto simp: isPrefixedString_def isNonEmptyString_def str_of_def startsWith_def
      split: option.splits json.splits)

lemma isPositiveSafeInteger_iff:
  "isPositiveSafeInteger v \<longleftrightarrow> (\<exists>x. num_of v = Some x \<and> isSafeInteger x \<and> positive_num x)"
  by (auto simp: isPositiveSafeInteger_def num_of_def split: option.splits json.splits)

lemmas shape_iffs = isNonEmptyString_iff isPrefixedString_iff isPositiveSafeInteger_iff

lemma as_PaymentDetails_wf:
  "(\<exists>d. as_PaymentDetails p = Some d \<and> wf_payment d) \<longleftrightarrow>
     isNonEmptyString (field p ''payer'') \<and> isNonEmptyString (field p ''recipient'') \<and>
     isNonEmptyString (field p ''amount'') \<and> isNonEmptyString (field p ''token'') \<and>
     isPositiveSafeInteger (field p ''chainId'') \<and> isNonEmptyString (field p ''nonce'')"
  by (auto simp: as_PaymentDetails_def wf_payment_def shape_iffs Option.bind_eq_Some_conv)

lemma as_ServiceDetails_wf:
  "(\<exists>d. as_ServiceDetails s = Some d \<and> wf_service d) \<longleftrightarrow>
     isNonEmptyString (field s ''endpoint'') \<and>
     isPrefixedString (field s ''request_hash'') ''sha256:'' \<and>
     isPrefixedString (field s ''response_hash'') ''sha256:''"
  by (auto simp: as_ServiceDetails_def wf_service_def shape_iffs Option.bind_eq_Some_conv)

lemma as_Receipt_wf:
  "(\<exists>d. as_Receipt r = Some d \<and> wf_receipt d) \<longleftrightarrow>
     isPrefixedString (field r ''id'') ''rcpt_'' \<and> isNonEmptyString (field r ''version'') \<and>
     isNonEmptyString (field r ''timestamp'') \<and>
     (\<exists>d. as_PaymentDetails (field r ''payment'') = Some d \<and> wf_payment d) \<and>
     (\<exists>d. as_ServiceDetails (field r ''service'') = Some d \<and> wf_service d)"
  by (auto simp: as_Receipt_def wf_receipt_def shape_iffs Option.bind_eq_Some_conv)

lemma as_SignedReceipt_wf:
  "(\<exists>d. as_SignedReceipt v = Some d \<and> wf_signed d) \<longleftrightarrow>
     (\<exists>d. as_Receipt (field v ''receipt'') = Some d \<and> wf_receipt d) \<and>
     isPrefixedString (field v ''signature'') ''0x'' \<and>
     isPrefixedString (field v ''server_public_key'') ''0x''"
  by (auto simp: as_SignedReceipt_def wf_signed_def shape_iffs Option.bind_eq_Some_conv)

lemma shape_isRecord:
  "isNonEmptyString (field v k) \<Longrightarrow> isRecord v" "isPrefixedString (field v k) p \<Longrightarrow> isRecord v"
  by (auto simp: isPrefixedString_def isNonEmptyString_def split: option.splits intro: field_isRecord)

lemma validateReceiptFormat_iff:
  "validateReceiptFormat v \<longleftrightarrow> (\<exists>s. as_SignedReceipt v = Some s \<and> wf_signed s)"
  unfolding validateReceiptFormat_def as_SignedReceipt_wf as_Receipt_wf as_PaymentDetails_wf
    as_ServiceDetails_wf Let_def
  by (auto dest: shape_isRecord)

lemma as_json_of_signed [simp]: "as_SignedReceipt (Some (json_of_signed s)) = Some s"
  by (simp add: as_SignedReceipt_def json_of_signed_def json_of_receipt_def as_Receipt_def
      as_PaymentDetails_def as_ServiceDetails_def num_of_def)

lemma as_json_of_receipt [simp]: "as_Receipt (Some (json_of_receipt r)) = Some r"
  by (simp add: json_of_receipt_def as_Receipt_def as_PaymentDetails_def as_ServiceDetails_def
      num_of_def)

lemma named_key: "\<not> list_all (\<lambda>c. 48 \<le> (of_char c :: nat) \<and> of_char c \<le> (57 :: nat)) k \<Longrightarrow> index_of (js k) = None"
  by (rule index_of_js) (auto simp: list_all_iff js_def is_digit_def)

lemma json_ok_json_of_receipt: "wf_receipt r \<Longrightarrow> json_ok (json_of_receipt r)"
  by (simp add: json_of_receipt_def wf_receipt_def wf_payment_def canonical_named named_key)

lemma json_ok_json_of_signed: "wf_signed s \<Longrightarrow> json_ok (json_of_signed s)"
  by (simp add: json_of_signed_def wf_signed_def json_ok_json_of_receipt canonical_named named_key)

section \<open>The signed text\<close>

lemma num_of_Some_iff: "num_of v = Some x \<longleftrightarrow> v = Some (JNum x)"
  by (auto simp: num_of_def split: option.splits json.splits)

lemma serialize_record:
  "as_Receipt v = Some r \<Longrightarrow> serializeReceiptForGateway v = stringify (json_of_receipt r)"
  by (auto simp: as_Receipt_def as_PaymentDetails_def as_ServiceDetails_def Option.bind_eq_Some_conv
      str_of_Some_iff num_of_Some_iff serializeReceiptForGateway_def obj_lit_def map_filter_simps
      json_of_receipt_def Let_def)

lemma json_of_receipt_inject: "json_of_receipt r = json_of_receipt r' \<Longrightarrow> r = r'"
  by (metis as_json_of_receipt option.inject)

lemma signed_text_inject:
  assumes "as_Receipt v = Some r" "wf_receipt r" "as_Receipt v' = Some r'" "wf_receipt r'"
    and "serializeReceiptForGateway v = serializeReceiptForGateway v'"
  shows "r = r'"
  using assms json.enc_inj [of "json_of_receipt r" "json_of_receipt r'"]
  by (simp add: serialize_record json_ok_json_of_receipt json_of_receipt_inject)

section \<open>The receipt header\<close>

lemma validate_json_of_signed [simp]: "validateReceiptFormat (Some (json_of_signed s)) \<longleftrightarrow> wf_signed s"
  by (simp add: validateReceiptFormat_iff)

lemma decodeReceiptHeader_cases:
  obtains (ok) v t where "decodeReceiptHeader P h = Inr v" "decodeBase64ToUtf8 P h = Inr t"
      "JSON_parse t = Some v" "validateReceiptFormat (Some v)"
  | (failed) e where "decodeReceiptHeader P h =
      Inl (new_PaygateSdkError receipt_decode_failed
        ''Failed to decode X-402-Receipt as a gateway SignedReceipt'' (no_options\<lparr>opt_cause := Some e\<rparr>))"
proof (cases "decodeBase64ToUtf8 P h")
  case (Inl e)
  then show ?thesis using failed by (simp add: decodeReceiptHeader_def)
next
  case (Inr t)
  show ?thesis
  proof (cases "JSON_parse t")
    case None
    with Inr show ?thesis using failed by (simp add: decodeReceiptHeader_def parse_text_def)
  next
    case (Some v)
    with Inr ok show ?thesis
      by (cases "validateReceiptFormat (Some v)")
        (simp_all add: decodeReceiptHeader_def parse_text_def failed)
  qed
qed

lemma decode_gateway_header:
  assumes "wf_signed s" "has_atob P"
  shows "decodeReceiptHeader P (b64_encode (utf8_encode (stringify (json_of_signed s)))) =
    Inr (json_of_signed s)"
  using assms
  by (simp add: decodeReceiptHeader_def decode_b64_encode utf8_encode_eq_Nil stringify_not_Nil
      json_ok_json_of_signed utf8_decode_encode)

text \<open>C12:
  A well-formed receipt survives the \<^verbatim>\<open>X-402-Receipt\<close> header: the value the gateway
  prints as JSON, encodes as UTF-8 and then as base64 is decoded to exactly that value,
  whatever text its fields hold.
\<close>

theorem receipt_header_roundtrip:
  assumes "wf_signed s" "has_atob P"
  shows "decodeReceiptHeader P (b64_encode (utf8_encode (stringify (json_of_signed s)))) =
      Inr (json_of_signed s)
    \<and> as_SignedReceipt (Some (json_of_signed s)) = Some s"
  using decode_gateway_header [OF assms] by simp

lemma wf_sample_signed [simp]: "wf_signed sample_signed"
  by (simp add: sample_signed_def sample_key_def wf_signed_def wf_receipt_def wf_payment_def
      wf_service_def startsWith_js max_safe_integer_def)

theorem receipt_header_roundtrip_witness:
  "decodeReceiptHeader sample_platform (b64_encode (utf8_encode (stringify (json_of_signed sample_signed)))) =
     Inr (json_of_signed sample_signed)"
  using receipt_header_roundtrip [of sample_signed sample_platform] by (simp add: sample_platform_def)

text \<open>C32:
  Decoding a header never returns a malformed receipt and never lets another error
  through: it returns a value that reads as a well-formed \<open>SignedReceipt\<close>, the JSON
  text the header encodes, or it throws a \<open>receipt_decode_failed\<close> error that carries
  its cause.
\<close>

theorem decodeReceiptHeader_total:
  "(\<exists>v s t. decodeReceiptHeader P h = Inr v \<and> decodeBase64ToUtf8 P h = Inr t \<and>
       JSON_parse t = Some v \<and> as_SignedReceipt (Some v) = Some s \<and> wf_signed s)
   \<or> (\<exists>e. decodeReceiptHeader P h = Inl e \<and> has_code receipt_decode_failed e \<and> cause e \<noteq> None)"
  by (cases rule: decodeReceiptHeader_cases [of P h]) (auto simp: validateReceiptFormat_iff)

section \<open>Verification is the declarative property\<close>

lemma authentic_recovers:
  "authentic P s key \<longleftrightarrow>
     normalizePublicKey P (Some key) \<noteq> None \<and>
     normalizePublicKey P (Some (sr_server_public_key s)) = normalizePublicKey P (Some key) \<and>
     (\<exists>pk. recovered_key P s = Inr pk \<and>
        normalizePublicKey P (Some pk) = normalizePublicKey P (Some key))"
  by (auto simp: authentic_def)

lemma as_SignedReceipt_fields:
  assumes "as_SignedReceipt v = Some s"
  shows "as_Receipt (field v ''receipt'') = Some (sr_receipt s)"
    "str_of (field v ''signature'') = Some (sr_signature s)"
    "str_of (field v ''server_public_key'') = Some (sr_server_public_key s)"
  using assms by (auto simp: as_SignedReceipt_def Option.bind_eq_Some_conv)

lemma as_Receipt_service:
  "as_Receipt v = Some r \<Longrightarrow> as_ServiceDetails (field v ''service'') = Some (rc_service r)"
  by (auto simp: as_Receipt_def Option.bind_eq_Some_conv)

lemma as_ServiceDetails_fields:
  assumes "as_ServiceDetails v = Some d"
  shows "str_of (field v ''endpoint'') = Some (sd_endpoint d)"
    "str_of (field v ''request_hash'') = Some (sd_request_hash d)"
    "str_of (field v ''response_hash'') = Some (sd_response_hash d)"
  using assms by (auto simp: as_ServiceDetails_def Option.bind_eq_Some_conv)

lemma verifyReceipt_record:
  assumes "as_SignedReceipt (Some v) = Some s" "wf_signed s"
  shows "verifyReceipt P v (Some key) \<longleftrightarrow> authentic P s key"
proof -
  have valid: "validateReceiptFormat (Some v)" using assms validateReceiptFormat_iff by blast
  show ?thesis
    using valid as_SignedReceipt_fields [OF assms(1)]
    by (auto simp: verifyReceipt_def authentic_recovers recovered_key_def
        serialize_record Let_def bindR_def split: sum.splits if_splits)
qed

lemma verifyReceipt_no_key: "\<not> verifyReceipt P v None"
  by (simp add: verifyReceipt_def normalizePublicKey_def)

lemma verifyReceipt_iff:
  "verifyReceipt P v trusted \<longleftrightarrow>
     (\<exists>s key. as_SignedReceipt (Some v) = Some s \<and> wf_signed s \<and> trusted = Some key \<and>
        authentic P s key)"
proof (cases "validateReceiptFormat (Some v)")
  case True
  then obtain s where s: "as_SignedReceipt (Some v) = Some s" "wf_signed s"
    using validateReceiptFormat_iff by blast
  then show ?thesis
    using verifyReceipt_record [OF s] verifyReceipt_no_key by (cases trusted) auto
next
  case False
  then show ?thesis by (auto simp: verifyReceipt_def validateReceiptFormat_iff)
qed

text \<open>C3:
  \<open>verifyReceipt\<close> never throws and answers true exactly when a trusted key was given, the
  value is a well-formed receipt and that key, the key the receipt names and the key
  recovered from its signature over the receipt's own text are one key.
\<close>

theorem verifyReceipt_iff_authentic:
  "verifyReceipt P v trusted \<longleftrightarrow>
     (\<exists>s key. as_SignedReceipt (Some v) = Some s \<and> wf_signed s \<and> trusted = Some key \<and>
        authentic P s key)"
  by (rule verifyReceipt_iff)

text \<open>C23:
  The signed text covers the whole receipt: two accepted receipts with the same text agree
  in every declared field, so no field can be changed under an unchanged signature.
\<close>

theorem signed_text_determines_receipt:
  assumes "validateReceiptFormat (Some v)" "validateReceiptFormat (Some v')"
    and "serializeReceiptForGateway (field (Some v) ''receipt'') =
      serializeReceiptForGateway (field (Some v') ''receipt'')"
  shows "as_Receipt (field (Some v) ''receipt'') = as_Receipt (field (Some v') ''receipt'')"
proof -
  obtain s s' where s: "as_SignedReceipt (Some v) = Some s" "wf_signed s"
    "as_SignedReceipt (Some v') = Some s'" "wf_signed s'"
    using assms(1, 2) validateReceiptFormat_iff by metis
  have "sr_receipt s = sr_receipt s'"
    using s(2, 4) as_SignedReceipt_fields(1) [OF s(1)] as_SignedReceipt_fields(1) [OF s(3)] assms(3)
      signed_text_inject by (metis wf_signed_def)
  then show ?thesis using s as_SignedReceipt_fields(1) by metis
qed

theorem signed_text_determines_receipt_witness:
  "as_Receipt (field (Some (json_of_signed sample_signed)) ''receipt'') =
   as_Receipt (field (Some (json_of_signed (sample_signed\<lparr>sr_signature := js ''0x11''\<rparr>))) ''receipt'')"
proof (rule signed_text_determines_receipt)
  show "validateReceiptFormat (Some (json_of_signed (sample_signed\<lparr>sr_signature := js ''0x11''\<rparr>)))"
    using wf_sample_signed by (simp add: wf_signed_def startsWith_js)
qed (simp_all add: json_of_signed_def del: validate_json_of_signed, simp flip: json_of_signed_def)

section \<open>Looking a receipt up\<close>

definition lookup_url :: "jstring option \<Rightarrow> jstring \<Rightarrow> jstring" where
  "lookup_url gatewayUrl encoded =
     strip_slashes (case gatewayUrl of None \<Rightarrow> js ''http://localhost:3000'' | Some u \<Rightarrow> u) @
     js ''/api/receipts/'' @ encoded"

text \<open>
  A receipt lookup asks the transport for one address only, the gateway's receipt endpoint
  followed by the percent-encoded id as a single path segment (no slash, no query, no
  fragment), and its result depends on nothing else the transport may answer; an id that
  is not well-formed text is refused without any request.
\<close>

lemma fetchReceipt_single_address:
  assumes "\<And>seg. encodeURIComponent rid = Some seg \<Longrightarrow>
      set seg \<inter> {cu CHR ''/'', cu CHR ''?'', cu CHR ''#''} = {} \<Longrightarrow>
      f (lookup_url gatewayUrl seg) None w = g (lookup_url gatewayUrl seg) None w"
  shows "fetchReceipt rid gatewayUrl f w = fetchReceipt rid gatewayUrl g w
    \<and> (encodeURIComponent rid = None \<longrightarrow> snd (fetchReceipt rid gatewayUrl f w) = w)"
proof (cases "encodeURIComponent rid")
  case None
  then show ?thesis by (simp add: fetchReceipt_def catchIO_def throwIO_def)
next
  case (Some seg)
  have "set seg \<inter> {cu CHR ''/'', cu CHR ''?'', cu CHR ''#''} = {}"
    using encodeURIComponent_alphabet [OF Some] uri_alphabet_delims by auto
  then show ?thesis
    using assms [OF Some] Some
    by (simp add: fetchReceipt_def catchIO_def bindIO_def lookup_url_def Let_def)
qed


end
