(* ===== verification/MicroaiProtocol.thy ===== *)
theory MicroaiProtocol
  imports Receipts
begin

text \<open>
  The protocol adapter: \<^verbatim>\<open>sdk/typescript/src/protocol/microai.ts\<close> and the adapter type of
  \<^verbatim>\<open>sdk/typescript/src/protocol/types.ts\<close>.

  \<open>PaygateProtocolAdapter\<close> is the record of the four methods the client calls. Locale
  \<open>protocol_adapter\<close> states what the client may rely on (a context it reads is valid, a
  receipt it reads is well formed, each method fails with its own error code); the
  interpretation \<open>microai\<close> proves these laws for \<open>MicroAIPaygateProtocol\<close>.
\<close>

section \<open>Operations\<close>

definition MICROAI_RECEIPT_HEADER :: jstring where
  "MICROAI_RECEIPT_HEADER = js ''X-402-Receipt''"

definition isString :: "json option \<Rightarrow> bool" where
  "isString v = (case v of Some (JStr _) \<Rightarrow> True | _ \<Rightarrow> False)"

definition isPaymentContext :: "json option \<Rightarrow> bool" where
  "isPaymentContext v =
     (if \<not> isRecord v then False
      else
        isString (field v ''recipient'') \<and>
        isString (field v ''token'') \<and>
        isString (field v ''amount'') \<and>
        isString (field v ''nonce'') \<and>
        isPositiveSafeInteger (field v ''chainId'') \<and>
        isPositiveSafeInteger (field v ''timestamp''))"

text \<open>A value of the checked shape, read as the declared type.\<close>

definition as_PaymentContext :: "json option \<Rightarrow> PaymentContext option" where
  "as_PaymentContext v =
     Option.bind (str_of (field v ''recipient'')) (\<lambda>recipient.
     Option.bind (str_of (field v ''token'')) (\<lambda>token.
     Option.bind (str_of (field v ''amount'')) (\<lambda>amount.
     Option.bind (str_of (field v ''nonce'')) (\<lambda>nonce.
     Option.bind (num_of (field v ''chainId'')) (\<lambda>chainId.
     Option.bind (num_of (field v ''timestamp'')) (\<lambda>timestamp.
     Some \<lparr>ctx_recipient = recipient, ctx_token = token, ctx_amount = amount, ctx_nonce = nonce,
           ctx_chainId = chainId, ctx_timestamp = timestamp\<rparr>))))))"

definition microai_readPaymentContext :: "response \<Rightarrow> ('w, thrown, PaymentContext) io" where
  "microai_readPaymentContext response =
     bindIO (liftIO (r_text response)) (\<lambda>bodyText.
     bindIO
       (catchIO (liftIO (parse_text bodyText)) (\<lambda>error.
          throwIO (new_PaygateSdkError payment_challenge_missing
            ''402 response did not contain JSON paymentContext''
            \<lparr>opt_status = Some (r_status response), opt_bodyText = Some bodyText,
             opt_cause = Some error\<rparr>)))
       (\<lambda>parsed.
        let paymentContext =
              (if isRecord (Some parsed) then field (Some parsed) ''paymentContext'' else None)
        in
        if \<not> isPaymentContext paymentContext
        then throwIO (new_PaygateSdkError payment_challenge_missing
          ''402 response is missing a valid paymentContext''
          \<lparr>opt_status = Some (r_status response), opt_bodyText = Some bodyText,
           opt_cause = None\<rparr>)
        else returnIO (the (as_PaymentContext paymentContext))))"

text \<open>A missing header and an empty one both mean that there is no receipt.\<close>

definition microai_readReceipt ::
    "'sig platform \<Rightarrow> response \<Rightarrow> (thrown, json option) result" where
  "microai_readReceipt P response =
     (case header_get response MICROAI_RECEIPT_HEADER of
        None \<Rightarrow> Inr None
      | Some header \<Rightarrow>
          if header = [] then Inr None
          else bindR (decodeReceiptHeader P header) (\<lambda>r. Inr (Some r)))"

record 'w PaygateProtocolAdapter =
  pr_readPaymentContext :: "response \<Rightarrow> ('w, thrown, PaymentContext) io"
  pr_signPaymentContext :: "'w PaymentSigner \<Rightarrow> PaymentContext \<Rightarrow> ('w, thrown, jstring) io"
  pr_buildSignedHeaders :: "PaymentContext \<Rightarrow> jstring \<Rightarrow> (jstring \<times> jstring) list"
  pr_readReceipt :: "response \<Rightarrow> (thrown, json option) result"

definition MicroAIPaygateProtocol :: "'sig platform \<Rightarrow> 'w PaygateProtocolAdapter" where
  "MicroAIPaygateProtocol P =
     \<lparr>pr_readPaymentContext = microai_readPaymentContext,
      pr_signPaymentContext = signPaymentContext,
      pr_buildSignedHeaders = buildSignedHeaders,
      pr_readReceipt = microai_readReceipt P\<rparr>"

section \<open>Payment contexts\<close>

definition valid_context :: "PaymentContext \<Rightarrow> bool" where
  "valid_context ctx \<longleftrightarrow>
     isSafeInteger (ctx_chainId ctx) \<and> positive_num (ctx_chainId ctx) \<and>
     isSafeInteger (ctx_timestamp ctx) \<and> positive_num (ctx_timestamp ctx)"

definition json_of_context :: "PaymentContext \<Rightarrow> json" where
  "json_of_context ctx =
     JObj
       [(js ''recipient'', JStr (ctx_recipient ctx)), (js ''token'', JStr (ctx_token ctx)),
        (js ''amount'', JStr (ctx_amount ctx)), (js ''nonce'', JStr (ctx_nonce ctx)),
        (js ''chainId'', JNum (ctx_chainId ctx)), (js ''timestamp'', JNum (ctx_timestamp ctx))]"

text \<open>The body of the gateway's 402 answer: a message and the context.\<close>

definition challenge_body :: "jstring \<Rightarrow> PaymentContext \<Rightarrow> json" where
  "challenge_body msg ctx =
     JObj [(js ''error'', JStr (js ''Payment Required'')), (js ''message'', JStr msg),
           (js ''paymentContext'', json_of_context ctx)]"

lemma isString_iff: "isString v \<longleftrightarrow> (\<exists>s. str_of v = Some s)"
  by (auto simp: isString_def str_of_def split: option.splits json.splits)

lemma isPaymentContext_iff:
  "isPaymentContext v \<longleftrightarrow> (\<exists>ctx. as_PaymentContext v = Some ctx \<and> valid_context ctx)"
proof -
  have "isRecord v" if "str_of (field v k) = Some s" for k s
    using that by (auto simp: str_of_Some_iff intro: field_isRecord)
  then show ?thesis
    by (auto simp: isPaymentContext_def isString_iff isPositiveSafeInteger_iff as_PaymentContext_def
        valid_context_def Option.bind_eq_Some_conv)
qed

lemma as_json_of_context [simp]: "as_PaymentContext (Some (json_of_context ctx)) = Some ctx"
  by (simp add: as_PaymentContext_def json_of_context_def num_of_def)

lemma json_ok_challenge: "valid_context ctx \<Longrightarrow> json_ok (challenge_body msg ctx)"
  by (simp add: challenge_body_def json_of_context_def valid_context_def canonical_named named_key)

lemma readPaymentContext_cases:
  obtains (unread) e where "r_text r = Inl e" "microai_readPaymentContext r w = (Inl e, w)"
  | (invalid) e where "microai_readPaymentContext r w = (Inl e, w)" "has_code payment_challenge_missing e"
      "status e = Some (r_status r)"
  | (valid) t v ctx where "r_text r = Inr t" "JSON_parse t = Some v"
      "as_PaymentContext (field (Some v) ''paymentContext'') = Some ctx" "valid_context ctx"
      "microai_readPaymentContext r w = (Inr ctx, w)"
proof (cases "r_text r")
  case (Inl e)
  then show ?thesis
    using unread by (simp add: microai_readPaymentContext_def bindIO_def liftIO_def)
next
  case (Inr t)
  show ?thesis
  proof (cases "JSON_parse t")
    case None
    with Inr invalid show ?thesis
      by (simp add: microai_readPaymentContext_def bindIO_def catchIO_def liftIO_def throwIO_def
          parse_text_def)
  next
    case (Some v)
    have rec: "(if isRecord (Some v) then field (Some v) ''paymentContext'' else None) =
      field (Some v) ''paymentContext''"
      using field_isRecord by (cases "field (Some v) ''paymentContext''") auto
    show ?thesis
      using Some Inr invalid valid
      by (cases "isPaymentContext (field (Some v) ''paymentContext'')")
        (auto simp: microai_readPaymentContext_def bindIO_def catchIO_def liftIO_def throwIO_def
          returnIO_def parse_text_def rec isPaymentContext_iff Let_def)
  qed
qed

lemma readReceipt_cases:
  obtains (absent) "microai_readReceipt P r = Inr None"
      "header_get r MICROAI_RECEIPT_HEADER \<in> {None, Some []}"
  | (present) h v where "header_get r MICROAI_RECEIPT_HEADER = Some h"
      "decodeReceiptHeader P h = Inr v" "microai_readReceipt P r = Inr (Some v)"
      "validateReceiptFormat (Some v)"
  | (bad) h e where "header_get r MICROAI_RECEIPT_HEADER = Some h" "microai_readReceipt P r = Inl e"
      "has_code receipt_decode_failed e"
proof (cases "header_get r MICROAI_RECEIPT_HEADER")
  case None
  with absent show ?thesis by (simp add: microai_readReceipt_def)
next
  case (Some h)
  then show ?thesis
    using absent present bad
    by (cases "h = []"; cases rule: decodeReceiptHeader_cases [of P h])
      (simp_all add: microai_readReceipt_def)
qed

section \<open>What the client relies on\<close>

locale protocol_adapter =
  fixes adapter :: "'w PaygateProtocolAdapter"
  assumes context_valid:
      "pr_readPaymentContext adapter r w = (Inr ctx, w') \<Longrightarrow> valid_context ctx"
    and context_error:
      "pr_readPaymentContext adapter r w = (Inl e, w') \<Longrightarrow>
         r_text r = Inl e \<or> has_code payment_challenge_missing e"
    and context_world: "snd (pr_readPaymentContext adapter r w) = w"
    and receipt_valid: "pr_readReceipt adapter r = Inr (Some v) \<Longrightarrow> validateReceiptFormat (Some v)"
    and receipt_error: "pr_readReceipt adapter r = Inl e \<Longrightarrow> has_code receipt_decode_failed e"

interpretation microai: protocol_adapter "MicroAIPaygateProtocol P" for P
proof (unfold_locales, goal_cases)
  case (1 r w ctx w')
  then show ?case
    by (cases rule: readPaymentContext_cases [of r w]) (auto simp: MicroAIPaygateProtocol_def)
next
  case (2 r w e w')
  then show ?case
    by (cases rule: readPaymentContext_cases [of r w]) (auto simp: MicroAIPaygateProtocol_def)
next
  case (3 r w)
  then show ?case
    by (cases rule: readPaymentContext_cases [of r w]) (auto simp: MicroAIPaygateProtocol_def)
next
  case (4 r v)
  then show ?case
    by (cases rule: readReceipt_cases [of P r]) (auto simp: MicroAIPaygateProtocol_def)
next
  case (5 r e)
  then show ?case
    by (cases rule: readReceipt_cases [of P r]) (auto simp: MicroAIPaygateProtocol_def)
qed

section \<open>Properties\<close>

lemma read_challenge:
  assumes "valid_context ctx" "r_text r = Inr (stringify (challenge_body msg ctx))"
  shows "microai_readPaymentContext r w = (Inr ctx, w)"
proof -
  have field: "field (Some (challenge_body msg ctx)) ''paymentContext'' = Some (json_of_context ctx)"
    by (simp add: challenge_body_def)
  have "JSON_parse (stringify (challenge_body msg ctx)) = Some (challenge_body msg ctx)"
    using assms json_ok_challenge JSON_parse_stringify by blast
  moreover have "isPaymentContext (Some (json_of_context ctx))"
    using assms by (simp add: isPaymentContext_iff)
  moreover have "isRecord (Some (challenge_body msg ctx))" by (simp add: challenge_body_def)
  ultimately show ?thesis
    using assms field
    by (simp add: microai_readPaymentContext_def bindIO_def catchIO_def
        liftIO_def returnIO_def parse_text_def Let_def)
qed

text \<open>C35:
  The gateway's challenge reaches the signer unchanged: reading a 402 answer whose body is
  the JSON text of a valid context gives back that context, with no change to the world.
\<close>

theorem challenge_roundtrip:
  assumes "valid_context ctx" "r_text r = Inr (stringify (challenge_body msg ctx))"
  shows "pr_readPaymentContext (MicroAIPaygateProtocol P) r w = (Inr ctx, w)"
  using read_challenge [OF assms] by (simp add: MicroAIPaygateProtocol_def)

definition sample_context :: PaymentContext where
  "sample_context =
     \<lparr>ctx_recipient = js ''0x2cAF48b4BA1C58721a85dFADa5aC01C2DFa62219'', ctx_token = js ''USDC'',
      ctx_amount = js ''0.001'', ctx_nonce = js ''9c311e31'', ctx_chainId = num_of_int 84532,
      ctx_timestamp = num_of_int 1767225600\<rparr>"

lemma valid_sample_context [simp]: "valid_context sample_context"
  by (simp add: sample_context_def valid_context_def max_safe_integer_def)

definition sample_challenge :: response where
  "sample_challenge = \<lparr>r_status = 402, r_headers = [],
     r_text = Inr (stringify (challenge_body (js ''pay'') sample_context))\<rparr>"

theorem challenge_roundtrip_witness:
  "pr_readPaymentContext (MicroAIPaygateProtocol sample_platform)
     \<lparr>r_status = 402, r_headers = [], r_text = Inr (stringify (challenge_body (js ''pay'') sample_context))\<rparr>
     () = (Inr sample_context, ())"
  by (rule challenge_roundtrip [of _ _ "js ''pay''"]) simp_all

end
