(* ===== verification/HeaderBytes.thy ===== *)
theory HeaderBytes
  imports Platform
begin

text \<open>
  Text read as Latin-1. The gateway puts a receipt into a header as base64 of UTF-8 text;
  \<^verbatim>\<open>web/src/lib/x402-client.ts\<close> undoes the base64 and parses the bytes as if each were a
  character. \<open>raw_text s\<close> is what it sees of the text \<open>s\<close>: for ASCII the same text, otherwise a
  longer one.

  Printing and this misreading commute: the misread text of a value is the text of the value
  with its strings misread.
\<close>

section \<open>Strings\<close>

definition raw_text :: "jstring \<Rightarrow> jstring" where
  "raw_text s = binary_string (utf8_encode s)"

lemma raw_text_Nil [simp]: "raw_text [] = []"
  by (simp add: raw_text_def utf8_encode_def binary_string_def)

lemma code_points_append: "well_formed s \<Longrightarrow> code_points (s @ t) = code_points s @ code_points t"
proof (induction s rule: code_points.induct)
  case (2 u)
  then show ?case by (cases t) auto
qed (auto split: if_splits)

lemma raw_text_append: "well_formed s \<Longrightarrow> raw_text (s @ t) = raw_text s @ raw_text t"
  by (simp add: raw_text_def utf8_encode_def binary_string_def code_points_append)

lemma raw_text_ascii: "is_ascii s \<Longrightarrow> raw_text s = s"
proof -
  assume a: "is_ascii s"
  have "binary_string (concat (map utf8_bytes (map unat s))) = s" using a
  proof (induction s)
    case (Cons u s)
    then have "unat u < 128" by (simp add: word_less_nat_alt)
    with Cons show ?case by (simp add: utf8_bytes_def binary_string_def)
  qed (simp add: binary_string_def)
  then show ?thesis by (simp add: raw_text_def utf8_encode_def is_ascii_code_points a)
qed

text \<open>The bytes of a point outside ASCII are all at least 128, and more than its code units.\<close>

lemma utf8_bytes_high:
  assumes "128 \<le> c" "c < 1114112"
  shows "list_all (\<lambda>b. 128 \<le> unat b) (utf8_bytes c)" "length (utf16_units c) < length (utf8_bytes c)"
proof -
  have "c div 262144 < 16" "c div 4096 < 272" "c < 65536 \<Longrightarrow> c div 4096 < 16" "c < 2048 \<Longrightarrow> c div 64 < 32"
    using assms(2) by (simp_all add: less_mult_imp_div_less)
  then show "list_all (\<lambda>b. 128 \<le> unat b) (utf8_bytes c)" "length (utf16_units c) < length (utf8_bytes c)"
    using assms by (auto simp: utf8_bytes_def utf16_units_def)
qed

lemma raw_point_plain:
  assumes "u \<in> set (binary_string bs)" "list_all (\<lambda>b. 128 \<le> unat b) bs"
  shows "128 \<le> unat u \<and> unat u < 256"
  using assms unat_byte_less by (auto simp: binary_string_def list_all_iff less_trans [OF unat_byte_less])

lemma raw_unit:
  assumes "plain u" "128 \<le> unat u"
  shows "raw_text [u] = binary_string (utf8_bytes (unat u))" "list_all (\<lambda>b. 128 \<le> unat b) (utf8_bytes (unat u))"
proof -
  have "unat u < 1114112" using unat_cunit_less [of u] by linarith
  then show "list_all (\<lambda>b. 128 \<le> unat b) (utf8_bytes (unat u))" using utf8_bytes_high(1) assms(2) by blast
  show "raw_text [u] = binary_string (utf8_bytes (unat u))"
    using assms(1) by (simp add: raw_text_def utf8_encode_def plain_def)
qed

lemma raw_pair:
  assumes "is_high u" "is_low v"
  shows "raw_text [u, v] = binary_string (utf8_bytes (pair_point u v))"
    "list_all (\<lambda>b. 128 \<le> unat b) (utf8_bytes (pair_point u v))"
  using assms utf8_bytes_high(1) [of "pair_point u v"] pair_point_bounds [OF assms]
  by (simp_all add: raw_text_def utf8_encode_def)

section \<open>Printing\<close>

lemma quote_chars_plain: "plain u \<Longrightarrow> quote_chars (u # s) = quote_unit u @ quote_chars s"
  by (cases s) (simp_all add: plain_def)

lemma quote_chars_high:
  "\<forall>u \<in> set s. 128 \<le> unat u \<and> unat u < 256 \<Longrightarrow> quote_chars (s @ t) = s @ quote_chars t"
proof (induction s)
  case (Cons u s)
  then have "plain u" "quote_unit u = [u]"
    by (auto simp: plain_def is_high_def is_low_def quote_unit_def cu_code word_unat_eq_iff)
  with Cons show ?case by (simp add: quote_chars_plain)
qed simp

lemma raw_quote_unit:
  assumes "plain u"
  shows "raw_text (quote_unit u @ t) = quote_chars (raw_text [u]) @ raw_text t"
    "quote_chars (raw_text (u # s)) = quote_chars (raw_text [u]) @ quote_chars (raw_text s)"
proof -
  have "raw_text (u # s) = raw_text [u] @ raw_text s"
    using raw_text_append [of "[u]" s] assms by (simp add: plain_def)
  moreover have "raw_text (quote_unit u @ t) = raw_text (quote_unit u) @ raw_text t"
    by (rule raw_text_append) (rule well_formed_quote_unit [OF assms])
  moreover have "raw_text (quote_unit u) = quote_chars (raw_text [u]) \<and>
      quote_chars (raw_text [u] @ raw_text s) = quote_chars (raw_text [u]) @ quote_chars (raw_text s)"
  proof (cases "unat u < 128")
    case True
    then have "u < 128" by (simp add: word_less_nat_alt)
    then show ?thesis
      using assms quote_chars_plain [OF assms] is_ascii_quote_unit raw_text_ascii [of "[u]"] raw_text_ascii
      by (simp add: plain_def)
  next
    case False
    then have "quote_unit u = [u]" by (auto simp: quote_unit_def cu_code word_unat_eq_iff)
    moreover have "quote_chars (raw_text [u] @ t') = raw_text [u] @ quote_chars t'" for t'
      using False raw_unit [OF assms] raw_point_plain by (intro quote_chars_high) fastforce
    from this [of "[]"] this [of "raw_text s"] show ?thesis using \<open>quote_unit u = [u]\<close> by simp
  qed
  ultimately show "raw_text (quote_unit u @ t) = quote_chars (raw_text [u]) @ raw_text t"
    "quote_chars (raw_text (u # s)) = quote_chars (raw_text [u]) @ quote_chars (raw_text s)"
    by simp_all
qed

lemma raw_quote_chars: "well_formed s \<Longrightarrow> raw_text (quote_chars s) = quote_chars (raw_text s)"
proof (induction s rule: well_formed.induct)
  case 1
  show ?case by simp
next
  case (2 u)
  then show ?case using raw_quote_unit(1) [of u "[]"] by (simp add: plain_def)
next
  case (3 u v s)
  show ?case
  proof (cases "is_high u \<and> is_low v")
    case True
    have "raw_text (u # v # t) = raw_text [u, v] @ raw_text t" for t
      using raw_text_append [of "[u, v]" t] True by simp
    then show ?thesis
      using 3 True quote_chars_high [of "raw_text [u, v]" "raw_text s"] raw_pair raw_point_plain by simp
  next
    case False
    with 3 show ?thesis using raw_quote_unit(1) [of u "quote_chars (v # s)"] raw_quote_unit(2) [of u "v # s"]
      by (simp add: plain_def)
  qed
qed

lemma raw_js [simp]: "is_ascii (js w) \<Longrightarrow> raw_text (js w) = js w"
  by (rule raw_text_ascii)

lemma raw_quote: "well_formed s \<Longrightarrow> raw_text (quote s) = quote (raw_text s)"
proof -
  have q: "raw_text ([cu (CHR 0x22)] @ t) = [cu (CHR 0x22)] @ raw_text t" "raw_text [cu (CHR 0x22)] = [cu (CHR 0x22)]" for t
    using raw_text_append [of "[cu (CHR 0x22)]" t] raw_text_ascii [of "[cu (CHR 0x22)]"] plain_cu [of "CHR 0x22"]
    by (simp_all add: cu_def plain_def)
  assume "well_formed s"
  then show ?thesis
    using q(1) [of "quote_chars s @ [cu (CHR 0x22)]"] q(2) raw_text_append [OF well_formed_quote_chars [of s], of "[cu (CHR 0x22)]"]
      raw_quote_chars
    by (simp add: quote_def)
qed

lemma raw_join_commas:
  "list_all well_formed ss \<Longrightarrow> raw_text (join_commas ss) = join_commas (map raw_text ss)"
proof (induction ss rule: join_commas.induct)
  case (3 s t ss)
  have "is_ascii (js '','')" by (simp add: js_def cu_def)
  with 3 show ?case by (simp add: raw_text_append [of s] raw_text_append [of "js '',''"])
qed simp_all

fun text_ok :: "json \<Rightarrow> bool" where
  "text_ok (JStr s) = well_formed s"
| "text_ok (JArr vs) = list_all text_ok vs"
| "text_ok (JObj kvs) = list_all (\<lambda>kv. is_ascii (fst kv) \<and> text_ok (snd kv)) kvs"
| "text_ok v = True"

fun raw_json :: "json \<Rightarrow> json" where
  "raw_json (JStr s) = JStr (raw_text s)"
| "raw_json (JArr vs) = JArr (map raw_json vs)"
| "raw_json (JObj kvs) = JObj (map (\<lambda>kv. (fst kv, raw_json (snd kv))) kvs)"
| "raw_json v = v"

lemma json_ok_raw: "json_ok v \<Longrightarrow> json_ok (raw_json v)"
proof (induction v)
  case (JObj kvs)
  have "map fst (map (\<lambda>kv. (fst kv, raw_json (snd kv))) kvs) = map fst kvs" by simp
  then have "canonical (map (\<lambda>kv. (fst kv, raw_json (snd kv))) kvs)" using JObj.prems
    by (simp add: canonical_def comp_def)
  with JObj show ?case by (fastforce simp: list_all_iff)
qed (auto simp: list_all_iff)

text \<open>The misread text of a printed value is the printed misread value.\<close>

lemma raw_stringify: "json_ok v \<Longrightarrow> text_ok v \<Longrightarrow> raw_text (stringify v) = stringify (raw_json v)"
proof (induction v)
  case (JNum x)
  then have "is_ascii (stringify (JNum x))" by (intro is_ascii_stringify) simp_all
  then show ?case by (simp only: raw_text_ascii raw_json.simps)
next
  case (JStr s)
  then show ?case by (simp add: raw_quote)
next
  case (JArr vs)
  have ascii: "is_ascii (js ''['')" "is_ascii (js '']'')" by (simp_all add: js_def cu_def)
  have "list_all well_formed (map stringify vs)" using JArr.prems by (auto simp: list_all_iff well_formed_stringify)
  moreover have "map raw_text (map stringify vs) = map stringify (map raw_json vs)"
    using JArr by (auto simp: list_all_iff)
  ultimately show ?case
    using ascii by (simp add: raw_text_append raw_join_commas well_formed_join_commas del: map_map)
next
  case (JObj kvs)
  let ?member = "\<lambda>kv. quote (fst kv) @ js '':'' @ stringify (snd kv)"
  have ascii: "is_ascii (js ''{'')" "is_ascii (js ''}'')" "is_ascii (js '':'')" by (simp_all add: js_def cu_def)
  have "well_formed (?member kv)" if "kv \<in> set kvs" for kv
    using that JObj.prems
    by (intro well_formed_append well_formed_quote) (auto simp: list_all_iff well_formed_stringify)
  then have "list_all well_formed (map ?member kvs)" by (simp add: list_all_iff)
  moreover have "raw_text (?member kv) = ?member (fst kv, raw_json (snd kv))" if "kv \<in> set kvs" for kv
  proof -
    have "is_ascii (fst kv)" "json_ok (snd kv)" "text_ok (snd kv)" using that JObj.prems by (auto simp: list_all_iff)
    moreover from this have "raw_text (stringify (snd kv)) = stringify (raw_json (snd kv))"
      using that JObj.IH by (metis prod.collapse snds.intros)
    ultimately show ?thesis
      using ascii(3) by (simp add: raw_text_append [of "quote _"] raw_text_append [of "js '':''"] well_formed_quote
          raw_quote raw_text_ascii is_ascii_well_formed)
  qed
  then have "map raw_text (map ?member kvs) = map ?member (map (\<lambda>kv. (fst kv, raw_json (snd kv))) kvs)" by simp
  ultimately show ?case
    using ascii by (simp add: raw_text_append raw_join_commas well_formed_join_commas del: map_map)
qed (simp_all add: js_def cu_def raw_text_ascii)

section \<open>When nothing is lost\<close>

lemma raw_text_longer: "well_formed s \<Longrightarrow> length s \<le> length (raw_text s) \<and> (length (raw_text s) = length s \<longrightarrow> is_ascii s)"
proof (induction s rule: well_formed.induct)
  case (2 u)
  then show ?case
  proof (cases "unat u < 128")
    case False
    then show ?thesis
      using 2 raw_unit [of u] utf8_bytes_high(2) [of "unat u"] unat_cunit_less [of u] utf16_units_single [of u]
      by (simp add: plain_def binary_string_def)
  qed (simp add: raw_text_ascii word_less_nat_alt)
next
  case (3 u v s)
  show ?case
  proof (cases "is_high u \<and> is_low v")
    case True
    have "2 < length (raw_text [u, v])"
      using True raw_pair [of u v] utf8_bytes_high(2) [of "pair_point u v"] pair_point_bounds [of u v] utf16_units_pair [of u v]
      by (simp add: binary_string_def)
    moreover have "length s \<le> length (raw_text s)" using 3(1, 3) True by simp
    ultimately show ?thesis using raw_text_append [of "[u, v]" s] True by simp
  next
    case False
    then have u: "plain u" using 3(3) by (auto simp: plain_def split: if_splits)
    then have split: "raw_text (u # v # s) = raw_text [u] @ raw_text (v # s)"
      using raw_text_append [of "[u]" "v # s"] by (simp add: plain_def)
    have ih: "length (v # s) \<le> length (raw_text (v # s)) \<and> (length (raw_text (v # s)) = length (v # s) \<longrightarrow> is_ascii (v # s))"
      using 3(2, 3) False by simp
    show ?thesis
    proof (cases "unat u < 128")
      case True
      then have "raw_text [u] = [u]" "u < 128" by (simp_all add: raw_text_ascii word_less_nat_alt)
      with ih show ?thesis by (simp add: split)
    next
      case False
      then have "1 < length (raw_text [u])"
        using u raw_unit [of u] utf8_bytes_high(2) [of "unat u"] unat_cunit_less [of u] utf16_units_single [of u]
        by (simp add: binary_string_def)
      with ih split show ?thesis by simp
    qed
  qed
qed simp

lemma raw_text_id_iff: "well_formed s \<Longrightarrow> raw_text s = s \<longleftrightarrow> is_ascii s"
  using raw_text_longer raw_text_ascii by fastforce

lemma raw_text_Nil_iff: "well_formed s \<Longrightarrow> raw_text s = [] \<longleftrightarrow> s = []"
  using raw_text_longer by fastforce

lemma raw_text_prefix:
  assumes "startsWith s (js p)" "is_ascii (js p)"
  shows "startsWith (raw_text s) (js p)"
proof -
  obtain t where "s = js p @ t" using assms(1) by (auto simp: startsWith_def prefix_def)
  then show ?thesis using assms(2) by (simp add: raw_text_append startsWith_def)
qed

end
