(* ===== verification/WebReceipts.thy ===== *)
theory WebReceipts
  imports MicroaiProtocol JsValue HeaderBytes
begin

text \<open>
  The web application's own receipt and protocol code:
  \<^verbatim>\<open>web/src/lib/verify-receipt.ts\<close> and \<^verbatim>\<open>web/src/lib/x402-client.ts\<close>.

  Unlike the SDK this code does not check the types of what it reads, so the operations are
  modelled over values of unknown shape, with the \<^verbatim>\<open>TypeError\<close>s they can raise. The
  properties compare it with the SDK: the same values are accepted, the same typed data is
  signed, and a receipt the SDK verifies is verified by the web code.
\<close>

section \<open>\<^verbatim>\<open>verify-receipt.ts\<close>\<close>

definition web_validateReceiptFormat :: "json option \<Rightarrow> (thrown, bool) result" where
  "web_validateReceiptFormat signedReceipt =
     (let r = field signedReceipt ''receipt'' in
      if \<not> truthy r then Inr False
      else
        (let payment = field r ''payment''; service = field r ''service'' in
         andR (call_startsWith (field r ''id'') ''rcpt_'')
         (andR (Inr (truthy (field r ''version'')))
         (andR (Inr (truthy (field r ''timestamp'')))
         (andR (Inr (truthy (field payment ''payer'')))
         (andR (Inr (truthy (field payment ''recipient'')))
         (andR (Inr (truthy (field payment ''amount'')))
         (andR (Inr (truthy (field payment ''token'')))
         (andR (Inr (truthy (field payment ''nonce'')))
         (andR (Inr (truthy (field service ''endpoint'')))
         (andR (Inr (truthy (field service ''request_hash'')))
         (andR (Inr (truthy (field service ''response_hash'')))
         (andR (call_startsWith (field signedReceipt ''signature'') ''0x'')
         (call_startsWith (field signedReceipt ''server_public_key'') ''0x''))))))))))))))"

text \<open>\<^verbatim>\<open>ethers.getBytes\<close> rejects what is neither a hex string nor a byte array.\<close>

definition getBytes_value :: "'sig platform \<Rightarrow> json option \<Rightarrow> (thrown, byte list) result" where
  "getBytes_value P v =
     (case v of Some (JStr s) \<Rightarrow> getBytes P s | _ \<Rightarrow> Inl (Foreign (js ''invalid BytesLike value'')))"

definition web_verifyReceipt :: "'sig platform \<Rightarrow> json option \<Rightarrow> bool" where
  "web_verifyReceipt P signedReceipt =
     (case
        (if \<not> truthy (field signedReceipt ''receipt'') \<or> \<not> truthy (field signedReceipt ''signature'') \<or>
            \<not> truthy (field signedReceipt ''server_public_key'')
         then Inr False
         else
           (let receiptJSON = stringify (the (field signedReceipt ''receipt'')) in
            bindR (toUtf8Bytes P receiptJSON) (\<lambda>message.
            let messageHash = keccak256 P message in
            bindR (getBytes_value P (field signedReceipt ''signature'')) (\<lambda>sigBytes.
            if length sigBytes \<noteq> 65 then Inr False
            else
              bindR (Signature_from P (hexlify P (take 32 sigBytes))
                       (hexlify P (take 32 (drop 32 sigBytes))) (unat (sigBytes ! 64) + 27))
                (\<lambda>signature.
              bindR (recoverPublicKey P messageHash signature) (\<lambda>recoveredPubKey.
              bindR (call_toLowerCase P (field signedReceipt ''server_public_key'')) (\<lambda>key.
              Inr (lower P recoveredPubKey = key))))))))
      of Inl _ \<Rightarrow> False | Inr b \<Rightarrow> b)"

text \<open>Every failure is logged and answered with \<^verbatim>\<open>null\<close>.\<close>

definition web_fetchReceipt ::
    "jstring \<Rightarrow> jstring option \<Rightarrow> 'w fetcher \<Rightarrow> 'w \<Rightarrow> json option \<times> 'w" where
  "web_fetchReceipt receiptId gatewayUrl_arg fetch w =
     (let gatewayUrl =
            (case gatewayUrl_arg of None \<Rightarrow> js ''http://localhost:3000'' | Some u \<Rightarrow> u) in
      case
        bindIO (fetch (gatewayUrl @ js ''/api/receipts/'' @ receiptId) None) (\<lambda>response.
          if r_status response = 404 then returnIO None
          else if \<not> response_ok response then throwIO (JsError (js ''Failed to fetch receipt''))
          else
            bindIO (liftIO (response_json response)) (\<lambda>data.
            bindIO (liftIO (prop_of (Some data) ''receipt'')) (\<lambda>receipt.
            bindIO (liftIO (prop_of (Some data) ''signature'')) (\<lambda>signature.
            bindIO (liftIO (prop_of (Some data) ''server_public_key'')) (\<lambda>key.
            returnIO (Some (obj_lit
              [(''receipt'', receipt), (''signature'', signature),
               (''server_public_key'', key)]))))))) w
      of (Inl _, w') \<Rightarrow> (None, w') | (Inr v, w') \<Rightarrow> (v, w'))"

section \<open>\<^verbatim>\<open>x402-client.ts\<close>\<close>

text \<open>The argument is the build-time variable \<^verbatim>\<open>NEXT_PUBLIC_GATEWAY_URL\<close>.\<close>

definition getGatewayUrl :: "jstring option \<Rightarrow> jstring" where
  "getGatewayUrl env =
     (case env of
        Some u \<Rightarrow> if u = [] then js ''http://localhost:3000'' else u
      | None \<Rightarrow> js ''http://localhost:3000'')"

text \<open>
  Header values are whatever the challenge held; \<^verbatim>\<open>fetch\<close> converts them to strings and
  throws if one cannot be converted.
\<close>

fun header_strings :: "(jstring \<times> json option) list \<Rightarrow> (thrown, (jstring \<times> jstring) list) result" where
  "header_strings [] = Inr []"
| "header_strings ((k, v) # hs) =
     bindR (String_of v) (\<lambda>s. bindR (header_strings hs) (\<lambda>rest. Inr ((k, s) # rest)))"

definition spread_values ::
    "(jstring \<times> json option) list \<Rightarrow> (jstring \<times> json option) list \<Rightarrow> (jstring \<times> json option) list" where
  "spread_values base extra = fold (\<lambda>(k, v). put k v) extra base"

definition postSummarize ::
    "jstring option \<Rightarrow> 'w fetcher \<Rightarrow> jstring \<Rightarrow> (jstring \<times> json option) list \<Rightarrow>
       ('w, thrown, response) io" where
  "postSummarize env fetch text headers =
     bindIO (liftIO (header_strings (spread_values
       [(js ''Content-Type'', Some (JStr (js ''application/json'')))] headers))) (\<lambda>hs.
     fetch (getGatewayUrl env @ js ''/api/ai/summarize'')
       (Some \<lparr>i_method = js ''POST'', i_headers = hs,
              i_body = Some (stringify (obj_lit [(''text'', Some (JStr text))]))\<rparr>))"

definition readPaymentChallenge :: "response \<Rightarrow> (thrown, json) result" where
  "readPaymentChallenge res =
     bindR (response_json res) (\<lambda>data.
     bindR (prop_of (Some data) ''paymentContext'') (\<lambda>ctx.
     if \<not> truthy ctx then Inl (JsError (js ''402 response missing paymentContext''))
     else Inr (the ctx)))"

record WebDomain =
  wd_name :: jstring
  wd_version :: jstring
  wd_chainId :: "json option"
  wd_verifyingContract :: jstring

record WebValue =
  wv_recipient :: "json option"
  wv_token :: "json option"
  wv_amount :: "json option"
  wv_nonce :: "json option"
  wv_timestamp :: "json option"

type_synonym 'w JsonRpcSigner =
  "WebDomain \<Rightarrow> (jstring \<times> TypedDataField list) list \<Rightarrow> WebValue \<Rightarrow> ('w, thrown, jstring) io"

definition web_signPaymentContext ::
    "'w JsonRpcSigner \<Rightarrow> json \<Rightarrow> ('w, thrown, jstring) io" where
  "web_signPaymentContext signer ctx =
     (let domain =
            \<lparr>wd_name = js ''MicroAI Paygate'', wd_version = js ''1'',
             wd_chainId = field (Some ctx) ''chainId'', wd_verifyingContract = ZeroAddress\<rparr>;
          types =
            [(js ''Payment'',
              [\<lparr>tf_name = js ''recipient'', tf_type = js ''address''\<rparr>,
               \<lparr>tf_name = js ''token'', tf_type = js ''string''\<rparr>,
               \<lparr>tf_name = js ''amount'', tf_type = js ''string''\<rparr>,
               \<lparr>tf_name = js ''nonce'', tf_type = js ''string''\<rparr>,
               \<lparr>tf_name = js ''timestamp'', tf_type = js ''uint256''\<rparr>])];
          value =
            \<lparr>wv_recipient = field (Some ctx) ''recipient'', wv_token = field (Some ctx) ''token'',
             wv_amount = field (Some ctx) ''amount'', wv_nonce = field (Some ctx) ''nonce'',
             wv_timestamp = field (Some ctx) ''timestamp''\<rparr>
      in signer domain types value)"

definition web_buildSignedHeaders ::
    "json \<Rightarrow> jstring \<Rightarrow> (thrown, (jstring \<times> json option) list) result" where
  "web_buildSignedHeaders ctx signature =
     bindR (call_toString (field (Some ctx) ''timestamp'')) (\<lambda>timestamp.
     Inr [(js ''X-402-Signature'', Some (JStr signature)),
          (js ''X-402-Nonce'', field (Some ctx) ''nonce''),
          (js ''X-402-Timestamp'', Some (JStr timestamp))])"

text \<open>The browser's \<^verbatim>\<open>atob\<close> throws on what is not base64; no UTF-8 decoding follows it.\<close>

definition safeDecodeReceiptHeader :: "jstring \<Rightarrow> json option" where
  "safeDecodeReceiptHeader b64 =
     (case
        (case atob b64 of None \<Rightarrow> Inl (NativeError InvalidCharacterError) | Some t \<Rightarrow> parse_text t)
      of
        Inl _ \<Rightarrow> None
      | Inr decoded \<Rightarrow>
          (case web_validateReceiptFormat (Some decoded) of
             Inl _ \<Rightarrow> None
           | Inr ok \<Rightarrow> if \<not> ok then None else Some decoded))"

record SummarizeSuccess =
  ss_summary :: json
  ss_receipt :: "json option"

definition readSummarizeSuccess :: "response \<Rightarrow> (thrown, SummarizeSuccess) result" where
  "readSummarizeSuccess res =
     bindR (response_json res) (\<lambda>data.
     bindR (prop_of (Some data) ''result'') (\<lambda>res_field.
     let summary = (if nullish res_field then JStr [] else the res_field);
         headerVal =
           (case header_get res (js ''x-402-receipt'') of
              Some h \<Rightarrow> Some h | None \<Rightarrow> header_get res (js ''X-402-Receipt''));
         receipt =
           (case headerVal of
              None \<Rightarrow> None
            | Some h \<Rightarrow> if h = [] then None else safeDecodeReceiptHeader h)
     in Inr \<lparr>ss_summary = summary, ss_receipt = receipt\<rparr>))"

section \<open>Comparison with the SDK\<close>

lemma str_of_truthy: "str_of v = Some s \<Longrightarrow> s \<noteq> [] \<Longrightarrow> truthy v"
  by (auto simp: str_of_Some_iff)

lemma str_of_startsWith: "str_of v = Some s \<Longrightarrow> call_startsWith v p = Inr (startsWith s (js p))"
  by (auto simp: str_of_Some_iff)

lemma startsWith_js_nonempty: "p \<noteq> [] \<Longrightarrow> startsWith s (js p) \<Longrightarrow> s \<noteq> []"
  by (auto simp: startsWith_def)

lemma as_PaymentDetails_fields:
  assumes "as_PaymentDetails v = Some d"
  shows "str_of (field v ''payer'') = Some (pd_payer d)"
    "str_of (field v ''recipient'') = Some (pd_recipient d)"
    "str_of (field v ''amount'') = Some (pd_amount d)" "str_of (field v ''token'') = Some (pd_token d)"
    "str_of (field v ''nonce'') = Some (pd_nonce d)"
  using assms by (auto simp: as_PaymentDetails_def Option.bind_eq_Some_conv)

lemma as_Receipt_fields:
  assumes "as_Receipt v = Some r"
  shows "str_of (field v ''id'') = Some (rc_id r)" "str_of (field v ''version'') = Some (rc_version r)"
    "str_of (field v ''timestamp'') = Some (rc_timestamp r)"
    "as_PaymentDetails (field v ''payment'') = Some (rc_payment r)"
  using assms by (auto simp: as_Receipt_def Option.bind_eq_Some_conv)

lemma web_validate_record:
  assumes s: "as_SignedReceipt v = Some s" and wf: "wf_signed s"
  shows "web_validateReceiptFormat v = Inr True"
proof -
  note top = as_SignedReceipt_fields [OF s]
  note r = as_Receipt_fields [OF top(1)]
  note p = as_PaymentDetails_fields [OF r(4)]
  note sv = as_ServiceDetails_fields [OF as_Receipt_service, OF top(1)]
  have w: "wf_payment (rc_payment (sr_receipt s))" "wf_service (rc_service (sr_receipt s))"
    "wf_receipt (sr_receipt s)" using wf by (simp_all add: wf_signed_def wf_receipt_def)
  have "truthy (field (field v ''receipt'') ''version'')" "truthy (field (field v ''receipt'') ''timestamp'')"
    using str_of_truthy r w by (auto simp: wf_receipt_def)
  moreover have "truthy (field v ''receipt'')"
    using field_isRecord [of "field v ''receipt''" "''id''"] r(1)
    by (auto simp: str_of_Some_iff isRecord_def split: option.splits json.splits)
  moreover have "truthy (field (field (field v ''receipt'') ''payment'') k)"
    if "k \<in> {''payer'', ''recipient'', ''amount'', ''token'', ''nonce''}" for k
    using that str_of_truthy p w by (auto simp: wf_payment_def)
  moreover have "truthy (field (field (field v ''receipt'') ''service'') k)"
    if "k \<in> {''endpoint'', ''request_hash'', ''response_hash''}" for k
    using that str_of_truthy sv w startsWith_js_nonempty [of "''sha256:''"] by (auto simp: wf_service_def)
  ultimately show ?thesis
    using str_of_startsWith [OF r(1)] str_of_startsWith [OF top(2)] str_of_startsWith [OF top(3)] wf
    by (simp add: web_validateReceiptFormat_def wf_signed_def wf_receipt_def)
qed

text \<open>A receipt whose header was read without decoding its UTF-8.\<close>

definition raw_signed :: "SignedReceipt \<Rightarrow> SignedReceipt" where
  "raw_signed s =
     (let r = sr_receipt s; p = rc_payment r; v = rc_service r in
      \<lparr>sr_receipt =
        \<lparr>rc_id = raw_text (rc_id r), rc_version = raw_text (rc_version r), rc_timestamp = raw_text (rc_timestamp r),
         rc_payment =
          \<lparr>pd_payer = raw_text (pd_payer p), pd_recipient = raw_text (pd_recipient p), pd_amount = raw_text (pd_amount p),
           pd_token = raw_text (pd_token p), pd_chainId = pd_chainId p, pd_nonce = raw_text (pd_nonce p)\<rparr>,
         rc_service =
          \<lparr>sd_endpoint = raw_text (sd_endpoint v), sd_request_hash = raw_text (sd_request_hash v),
           sd_response_hash = raw_text (sd_response_hash v)\<rparr>\<rparr>,
       sr_signature = raw_text (sr_signature s), sr_server_public_key = raw_text (sr_server_public_key s)\<rparr>)"

lemma raw_json_of_signed: "raw_json (json_of_signed s) = json_of_signed (raw_signed s)"
  by (simp add: json_of_signed_def json_of_receipt_def raw_signed_def Let_def)

lemma wf_raw_signed:
  assumes "wf_signed s" "text_ok (json_of_signed s)"
  shows "wf_signed (raw_signed s)"
proof -
  have prefixes: "is_ascii (js ''rcpt_'')" "is_ascii (js ''sha256:'')" "is_ascii (js ''0x'')"
    by (simp_all add: js_def cu_def)
  then show ?thesis
    using assms raw_text_prefix
    by (simp add: wf_signed_def wf_receipt_def wf_payment_def wf_service_def raw_signed_def Let_def
        json_of_signed_def json_of_receipt_def raw_text_Nil_iff)
qed

text \<open>What the web application reads from a header of the gateway.\<close>

lemma safeDecode_raw_header:
  assumes "wf_signed s" "text_ok (json_of_signed s)"
  shows "safeDecodeReceiptHeader (b64_encode (utf8_encode (stringify (json_of_signed s)))) =
    Some (json_of_signed (raw_signed s))"
proof -
  note wf = wf_raw_signed [OF assms]
  have "binary_string (utf8_encode (stringify (json_of_signed s))) = stringify (json_of_signed (raw_signed s))"
    using raw_stringify [OF json_ok_json_of_signed [OF assms(1)] assms(2)]
    by (simp add: raw_text_def raw_json_of_signed)
  then show ?thesis
    using web_validate_record [OF as_json_of_signed wf]
    by (simp add: safeDecodeReceiptHeader_def atob_b64_encode json_ok_json_of_signed wf)
qed

lemma raw_signed_id_iff:
  assumes "wf_signed s" "text_ok (json_of_signed s)"
  shows "json_of_signed (raw_signed s) = json_of_signed s \<longleftrightarrow> is_ascii (stringify (json_of_signed s))"
proof -
  note ok = json_ok_json_of_signed [OF assms(1)] json_ok_json_of_signed [OF wf_raw_signed [OF assms]]
  have "json_of_signed (raw_signed s) = json_of_signed s \<longleftrightarrow>
      stringify (json_of_signed (raw_signed s)) = stringify (json_of_signed s)"
    using JSON_parse_stringify [OF ok(1)] JSON_parse_stringify [OF ok(2)] by fastforce
  also have "\<dots> \<longleftrightarrow> raw_text (stringify (json_of_signed s)) = stringify (json_of_signed s)"
    using raw_stringify [OF ok(1) assms(2)] by (simp add: raw_json_of_signed)
  also have "\<dots> \<longleftrightarrow> is_ascii (stringify (json_of_signed s))"
    by (rule raw_text_id_iff) (rule well_formed_stringify [OF ok(1)])
  finally show ?thesis .
qed

lemma safeDecode_gateway_header:
  assumes "wf_signed s" "is_ascii (stringify (json_of_signed s))"
  shows "safeDecodeReceiptHeader (b64_encode (utf8_encode (stringify (json_of_signed s)))) =
    Some (json_of_signed s)"
  using assms web_validate_record [OF as_json_of_signed]
  by (simp add: safeDecodeReceiptHeader_def atob_b64_encode raw_text_ascii [unfolded raw_text_def] json_ok_json_of_signed)

lemma safeDecode_valid: "safeDecodeReceiptHeader h = Some v \<Longrightarrow> web_validateReceiptFormat (Some v) = Inr True"
  by (auto simp: safeDecodeReceiptHeader_def split: option.splits sum.splits if_splits)

lemma gateway_header_nonempty:
  "wf_signed s \<Longrightarrow> b64_encode (utf8_encode (stringify (json_of_signed s))) \<noteq> []"
  using utf8_encode_eq_Nil [of "stringify (json_of_signed s)"] stringify_not_Nil json_ok_json_of_signed
  by (cases "utf8_encode (stringify (json_of_signed s))" rule: sextets.cases) (auto simp: b64_encode_def)

text \<open>
  The two receipt checks agree where it matters: every value the SDK's format check accepts
  passes the web application's check, which then raises no error either.
\<close>

lemma sdk_format_implies_web_format:
  assumes "validateReceiptFormat (Some v)"
  shows "web_validateReceiptFormat (Some v) = Inr True"
  using assms web_validate_record unfolding validateReceiptFormat_iff by blast

text \<open>C37:
  A malformed receipt header never costs the user a paid summary: reading a successful
  answer with a JSON object for a body always succeeds, whatever the receipt header holds,
  and the receipt it reports has passed the format check. From a header of the gateway it
  reports the receipt with each string read byte by byte as Latin-1, which is the receipt
  that was sent exactly if its text is ASCII.
\<close>

theorem summarize_success_total:
  assumes "response_json res = Inr (JObj kvs)"
  shows "\<exists>ok. readSummarizeSuccess res = Inr ok \<and>
      (\<forall>v. ss_receipt ok = Some v \<longrightarrow> web_validateReceiptFormat (Some v) = Inr True) \<and>
      (\<forall>s. header_get res (js ''x-402-receipt'') =
             Some (b64_encode (utf8_encode (stringify (json_of_signed s)))) \<and>
           wf_signed s \<and> text_ok (json_of_signed s) \<longrightarrow>
           ss_receipt ok = Some (json_of_signed (raw_signed s)) \<and>
           (ss_receipt ok = Some (json_of_signed s) \<longleftrightarrow> is_ascii (stringify (json_of_signed s))))"
proof -
  obtain ok where ok: "readSummarizeSuccess res = Inr ok"
    and receipt: "ss_receipt ok =
      (case (case header_get res (js ''x-402-receipt'') of
               Some h \<Rightarrow> Some h | None \<Rightarrow> header_get res (js ''X-402-Receipt'')) of
         None \<Rightarrow> None | Some h \<Rightarrow> if h = [] then None else safeDecodeReceiptHeader h)"
    using assms by (simp add: readSummarizeSuccess_def Let_def)
  have "ss_receipt ok = Some v \<longrightarrow> web_validateReceiptFormat (Some v) = Inr True" for v
    unfolding receipt by (simp add: safeDecode_valid split: option.split)
  moreover have "ss_receipt ok = Some (json_of_signed (raw_signed s))"
    "ss_receipt ok = Some (json_of_signed s) \<longleftrightarrow> is_ascii (stringify (json_of_signed s))"
    if "header_get res (js ''x-402-receipt'') = Some (b64_encode (utf8_encode (stringify (json_of_signed s))))"
      "wf_signed s" "text_ok (json_of_signed s)" for s
    using that by (simp_all add: receipt gateway_header_nonempty safeDecode_raw_header raw_signed_id_iff)
  ultimately show ?thesis using ok by blast
qed

text \<open>A receipt for a service with a letter outside ASCII in its address.\<close>

definition accented_signed :: SignedReceipt where
  "accented_signed =
     sample_signed\<lparr>sr_receipt := (sr_receipt sample_signed)\<lparr>rc_service :=
       (rc_service (sr_receipt sample_signed))\<lparr>sd_endpoint := js ''/caf'' @ [0xE9]\<rparr>\<rparr>\<rparr>"

definition accented_answer :: response where
  "accented_answer =
     \<lparr>r_status = 200,
      r_headers = [(js ''x-402-receipt'', b64_encode (utf8_encode (stringify (json_of_signed accented_signed))))],
      r_text = Inr (stringify (JObj []))\<rparr>"

theorem summarize_success_total_witness:
  "\<exists>ok. readSummarizeSuccess accented_answer = Inr ok \<and>
     ss_receipt ok = Some (json_of_signed (raw_signed accented_signed)) \<and>
     sd_endpoint (rc_service (sr_receipt (raw_signed accented_signed))) = js ''/caf'' @ [0xC3, 0xA9]"
proof -
  have "json_ok (JObj [])" by (simp add: canonical_def)
  then have "response_json accented_answer = Inr (JObj [])"
    using parse_text_stringify [of "JObj []"] by (simp add: response_json_def accented_answer_def)
  moreover have "wf_signed accented_signed"
    using wf_sample_signed
    by (simp add: accented_signed_def wf_signed_def wf_receipt_def wf_service_def)
  moreover have "well_formed (js ''/caf'' @ [0xE9])"
    by (rule well_formed_append) (simp_all add: is_high_def is_low_def)
  then have "text_ok (json_of_signed accented_signed)"
    by (simp add: json_of_signed_def json_of_receipt_def accented_signed_def sample_signed_def sample_key_def
        is_ascii_js)
  moreover have "header_get accented_answer (js ''x-402-receipt'') =
      Some (b64_encode (utf8_encode (stringify (json_of_signed accented_signed))))"
  proof -
    have "map ascii_lower (js ''x-402-receipt'') = js ''x-402-receipt''" by code_simp
    then show ?thesis by (simp add: header_get_def accented_answer_def)
  qed
  moreover have "raw_text (js ''/caf'' @ [0xE9]) = js ''/caf'' @ [0xC3, 0xA9]"
  proof -
    have "is_ascii (js ''/caf'')" by (simp add: is_ascii_js)
    moreover have "raw_text [0xE9] = [0xC3, 0xA9]"
      by (simp add: raw_text_def utf8_encode_def binary_string_def utf8_bytes_def is_high_def is_low_def
          byte_of_def unit_of_def)
    ultimately show ?thesis by (simp add: raw_text_append)
  qed
  ultimately show ?thesis
    using summarize_success_total [of accented_answer "[]"]
    by (auto simp: raw_signed_def Let_def accented_signed_def)
qed

section \<open>The same payment\<close>

definition web_domain :: "TypedDataDomain \<Rightarrow> WebDomain" where
  "web_domain d =
     \<lparr>wd_name = dom_name d, wd_version = dom_version d, wd_chainId = Some (JNum (dom_chainId d)),
      wd_verifyingContract = dom_verifyingContract d\<rparr>"

definition web_value :: "PaymentValue \<Rightarrow> WebValue" where
  "web_value v =
     \<lparr>wv_recipient = Some (JStr (val_recipient v)), wv_token = Some (JStr (val_token v)),
      wv_amount = Some (JStr (val_amount v)), wv_nonce = Some (JStr (val_nonce v)),
      wv_timestamp = Some (JNum (val_timestamp v))\<rparr>"

lemma as_PaymentContext_fields:
  assumes "as_PaymentContext v = Some ctx"
  shows "field v ''recipient'' = Some (JStr (ctx_recipient ctx))"
    "field v ''token'' = Some (JStr (ctx_token ctx))" "field v ''amount'' = Some (JStr (ctx_amount ctx))"
    "field v ''nonce'' = Some (JStr (ctx_nonce ctx))" "field v ''chainId'' = Some (JNum (ctx_chainId ctx))"
    "field v ''timestamp'' = Some (JNum (ctx_timestamp ctx))"
  using assms
  by (auto simp: as_PaymentContext_def Option.bind_eq_Some_conv str_of_Some_iff num_of_Some_iff)

text \<open>C21:
  Both clients make the same payment: from an answer in which the SDK reads a context, the
  web application reads the value of that context, hands its signer the SDK's typed data
  (domain, types and message) and sends the SDK's three headers.
\<close>

theorem web_and_sdk_pay_alike:
  assumes "microai_readPaymentContext r () = (Inr ctx, ())"
  shows "\<exists>v. readPaymentChallenge r = Inr v \<and> as_PaymentContext (Some v) = Some ctx \<and>
    (\<forall>sg. web_signPaymentContext sg v =
       (let td = buildPaymentTypedData ctx in
        sg (web_domain (td_domain td)) (td_types td) (web_value (td_value td)))) \<and>
    bindR (web_buildSignedHeaders v sig) header_strings = Inr (buildSignedHeaders ctx sig)"
proof -
  obtain t d where t: "r_text r = Inr t" "JSON_parse t = Some d"
    "as_PaymentContext (field (Some d) ''paymentContext'') = Some ctx"
    using assms by (cases rule: readPaymentContext_cases [of r "()"]) auto
  then obtain v where v: "field (Some d) ''paymentContext'' = Some v"
    by (cases "field (Some d) ''paymentContext''") (auto simp: as_PaymentContext_def)
  note f = as_PaymentContext_fields [OF t(3)[unfolded v]]
  have "\<not> nullish (Some d)" using v by (auto simp: nullish_def)
  moreover have "truthy (Some v)" using f(1) by (cases v) auto
  ultimately have "readPaymentChallenge r = Inr v"
    using t v by (simp add: readPaymentChallenge_def response_json_def parse_text_def prop_of_def)
  moreover have "web_signPaymentContext sg v =
      (let td = buildPaymentTypedData ctx in
       sg (web_domain (td_domain td)) (td_types td) (web_value (td_value td)))" for sg :: "'w JsonRpcSigner"
    using f by (simp add: web_signPaymentContext_def buildPaymentTypedData_def web_domain_def web_value_def
        PAYMENT_DOMAIN_NAME_def PAYMENT_DOMAIN_VERSION_def PAYMENT_TYPES_def Let_def)
  moreover have "bindR (web_buildSignedHeaders v sig) header_strings = Inr (buildSignedHeaders ctx sig)"
    using f by (simp add: web_buildSignedHeaders_def buildSignedHeaders_def call_toString_def String_of_def)
  ultimately show ?thesis using t v by auto
qed

theorem web_and_sdk_pay_alike_witness:
  "\<exists>v. readPaymentChallenge sample_challenge = Inr v \<and> as_PaymentContext (Some v) = Some sample_context"
proof -
  have "microai_readPaymentContext sample_challenge () = (Inr sample_context, ())"
    by (rule read_challenge [of _ _ "js ''pay''"]) (simp_all add: sample_challenge_def)
  from web_and_sdk_pay_alike [OF this] show ?thesis by blast
qed

text \<open>
  The web application's verdict on a gateway receipt: the recovered key is the one the receipt
  names, up to case.
\<close>

lemma web_verify_iff:
  assumes "wf_signed s" "recovered_key P s = Inr pk"
    and "\<And>bs. getBytes P (sr_signature s) = Inr bs \<Longrightarrow> unat (bs ! 64) \<le> 1"
  shows "web_verifyReceipt P (Some (json_of_signed s)) \<longleftrightarrow> lower P pk = lower P (sr_server_public_key s)"
proof -
  have ne: "sr_signature s \<noteq> []" "sr_server_public_key s \<noteq> []"
    using assms(1) startsWith_js_nonempty [of "''0x''"] by (auto simp: wf_signed_def)
  have fields: "field (Some (json_of_signed s)) ''receipt'' = Some (json_of_receipt (sr_receipt s))"
    "field (Some (json_of_signed s)) ''signature'' = Some (JStr (sr_signature s))"
    "field (Some (json_of_signed s)) ''server_public_key'' = Some (JStr (sr_server_public_key s))"
    "truthy (Some (json_of_receipt (sr_receipt s)))"
    by (simp_all add: json_of_signed_def json_of_receipt_def)
  show ?thesis
    using assms(2, 3) ne
    by (auto simp: web_verifyReceipt_def fields recovered_key_def bindR_Inr_iff getBytes_value_def
        recovery_v_def Let_def split: if_splits)
qed

text \<open>
  It trusts the key the receipt names: a receipt signed with any key that it names itself is
  valid to the web application, while the SDK, which is told the key to trust, rejects it.
\<close>

lemma web_trusts_named_key:
  assumes "wf_signed s" "recovered_key P s = Inr (sr_server_public_key s)"
    and "\<And>bs. getBytes P (sr_signature s) = Inr bs \<Longrightarrow> unat (bs ! 64) \<le> 1"
    and "normalizePublicKey P (Some (sr_server_public_key s)) \<noteq> normalizePublicKey P (Some trusted)"
  shows "web_verifyReceipt P (Some (json_of_signed s)) \<and> \<not> verifyReceipt P (json_of_signed s) (Some trusted)"
  using web_verify_iff [OF assms(1 - 3)] verifyReceipt_iff [of P "json_of_signed s"] assms(4)
  by (auto simp: authentic_def)

text \<open>C22:
  A receipt the SDK verifies is verified by the web application, for a receipt as the
  gateway sends it. The hypotheses are the format of the gateway's keys and signatures: the
  recovery id is 0 or 1, and the named and the recovered key are uncompressed keys, which
  \<open>computePublicKey\<close> leaves as they are.
\<close>

theorem sdk_verified_implies_web_verified:
  assumes "verifyReceipt P (json_of_signed s) (Some trusted)"
    and "\<And>bs. getBytes P (sr_signature s) = Inr bs \<Longrightarrow> unat (bs ! 64) \<le> 1"
    and "computePublicKey P (sr_server_public_key s) = Inr (sr_server_public_key s)"
    and "\<And>pk. recovered_key P s = Inr pk \<Longrightarrow> computePublicKey P pk = Inr pk"
  shows "web_verifyReceipt P (Some (json_of_signed s))"
proof -
  have wf: "wf_signed s" and auth: "authentic P s trusted"
    using assms(1) verifyReceipt_iff [of P "json_of_signed s"] by auto
  obtain pk where pk: "recovered_key P s = Inr pk" "lower P pk = lower P (sr_server_public_key s)"
    using auth assms(3, 4)
    by (auto simp: authentic_def normalizePublicKey_def split: if_splits option.splits sum.splits)
  then show ?thesis using web_verify_iff [OF wf pk(1) assms(2)] by simp
qed

theorem sdk_verified_implies_web_verified_witness:
  "web_verifyReceipt sample_platform (Some (json_of_signed sample_signed))"
proof (rule sdk_verified_implies_web_verified)
  show "verifyReceipt sample_platform (json_of_signed sample_signed) (Some sample_key)"
    by (rule verifyReceipt_record [THEN iffD2, OF as_json_of_signed wf_sample_signed])
      (simp add: authentic_def recovered_key_def sample_platform_def normalizePublicKey_def
        sample_signed_def sample_key_def)
qed (auto simp: sample_platform_def)

end
