(* ===== verification/ReceiptStorage.thy ===== *)
theory ReceiptStorage
  imports WebReceipts
begin

text \<open>
  The receipts kept in the browser: \<^verbatim>\<open>web/src/lib/receipt-storage.ts\<close>.

  \<open>receipts_state\<close> holds the one \<^verbatim>\<open>localStorage\<close> item the module uses and the module's
  variables; \<open>notified\<close> lists the calls of listeners so far. \<open>storage_env\<close> says whether
  there is a browser and which calls of the storage throw, as they may at any time.

  Locale \<open>receipt_log\<close> is the contract of a bounded log with the newest entry first and one
  entry per receipt; the interpretation \<open>stored\<close> shows that the text in \<^verbatim>\<open>localStorage\<close>
  implements it. The snapshot cache is a transition system whose invariant is that the
  cached entries are those of the cached text.
\<close>

section \<open>State\<close>

record storage_env =
  env_browser :: bool
  getItem_throws :: bool
  setItem_throws :: "jstring \<Rightarrow> bool"
  removeItem_throws :: bool

record 'l receipts_state =
  stored_item :: "jstring option"
  cachedRaw :: "jstring option"
  cachedSnapshot :: "json list"
  listeners :: "'l list"
  notified :: "'l list"

definition MAX_RECEIPTS :: nat where
  "MAX_RECEIPTS = 20"

section \<open>Reading\<close>

definition isBrowser :: "storage_env \<Rightarrow> bool" where
  "isBrowser env = env_browser env"

definition readRaw :: "storage_env \<Rightarrow> 'l receipts_state \<Rightarrow> jstring option" where
  "readRaw env st =
     (if \<not> isBrowser env then None
      else if getItem_throws env then None
      else stored_item st)"

definition is_number :: "json option \<Rightarrow> bool" where
  "is_number v = (case v of Some (JNum _) \<Rightarrow> True | _ \<Rightarrow> False)"

definition isValidEntry :: "json \<Rightarrow> bool" where
  "isValidEntry entry =
     (let e = Some entry in
      if \<not> isRecord e then False
      else
        (let savedAt = field e ''savedAt'' in
         if \<not> (case savedAt of Some (JNum x) \<Rightarrow> isFinite_num x | _ \<Rightarrow> False) then False
         else
           (let sr = field e ''receipt'' in
            if \<not> isRecord sr then False
            else if \<not> isString (field sr ''signature'') \<or>
                    \<not> startsWith (the (str_of (field sr ''signature''))) (js ''0x'') then False
            else if \<not> isString (field sr ''server_public_key'') \<or>
                    \<not> startsWith (the (str_of (field sr ''server_public_key''))) (js ''0x'') then False
            else
              (let r = field sr ''receipt'' in
               if \<not> isRecord r then False
               else if \<not> isString (field r ''id'') then False
               else
                 (let p = field r ''payment'' in
                  if \<not> isRecord p then False
                  else if \<not> isString (field p ''payer'') \<or> \<not> isString (field p ''recipient'') then False
                  else if \<not> isString (field p ''amount'') \<or> \<not> isString (field p ''token'') then False
                  else if \<not> is_number (field p ''chainId'') then False
                  else
                    (let s = field r ''service'' in
                     if \<not> isRecord s then False
                     else if \<not> isString (field s ''endpoint'') then False
                     else if \<not> isString (field s ''request_hash'') \<or>
                             \<not> isString (field s ''response_hash'') then False
                     else True))))))"

definition parse :: "jstring option \<Rightarrow> json list" where
  "parse raw_arg =
     (case raw_arg of
        None \<Rightarrow> []
      | Some raw \<Rightarrow>
          if raw = [] then []
          else
            (case parse_text raw of
               Inl _ \<Rightarrow> []
             | Inr (JArr es) \<Rightarrow> filter isValidEntry es
             | Inr _ \<Rightarrow> []))"

definition refreshSnapshot :: "storage_env \<Rightarrow> 'l receipts_state \<Rightarrow> 'l receipts_state" where
  "refreshSnapshot env st =
     (let raw = readRaw env st in
      if raw \<noteq> cachedRaw st then st\<lparr>cachedRaw := raw, cachedSnapshot := parse raw\<rparr> else st)"

definition getReceiptsSnapshot ::
    "storage_env \<Rightarrow> 'l receipts_state \<Rightarrow> json list \<times> 'l receipts_state" where
  "getReceiptsSnapshot env st = (let st' = refreshSnapshot env st in (cachedSnapshot st', st'))"

definition getReceiptsServerSnapshot :: "json list" where
  "getReceiptsServerSnapshot = []"

definition listReceipts :: "storage_env \<Rightarrow> 'l receipts_state \<Rightarrow> json list" where
  "listReceipts env st = parse (readRaw env st)"

section \<open>Listeners\<close>

definition notify :: "'l receipts_state \<Rightarrow> 'l receipts_state" where
  "notify st = st\<lparr>notified := notified st @ listeners st\<rparr>"

text \<open>The listeners are a set that keeps the order of insertion.\<close>

definition subscribeReceipts :: "'l \<Rightarrow> 'l receipts_state \<Rightarrow> 'l receipts_state" where
  "subscribeReceipts l st =
     st\<lparr>listeners := (if l \<in> set (listeners st) then listeners st else listeners st @ [l])\<rparr>"

definition unsubscribeReceipts :: "'l \<Rightarrow> 'l receipts_state \<Rightarrow> 'l receipts_state" where
  "unsubscribeReceipts l st = st\<lparr>listeners := filter (\<lambda>m. m \<noteq> l) (listeners st)\<rparr>"

section \<open>Writing\<close>

definition entry_id :: "json \<Rightarrow> json option" where
  "entry_id e = field (field (field (Some e) ''receipt'') ''receipt'') ''id''"

text \<open>Strict inequality of two values, of which the first is a string for a valid entry.\<close>

definition differs :: "json option \<Rightarrow> json option \<Rightarrow> bool" where
  "differs a b = (case (a, b) of (Some (JStr s), Some (JStr t)) \<Rightarrow> s \<noteq> t | _ \<Rightarrow> True)"

text \<open>\<^verbatim>\<open>try { localStorage.setItem(KEY, text); notify(); } catch { warn }\<close>\<close>

definition try_store :: "storage_env \<Rightarrow> json list \<Rightarrow> 'l receipts_state \<Rightarrow> 'l receipts_state" where
  "try_store env entries st =
     (let text = stringify (JArr entries) in
      if setItem_throws env text then st else notify (st\<lparr>stored_item := Some text\<rparr>))"

definition new_entry :: "json \<Rightarrow> jsnum \<Rightarrow> jstring \<Rightarrow> json" where
  "new_entry receipt now promptPreview =
     obj_lit
       [(''receipt'', Some receipt), (''savedAt'', Some (JNum now)),
        (''promptPreview'', Some (JStr (take 80 promptPreview)))]"

text \<open>
  The test of the filter reads \<^verbatim>\<open>receipt.receipt.id\<close>, once per stored entry, outside the
  \<^verbatim>\<open>try\<close>.
\<close>

definition saveReceipt ::
    "storage_env \<Rightarrow> json \<Rightarrow> jstring \<Rightarrow> jsnum \<Rightarrow> 'l receipts_state \<Rightarrow>
       (thrown, unit) result \<times> 'l receipts_state" where
  "saveReceipt env receipt promptPreview now st =
     (if \<not> isBrowser env then (Inr (), st)
      else
        (let entries = listReceipts env st in
         if entries \<noteq> [] \<and> (nullish (Some receipt) \<or> nullish (field (Some receipt) ''receipt''))
         then (Inl (NativeError TypeError), st)
         else
           (let filtered =
                  filter
                    (\<lambda>e. differs (entry_id e) (field (field (Some receipt) ''receipt'') ''id'')) entries;
                next_entry = new_entry receipt now promptPreview;
                trimmed = take MAX_RECEIPTS (next_entry # filtered)
            in (Inr (), try_store env trimmed st))))"

definition removeReceipt ::
    "storage_env \<Rightarrow> jstring \<Rightarrow> 'l receipts_state \<Rightarrow> 'l receipts_state" where
  "removeReceipt env rid st =
     (if \<not> isBrowser env then st
      else
        (let entries = filter (\<lambda>e. differs (entry_id e) (Some (JStr rid))) (listReceipts env st) in
         try_store env entries st))"

definition clearReceipts :: "storage_env \<Rightarrow> 'l receipts_state \<Rightarrow> 'l receipts_state" where
  "clearReceipts env st =
     (if \<not> isBrowser env then st
      else if removeItem_throws env then st
      else notify (st\<lparr>stored_item := None\<rparr>))"

section \<open>A bounded log with one entry per receipt\<close>

locale receipt_log =
  fixes view :: "'s \<Rightarrow> 'e list"
    and save :: "'a \<Rightarrow> 's \<Rightarrow> 's"
    and remove :: "'i \<Rightarrow> 's \<Rightarrow> 's"
    and clear :: "'s \<Rightarrow> 's"
    and entry :: "'a \<Rightarrow> 'e"
    and ident :: "'e \<Rightarrow> 'i"
    and good :: "'s \<Rightarrow> bool"
    and accepted :: "'a \<Rightarrow> bool"
    and bound :: nat
  assumes view_save: "good s \<Longrightarrow> accepted a \<Longrightarrow>
      view (save a s) = take bound (entry a # filter (\<lambda>x. ident x \<noteq> ident (entry a)) (view s))"
    and view_remove: "good s \<Longrightarrow> view (remove i s) = filter (\<lambda>x. ident x \<noteq> i) (view s)"
    and view_clear: "good s \<Longrightarrow> view (clear s) = []"
    and good_save: "good s \<Longrightarrow> accepted a \<Longrightarrow> good (save a s)"
    and good_remove: "good s \<Longrightarrow> good (remove i s)"
    and good_clear: "good s \<Longrightarrow> good (clear s)"
    and bound_positive: "0 < bound"
begin

definition tidy :: "'s \<Rightarrow> bool" where
  "tidy s \<longleftrightarrow> good s \<and> distinct (map ident (view s)) \<and> length (view s) \<le> bound"

lemma tidy_save:
  assumes "tidy s" "accepted a"
  shows "tidy (save a s)"
proof -
  have "distinct (map ident (entry a # filter (\<lambda>x. ident x \<noteq> ident (entry a)) (view s)))"
    using assms by (auto simp: tidy_def distinct_map inj_on_def)
  then have "distinct (map ident (take bound (entry a # filter (\<lambda>x. ident x \<noteq> ident (entry a)) (view s))))"
    by (metis distinct_take take_map)
  then show ?thesis using assms view_save good_save by (simp add: tidy_def)
qed

lemma tidy_remove: "tidy s \<Longrightarrow> tidy (remove i s)"
  using le_trans [OF length_filter_le]
  by (auto simp: tidy_def good_remove view_remove distinct_map_filter)

lemma tidy_clear: "tidy s \<Longrightarrow> tidy (clear s)"
  by (simp add: tidy_def good_clear view_clear)

lemma newest_first: "tidy s \<Longrightarrow> accepted a \<Longrightarrow> view (save a s) \<noteq> [] \<and> hd (view (save a s)) = entry a"
  using bound_positive by (simp add: tidy_def view_save take_Cons')

text \<open>Saving receipts with different ids: the latest come first, and older ones drop out.\<close>

lemma view_saves:
  assumes "tidy s" "list_all accepted as" "distinct (map (ident \<circ> entry) as)"
    and "\<forall>a\<in>set as. ident (entry a) \<notin> ident ` set (view s)"
  shows "tidy (fold save as s) \<and> view (fold save as s) = take bound (rev (map entry as) @ view s)"
  using assms
proof (induction as arbitrary: s)
  case Nil
  then show ?case by (simp add: tidy_def)
next
  case (Cons a as)
  have fresh: "filter (\<lambda>x. ident x \<noteq> ident (entry a)) (view s) = view s"
    using Cons.prems(4) by (intro filter_True) (metis imageI list.set_intros(1))
  have v: "view (save a s) = take bound (entry a # view s)"
    using Cons.prems view_save fresh by (simp add: tidy_def)
  have "set (view (save a s)) \<subseteq> insert (entry a) (set (view s))"
    unfolding v using set_take_subset [of bound "entry a # view s"] by simp
  moreover have "ident (entry b) \<noteq> ident (entry a)" if "b \<in> set as" for b
    using Cons.prems(3) that by (auto simp: image_def)
  ultimately have "\<forall>b\<in>set as. ident (entry b) \<notin> ident ` set (view (save a s))"
    using Cons.prems(4) by (auto simp: image_def)
  then have ih: "tidy (fold save as (save a s))"
    "view (fold save as (save a s)) = take bound (rev (map entry as) @ view (save a s))"
    using Cons.IH [OF tidy_save] Cons.prems by auto
  moreover have "take bound (rev (map entry as) @ take bound (entry a # view s)) =
      take bound (rev (map entry as) @ entry a # view s)"
    by (simp add: take_append)
  ultimately show ?case by (simp add: v)
qed

end

section \<open>The text in the storage implements the log\<close>

text \<open>
  Arguments of a save: a receipt, a prompt and the time. \<open>savable\<close> holds for the receipts
  the SDK's format check accepts that are plain JSON data, as \<open>readSummarizeSuccess\<close> reports.
\<close>

type_synonym save_args = "json \<times> jstring \<times> jsnum"

definition savable :: "save_args \<Rightarrow> bool" where
  "savable a =
     (case a of (receipt, prompt, now) \<Rightarrow>
        validateReceiptFormat (Some receipt) \<and> json_ok receipt \<and> isSafeInteger now)"

definition entry_of_args :: "save_args \<Rightarrow> json" where
  "entry_of_args a = (case a of (receipt, prompt, now) \<Rightarrow> new_entry receipt now prompt)"

definition id_text :: "json \<Rightarrow> jstring" where
  "id_text e = the (str_of (entry_id e))"

definition good_item :: "'l receipts_state \<Rightarrow> bool" where
  "good_item st =
     (case stored_item st of
        None \<Rightarrow> True
      | Some t \<Rightarrow>
          (case JSON_parse t of
             Some (JArr es) \<Rightarrow> t \<noteq> [] \<and> list_all (\<lambda>e. isValidEntry e \<and> json_ok e) es
           | _ \<Rightarrow> False))"

text \<open>A browser whose storage works.\<close>

definition working_env :: storage_env where
  "working_env = \<lparr>env_browser = True, getItem_throws = False, setItem_throws = (\<lambda>_. False),
     removeItem_throws = False\<rparr>"

lemma working_env_sel [simp]:
  "isBrowser working_env" "\<not> getItem_throws working_env" "\<not> setItem_throws working_env t"
  "\<not> removeItem_throws working_env"
  by (simp_all add: working_env_def isBrowser_def)

lemma isValidEntry_id: "isValidEntry e \<Longrightarrow> \<exists>s. entry_id e = Some (JStr s)"
  by (auto simp: isValidEntry_def entry_id_def Let_def isString_iff str_of_Some_iff split: if_splits)

lemma differs_id: "isValidEntry e \<Longrightarrow> differs (entry_id e) (Some (JStr t)) \<longleftrightarrow> id_text e \<noteq> t"
  using isValidEntry_id [of e] by (auto simp: differs_def id_text_def)

lemma new_entry_eq:
  "new_entry r now p = JObj [(js ''receipt'', r), (js ''savedAt'', JNum now), (js ''promptPreview'', JStr (take 80 p))]"
  by (simp add: new_entry_def obj_lit_def map_filter_simps)

lemma savable_id:
  assumes "savable (r, p, now)"
  shows "\<exists>t. field (field (Some r) ''receipt'') ''id'' = Some (JStr t)"
  using assms by (auto simp: savable_def validateReceiptFormat_iff str_of_Some_iff
      dest!: as_SignedReceipt_fields(1) as_Receipt_fields(1))

lemma isFinite_safe: "isSafeInteger x \<Longrightarrow> isFinite_num x"
  by (erule isSafeIntegerE) simp

lemma str_of_isString: "str_of v = Some s \<Longrightarrow> isString v"
  by (auto simp: isString_iff)

lemma str_of_isRecord: "str_of (field v k) = Some s \<Longrightarrow> isRecord v"
  by (auto simp: str_of_Some_iff intro: field_isRecord)

lemma as_PaymentDetails_chainId: "as_PaymentDetails v = Some d \<Longrightarrow> is_number (field v ''chainId'')"
  by (auto simp: as_PaymentDetails_def Option.bind_eq_Some_conv num_of_Some_iff is_number_def)

lemma savable_entry:
  assumes "savable a"
  shows "isValidEntry (entry_of_args a)" "json_ok (entry_of_args a)"
proof -
  obtain r p now where a: "a = (r, p, now)" by (cases a)
  with assms obtain s where s: "as_SignedReceipt (Some r) = Some s" "wf_signed s"
    and ok: "json_ok r" "isSafeInteger now"
    by (auto simp: savable_def validateReceiptFormat_iff)
  note top = as_SignedReceipt_fields [OF s(1)]
  note rc = as_Receipt_fields [OF top(1)]
  note pd = as_PaymentDetails_fields [OF rc(4)]
  note sv = as_ServiceDetails_fields [OF as_Receipt_service, OF top(1)]
  note strings = top(2, 3) rc(1) pd(1 - 4) sv
  have "isRecord (Some r)" by (rule str_of_isRecord [OF top(2)])
  moreover have "isRecord (field (Some r) ''receipt'')" by (rule str_of_isRecord [OF rc(1)])
  moreover have "isRecord (field (field (Some r) ''receipt'') ''payment'')" by (rule str_of_isRecord [OF pd(1)])
  moreover have "isRecord (field (field (Some r) ''receipt'') ''service'')" by (rule str_of_isRecord [OF sv(1)])
  ultimately show "isValidEntry (entry_of_args a)"
    using s(2) as_PaymentDetails_chainId [OF rc(4)] isFinite_safe [OF ok(2)]
    by (simp add: isValidEntry_def a entry_of_args_def new_entry_eq strings
        strings [THEN str_of_isString] wf_signed_def)
  show "json_ok (entry_of_args a)"
    using ok by (simp add: a entry_of_args_def new_entry_eq canonical_named named_key)
qed

lemma good_item_list:
  assumes "good_item st"
  shows "list_all (\<lambda>e. isValidEntry e \<and> json_ok e) (listReceipts working_env st)"
  using assms
  by (auto simp: good_item_def listReceipts_def readRaw_def parse_def parse_text_def list_all_iff
      split: option.splits json.splits)

lemma try_store_working:
  assumes "list_all (\<lambda>e. isValidEntry e \<and> json_ok e) es"
  shows "listReceipts working_env (try_store working_env es st) = es"
    "good_item (try_store working_env es st)"
proof -
  have ok: "json_ok (JArr es)" using assms by (simp add: list_all_iff)
  have all: "filter isValidEntry es = es" using assms by (auto simp: list_all_iff intro: filter_True)
  have item: "stored_item (try_store working_env es st) = Some (stringify (JArr es))"
    by (simp add: try_store_def notify_def Let_def)
  show "listReceipts working_env (try_store working_env es st) = es"
    using parse_text_stringify [OF ok] stringify_not_Nil [OF ok] all
    by (simp add: listReceipts_def readRaw_def item parse_def del: stringify.simps)
  show "good_item (try_store working_env es st)"
    using JSON_parse_stringify [OF ok] stringify_not_Nil [OF ok] assms
    by (simp add: good_item_def item del: stringify.simps)
qed

definition save_stored :: "save_args \<Rightarrow> 'l receipts_state \<Rightarrow> 'l receipts_state" where
  "save_stored a st = (case a of (receipt, prompt, now) \<Rightarrow> snd (saveReceipt working_env receipt prompt now st))"

lemma entry_id_args: "entry_id (entry_of_args (r, p, now)) = field (field (Some r) ''receipt'') ''id''"
  by (simp add: entry_id_def entry_of_args_def new_entry_eq)

lemma saveReceipt_working:
  assumes "good_item st" "savable (r, p, now)"
  shows "saveReceipt working_env r p now st =
    (Inr (), try_store working_env
       (take MAX_RECEIPTS (entry_of_args (r, p, now) #
          filter (\<lambda>e. id_text e \<noteq> id_text (entry_of_args (r, p, now))) (listReceipts working_env st))) st)"
proof -
  obtain t where t: "field (field (Some r) ''receipt'') ''id'' = Some (JStr t)" using savable_id [OF assms(2)] ..
  then have live: "\<not> nullish (Some r)" "\<not> nullish (field (Some r) ''receipt'')"
    by (cases "field (Some r) ''receipt''"; auto simp: nullish_def)+
  have "id_text (entry_of_args (r, p, now)) = t" by (simp add: id_text_def entry_id_args t)
  then have "filter (\<lambda>e. differs (entry_id e) (field (field (Some r) ''receipt'') ''id'')) (listReceipts working_env st) =
      filter (\<lambda>e. id_text e \<noteq> id_text (entry_of_args (r, p, now))) (listReceipts working_env st)"
    using good_item_list [OF assms(1)] differs_id t by (auto simp: list_all_iff intro: filter_cong)
  with live show ?thesis by (simp add: saveReceipt_def Let_def entry_of_args_def)
qed

interpretation stored: receipt_log "listReceipts working_env" save_stored "removeReceipt working_env"
    "clearReceipts working_env" entry_of_args id_text good_item savable MAX_RECEIPTS
proof (unfold_locales, goal_cases)
  case (1 st a)
  obtain r p now where a: "a = (r, p, now)" by (cases a)
  have "list_all (\<lambda>e. isValidEntry e \<and> json_ok e)
      (take MAX_RECEIPTS (entry_of_args a # filter (\<lambda>x. id_text x \<noteq> id_text (entry_of_args a)) (listReceipts working_env st)))"
    using good_item_list [OF 1(1)] savable_entry [OF 1(2)]
    by (auto simp: list_all_iff dest!: in_set_takeD)
  from try_store_working(1) [OF this] show ?case
    using saveReceipt_working [of st r p now] 1 by (simp add: a save_stored_def)
next
  case (4 st a)
  obtain r p now where a: "a = (r, p, now)" by (cases a)
  have "list_all (\<lambda>e. isValidEntry e \<and> json_ok e)
      (take MAX_RECEIPTS (entry_of_args a # filter (\<lambda>x. id_text x \<noteq> id_text (entry_of_args a)) (listReceipts working_env st)))"
    using good_item_list [OF 4(1)] savable_entry [OF 4(2)]
    by (auto simp: list_all_iff dest!: in_set_takeD)
  from try_store_working(2) [OF this] show ?case
    using saveReceipt_working [of st r p now] 4 by (simp add: a save_stored_def)
next
  case (2 st i)
  have eq: "filter (\<lambda>e. differs (entry_id e) (Some (JStr i))) (listReceipts working_env st) =
      filter (\<lambda>x. id_text x \<noteq> i) (listReceipts working_env st)"
    using good_item_list [OF 2] differs_id by (auto simp: list_all_iff intro: filter_cong)
  show ?case
    using good_item_list [OF 2] unfolding removeReceipt_def Let_def eq
    by (simp add: try_store_working list_all_iff)
next
  case (5 st i)
  show ?case
    using good_item_list [OF 5] by (simp add: removeReceipt_def try_store_working list_all_iff)
qed (simp_all add: clearReceipts_def listReceipts_def readRaw_def parse_def notify_def good_item_def
    MAX_RECEIPTS_def)

section \<open>Every history of the module\<close>

text \<open>
  One step is one call, in an environment that may fail; a receipt to save is one the format
  check accepts. \<open>external\<close> is another tab that uses the same module.
\<close>

inductive storage_step :: "'l receipts_state \<Rightarrow> 'l receipts_state \<Rightarrow> bool" where
  save_step: "savable (r, p, now) \<Longrightarrow> storage_step st (snd (saveReceipt env r p now st))"
| remove_step: "storage_step st (removeReceipt env rid st)"
| clear_step: "storage_step st (clearReceipts env st)"
| snapshot_step: "storage_step st (snd (getReceiptsSnapshot env st))"
| subscribe_step: "storage_step st (subscribeReceipts l st)"
| unsubscribe_step: "storage_step st (unsubscribeReceipts l st)"
| external: "storage_step (st\<lparr>cachedRaw := None, cachedSnapshot := [], listeners := [], notified := []\<rparr>) other \<Longrightarrow>
    storage_step st (st\<lparr>stored_item := stored_item other\<rparr>)"

definition storage_init :: "'l receipts_state \<Rightarrow> bool" where
  "storage_init st \<longleftrightarrow>
     st = \<lparr>stored_item = None, cachedRaw = None, cachedSnapshot = [], listeners = [], notified = []\<rparr>"

definition storage_inv :: "'l receipts_state \<Rightarrow> bool" where
  "storage_inv st \<longleftrightarrow>
     good_item st \<and> distinct (map id_text (parse (stored_item st))) \<and>
     length (parse (stored_item st)) \<le> MAX_RECEIPTS \<and>
     cachedSnapshot st = parse (cachedRaw st) \<and> distinct (listeners st)"

lemma listReceipts_working: "listReceipts working_env st = parse (stored_item st)"
  by (simp add: listReceipts_def readRaw_def)

lemma tidy_stored:
  "stored.tidy st \<longleftrightarrow> good_item st \<and> distinct (map id_text (parse (stored_item st))) \<and>
     length (parse (stored_item st)) \<le> MAX_RECEIPTS"
  by (simp add: stored.tidy_def listReceipts_working)

lemma tidy_same_item: "stored_item st = stored_item st' \<Longrightarrow> stored.tidy st = stored.tidy st'"
  by (simp add: tidy_stored good_item_def)

text \<open>A failing read makes the storage look empty; a failing write leaves it as it is.\<close>

lemma listReceipts_env: "listReceipts env st = [] \<or> listReceipts env st = listReceipts working_env st"
  by (simp add: listReceipts_def readRaw_def parse_def)

lemma try_store_env: "stored_item (try_store env es st) \<in> {stored_item st, stored_item (try_store working_env es st)}"
  by (simp add: try_store_def notify_def Let_def)

lemma try_store_tidy:
  assumes "stored.tidy st" "stored.tidy (try_store working_env es st)"
  shows "stored.tidy (try_store env es st)"
  using try_store_env [of env es st] assms tidy_same_item by (metis insertE singletonD)

lemma try_store_any:
  "stored.tidy (try_store working_env es st) \<Longrightarrow> stored.tidy (try_store working_env es st')"
  using tidy_same_item [of "try_store working_env es st" "try_store working_env es st'"]
  by (simp add: try_store_def notify_def Let_def)

lemma tidy_cleared: "stored.tidy st \<Longrightarrow> stored.tidy (st\<lparr>stored_item := None\<rparr>)"
  by (simp add: tidy_stored good_item_def parse_def)

lemma saveReceipt_env:
  assumes "stored.tidy st" "savable (r, p, now)"
  shows "stored.tidy (snd (saveReceipt env r p now st))"
proof (cases "isBrowser env")
  case False
  then show ?thesis using assms by (simp add: saveReceipt_def)
next
  case True
  define st0 where "st0 = (if listReceipts env st = [] then st\<lparr>stored_item := None\<rparr> else st)"
  have st0: "stored.tidy st0" using assms(1) tidy_cleared [OF assms(1)] by (simp add: st0_def)
  then have good: "good_item st0" by (simp add: tidy_stored)
  have list0: "listReceipts working_env st0 = listReceipts env st"
    using listReceipts_env [of env st] by (auto simp: st0_def listReceipts_working parse_def)
  have "save_stored (r, p, now) st0 = try_store working_env
      (take MAX_RECEIPTS (entry_of_args (r, p, now) #
        filter (\<lambda>e. differs (entry_id e) (field (field (Some r) ''receipt'') ''id'')) (listReceipts env st))) st0"
    using saveReceipt_working [OF good assms(2)]
    by (simp add: save_stored_def saveReceipt_def list0 entry_of_args_def Let_def split: if_splits)
  then have "stored.tidy (try_store working_env
      (take MAX_RECEIPTS (entry_of_args (r, p, now) #
        filter (\<lambda>e. differs (entry_id e) (field (field (Some r) ''receipt'') ''id'')) (listReceipts env st))) st)"
    using stored.tidy_save [OF st0 assms(2)] try_store_any by metis
  from try_store_tidy [OF assms(1) this, of env] show ?thesis
    using True assms(1) by (simp add: saveReceipt_def entry_of_args_def Let_def)
qed

lemma removeReceipt_env:
  assumes "stored.tidy st"
  shows "stored.tidy (removeReceipt env rid st)"
proof (cases "isBrowser env")
  case False
  then show ?thesis using assms by (simp add: removeReceipt_def)
next
  case True
  define st0 where "st0 = (if listReceipts env st = [] then st\<lparr>stored_item := None\<rparr> else st)"
  have st0: "stored.tidy st0" using assms(1) tidy_cleared [OF assms(1)] by (simp add: st0_def)
  have list0: "listReceipts working_env st0 = listReceipts env st"
    using listReceipts_env [of env st] by (auto simp: st0_def listReceipts_working parse_def)
  have "stored.tidy (try_store working_env
      (filter (\<lambda>e. differs (entry_id e) (Some (JStr rid))) (listReceipts env st)) st)"
    by (rule try_store_any [of _ st0])
      (use stored.tidy_remove [OF st0, of rid] in \<open>simp add: removeReceipt_def list0\<close>)
  from try_store_tidy [OF assms this, of env] show ?thesis by (simp add: removeReceipt_def True)
qed

lemma clearReceipts_env: "stored.tidy st \<Longrightarrow> stored.tidy (clearReceipts env st)"
  using tidy_same_item [of "clearReceipts env st" "st\<lparr>stored_item := None\<rparr>"] tidy_cleared [of st]
  by (auto simp: clearReceipts_def notify_def)

text \<open>Writes leave the module's variables other than the list of calls alone.\<close>

lemma writes_frame [simp]:
  "cachedRaw (try_store env es st) = cachedRaw st" "cachedSnapshot (try_store env es st) = cachedSnapshot st"
  "listeners (try_store env es st) = listeners st"
  by (simp_all add: try_store_def notify_def Let_def)

lemma save_frame [simp]:
  "cachedRaw (snd (saveReceipt env r p now st)) = cachedRaw st"
  "cachedSnapshot (snd (saveReceipt env r p now st)) = cachedSnapshot st"
  "listeners (snd (saveReceipt env r p now st)) = listeners st"
  by (simp_all add: saveReceipt_def Let_def)

lemma other_frames [simp]:
  "cachedRaw (removeReceipt env rid st) = cachedRaw st" "cachedSnapshot (removeReceipt env rid st) = cachedSnapshot st"
  "listeners (removeReceipt env rid st) = listeners st" "cachedRaw (clearReceipts env st) = cachedRaw st"
  "cachedSnapshot (clearReceipts env st) = cachedSnapshot st" "listeners (clearReceipts env st) = listeners st"
  by (simp_all add: removeReceipt_def clearReceipts_def notify_def Let_def)

lemma storage_inv_tidy:
  "storage_inv st \<longleftrightarrow> stored.tidy st \<and> cachedSnapshot st = parse (cachedRaw st) \<and> distinct (listeners st)"
  by (auto simp: storage_inv_def tidy_stored)

lemma storage_step_tidy: "storage_step st st' \<Longrightarrow> stored.tidy st \<Longrightarrow> stored.tidy st'"
proof (induction rule: storage_step.induct)
  case (external st other)
  then have "stored.tidy other"
    using tidy_same_item [of "st\<lparr>cachedRaw := None, cachedSnapshot := [], listeners := [], notified := []\<rparr>" st]
    by simp
  then show ?case using tidy_same_item [of "st\<lparr>stored_item := stored_item other\<rparr>" other] by simp
next
  case (snapshot_step st env)
  then show ?case
    using tidy_same_item [of "snd (getReceiptsSnapshot env st)" st]
    by (simp add: getReceiptsSnapshot_def refreshSnapshot_def Let_def)
next
  case (subscribe_step st l)
  then show ?case using tidy_same_item [of "subscribeReceipts l st" st] by (simp add: subscribeReceipts_def)
next
  case (unsubscribe_step st l)
  then show ?case using tidy_same_item [of "unsubscribeReceipts l st" st] by (simp add: unsubscribeReceipts_def)
qed (auto intro: saveReceipt_env removeReceipt_env clearReceipts_env)

lemma storage_step_cache:
  assumes "storage_step st st'" "cachedSnapshot st = parse (cachedRaw st)" "distinct (listeners st)"
  shows "cachedSnapshot st' = parse (cachedRaw st') \<and> distinct (listeners st')"
  using assms
  by (cases rule: storage_step.cases)
    (auto simp: getReceiptsSnapshot_def refreshSnapshot_def subscribeReceipts_def unsubscribeReceipts_def Let_def)

interpretation storage: transition_system storage_init storage_step storage_inv
proof
  fix st :: "'l receipts_state"
  assume "storage_init st"
  then show "storage_inv st" by (simp add: storage_init_def storage_inv_def good_item_def parse_def)
next
  fix st st' :: "'l receipts_state"
  assume "storage_inv st" "storage_step st st'"
  then show "storage_inv st'" using storage_step_tidy storage_step_cache by (auto simp: storage_inv_tidy)
qed

section \<open>Properties\<close>

text \<open>C11:
  Whatever sequence of saves, removals, clears, reads and subscriptions the pages make, in
  however many tabs and with storage calls failing at any point, the stored receipts are
  at most twenty, no two have the same id, every one passes the entry check, and a snapshot
  read in a working browser is the list that is stored.
\<close>

theorem stored_receipts_invariant:
  assumes "storage_init st" "storage_step\<^sup>*\<^sup>* st st'"
  shows "length (listReceipts working_env st') \<le> 20 \<and> distinct (map id_text (listReceipts working_env st')) \<and>
    list_all isValidEntry (listReceipts working_env st') \<and>
    fst (getReceiptsSnapshot working_env st') = listReceipts working_env st'"
proof -
  have inv: "storage_inv st'" using storage.inv_reachable [OF assms] .
  then have "list_all isValidEntry (listReceipts working_env st')"
    using good_item_list by (auto simp: storage_inv_def list_all_iff)
  with inv show ?thesis
    by (auto simp: storage_inv_def listReceipts_working MAX_RECEIPTS_def getReceiptsSnapshot_def
        refreshSnapshot_def readRaw_def Let_def)
qed

definition empty_receipts :: "nat receipts_state" where
  "empty_receipts = \<lparr>stored_item = None, cachedRaw = None, cachedSnapshot = [], listeners = [], notified = []\<rparr>"

lemma savable_sample: "savable (json_of_signed sample_signed, js ''hi'', num_of_int 5)"
  by (simp add: savable_def json_ok_json_of_signed max_safe_integer_def)

theorem stored_receipts_invariant_witness:
  "length (listReceipts working_env
     (snd (saveReceipt working_env (json_of_signed sample_signed) (js ''hi'') (num_of_int 5) empty_receipts))) \<le> 20"
  using stored_receipts_invariant [of empty_receipts, OF _ r_into_rtranclp, OF _ save_step, OF _ savable_sample]
  by (simp add: storage_init_def empty_receipts_def)

text \<open>C24:
  The receipts kept are the most recent ones, newest first: after saving receipts with
  different ids, none of them stored before, the list is those receipts in reverse order
  followed by the older ones, cut after twenty.
\<close>

theorem newest_receipts_kept:
  assumes "storage_init st" "storage_step\<^sup>*\<^sup>* st st'" "list_all savable as"
    "distinct (map (id_text \<circ> entry_of_args) as)"
    "\<forall>a\<in>set as. id_text (entry_of_args a) \<notin> id_text ` set (listReceipts working_env st')"
  shows "listReceipts working_env (fold save_stored as st') =
    take 20 (rev (map entry_of_args as) @ listReceipts working_env st')"
  using stored.view_saves [of st' as] storage.inv_reachable [OF assms(1, 2)] assms(3 -)
  by (simp add: storage_inv_tidy MAX_RECEIPTS_def)

theorem newest_receipts_kept_witness:
  "listReceipts working_env (fold save_stored [(json_of_signed sample_signed, js ''hi'', num_of_int 5)] empty_receipts) =
     [entry_of_args (json_of_signed sample_signed, js ''hi'', num_of_int 5)]"
  using newest_receipts_kept [of empty_receipts empty_receipts "[(json_of_signed sample_signed, js ''hi'', num_of_int 5)]"]
    savable_sample
  by (simp add: storage_init_def empty_receipts_def listReceipts_working parse_def)

text \<open>
  Keeping a receipt never costs the user the summary: for a receipt that passed the web
  application's format check, saving returns normally in every environment, whatever the
  storage holds and whichever of its calls throw, and if writing fails nothing changes.
\<close>

lemma save_never_throws:
  assumes "web_validateReceiptFormat (Some r) = Inr True"
  shows "fst (saveReceipt env r p now st) = Inr () \<and>
    ((\<forall>t. setItem_throws env t) \<longrightarrow> snd (saveReceipt env r p now st) = st)"
proof -
  have "truthy (field (Some r) ''receipt'')"
    using assms by (auto simp: web_validateReceiptFormat_def Let_def split: if_splits)
  then have "\<not> nullish (field (Some r) ''receipt'')" "\<not> nullish (Some r)"
    by (auto simp: truthy_not_nullish) (auto simp: nullish_def)
  then show ?thesis by (simp add: saveReceipt_def try_store_def Let_def)
qed

end
