(* ===== verification/Wallet.thy ===== *)
theory Wallet
  imports JsValue Samples
begin

text \<open>
  The wallet: \<^verbatim>\<open>web/src/lib/wallet.ts\<close>.

  The injected provider is a parameter: \<open>'w wallet\<close> holds whether there is one in a world
  and the calls the code makes of it, directly or through \<^verbatim>\<open>ethers.BrowserProvider\<close>. Chain
  ids come from an unchecked challenge, so they are values of unknown shape.
\<close>

section \<open>The provider\<close>

record 'w wallet =
  wl_present :: "'w \<Rightarrow> bool"
  wl_accounts :: "('w, thrown, jstring list) io"
  wl_requestAccounts :: "('w, thrown, jstring list) io"
  wl_getNetwork :: "('w, thrown, int) io"
  wl_request :: "jstring \<Rightarrow> json \<Rightarrow> ('w, thrown, unit) io"

text \<open>What a thrown value shows to code that reads \<^verbatim>\<open>code\<close> and \<^verbatim>\<open>message\<close> of it.\<close>

record thrown_view =
  tv_code :: "json option"
  tv_message :: "json option"

section \<open>Chains\<close>

record ChainMeta =
  cm_id :: "json option"
  cm_name :: jstring
  cm_rpcUrl :: jstring
  cm_explorer :: jstring

definition CHAINS :: "(jstring \<times> ChainMeta) list" where
  "CHAINS =
     [(js ''84532'',
       \<lparr>cm_id = Some (JNum (num_of_int 84532)), cm_name = js ''Base Sepolia'',
        cm_rpcUrl = js ''https://sepolia.base.org'', cm_explorer = js ''https://sepolia.basescan.org''\<rparr>),
      (js ''8453'',
       \<lparr>cm_id = Some (JNum (num_of_int 8453)), cm_name = js ''Base'',
        cm_rpcUrl = js ''https://mainnet.base.org'', cm_explorer = js ''https://basescan.org''\<rparr>)]"

text \<open>The table is indexed by the string of the chain id.\<close>

definition getChainMeta :: "json option \<Rightarrow> (thrown, ChainMeta) result" where
  "getChainMeta chainId =
     bindR (String_of chainId) (\<lambda>key.
     case map_of CHAINS key of
       Some meta \<Rightarrow> Inr meta
     | None \<Rightarrow>
         Inr \<lparr>cm_id = chainId, cm_name = js ''Chain '' @ key, cm_rpcUrl = [], cm_explorer = []\<rparr>)"

section \<open>Accounts and networks\<close>

definition hasWallet :: "'w wallet \<Rightarrow> 'w \<Rightarrow> bool" where
  "hasWallet W w = wl_present W w"

definition getCurrentAccount :: "'w wallet \<Rightarrow> ('w, thrown, jstring option) io" where
  "getCurrentAccount W w =
     (if \<not> hasWallet W w then (Inr None, w)
      else bindIO (wl_accounts W) (\<lambda>accounts.
        returnIO (case accounts of [] \<Rightarrow> None | a # _ \<Rightarrow> Some a)) w)"

definition getCurrentChainId :: "'w wallet \<Rightarrow> ('w, thrown, jsnum option) io" where
  "getCurrentChainId W w =
     (if \<not> hasWallet W w then (Inr None, w)
      else bindIO (wl_getNetwork W) (\<lambda>chainId. returnIO (Some (to_double (of_int chainId)))) w)"

definition connectWallet :: "'w wallet \<Rightarrow> ('w, thrown, jstring) io" where
  "connectWallet W w =
     (if \<not> hasWallet W w then (Inl (JsError (js ''No wallet found'')), w)
      else bindIO (wl_requestAccounts W) (\<lambda>accounts.
        case accounts of
          [] \<Rightarrow> throwIO (JsError (js ''Wallet returned no accounts''))
        | a # _ \<Rightarrow>
            if a = [] then throwIO (JsError (js ''Wallet returned no accounts'')) else returnIO a) w)"

section \<open>Switching the chain\<close>

text \<open>\<^verbatim>\<open>chainId.toString(16)\<close>; only numbers have a radix.\<close>

fun hex_digits :: "nat \<Rightarrow> jstring" where
  "hex_digits n =
     (if n < 16 then [cu (hex_char n)] else hex_digits (n div 16) @ [cu (hex_char (n mod 16))])"

declare hex_digits.simps [simp del]

definition toString16 :: "'sig platform \<Rightarrow> json option \<Rightarrow> (thrown, jstring) result" where
  "toString16 P v =
     (case v of
        Some (JNum (Fin r)) \<Rightarrow>
          if isSafeInteger (Fin r)
          then Inr (if r < 0 then js ''-'' @ hex_digits (nat \<lfloor>- r\<rfloor>) else hex_digits (nat \<lfloor>r\<rfloor>))
          else Inr (numberToHex P (Fin r))
      | Some (JNum x) \<Rightarrow> Inr (num_to_string x)
      | _ \<Rightarrow> call_toString v)"

definition isUnknownChain :: "'sig platform \<Rightarrow> thrown_view \<Rightarrow> (thrown, bool) result" where
  "isUnknownChain P e =
     (if tv_code e = Some (JNum (num_of_int 4902)) then Inr True
      else
        bindR (String_of (if nullish (tv_message e) then Some (JStr []) else tv_message e)) (\<lambda>m.
        Inr (str_includes (lower P m) (js ''chain not supported''))))"

text \<open>The last part of the function, after the wallet said it does not know the chain.\<close>

definition addChain :: "'w wallet \<Rightarrow> json option \<Rightarrow> jstring \<Rightarrow> ('w, thrown, unit) io" where
  "addChain W chainId hex =
     bindIO (liftIO (getChainMeta chainId)) (\<lambda>meta.
     bindIO (liftIO (String_of chainId)) (\<lambda>shown.
     if cm_rpcUrl meta = []
     then throwIO (JsError (js ''Unknown chain '' @ shown @ js '' '' @ [0x2014] @
       js '' cannot add to wallet''))
     else
       wl_request W (js ''wallet_addEthereumChain'')
         (JArr [obj_lit
            [(''chainId'', Some (JStr hex)),
             (''chainName'', Some (JStr (cm_name meta))),
             (''nativeCurrency'', Some (obj_lit
                [(''name'', Some (JStr (js ''Ether''))),
                 (''symbol'', Some (JStr (js ''ETH''))),
                 (''decimals'', Some (JNum (num_of_int 18)))])),
             (''rpcUrls'', Some (JArr [JStr (cm_rpcUrl meta)])),
             (''blockExplorerUrls'', Some (JArr [JStr (cm_explorer meta)]))]])))"

definition switchOrAddChain ::
    "'sig platform \<Rightarrow> (thrown \<Rightarrow> thrown_view) \<Rightarrow> 'w wallet \<Rightarrow> json option \<Rightarrow> ('w, thrown, unit) io" where
  "switchOrAddChain P view W chainId w =
     (if \<not> hasWallet W w then (Inl (JsError (js ''No wallet found'')), w)
      else
        (case toString16 P chainId of
           Inl e \<Rightarrow> (Inl e, w)
         | Inr digits \<Rightarrow>
             (let hex = js ''0x'' @ digits in
              case wl_request W (js ''wallet_switchEthereumChain'')
                     (JArr [obj_lit [(''chainId'', Some (JStr hex))]]) w of
                (Inr _, w1) \<Rightarrow> (Inr (), w1)
              | (Inl err, w1) \<Rightarrow>
                  (case isUnknownChain P (view err) of
                     Inl e \<Rightarrow> (Inl e, w1)
                   | Inr unknown_chain \<Rightarrow>
                       if \<not> unknown_chain then (Inl err, w1) else addChain W chainId hex w1))))"

section \<open>Display\<close>

definition shortenAddress :: "jstring \<Rightarrow> nat \<Rightarrow> jstring" where
  "shortenAddress addr chars =
     (if addr = [] then []
      else if length addr \<le> chars * 2 + 2 then addr
      else take (chars + 2) addr @ [0x2026] @ slice_last addr chars)"

section \<open>Subscriptions\<close>

text \<open>
  Handlers registered with the provider, by event; \<open>None\<close> stands for the no-op that is
  returned when the provider has no \<^verbatim>\<open>on\<close>. Each subscription registers a new function, here
  a number, and the returned function removes that one if the provider can.
\<close>

record wallet_events =
  we_has_on :: bool
  we_has_remove :: bool
  we_next :: nat
  we_handlers :: "(jstring \<times> nat) list"

definition subscribe_event :: "jstring \<Rightarrow> wallet_events \<Rightarrow> (jstring \<times> nat) option \<times> wallet_events" where
  "subscribe_event ev s =
     (if \<not> we_has_on s then (None, s)
      else (Some (ev, we_next s),
        s\<lparr>we_next := Suc (we_next s), we_handlers := we_handlers s @ [(ev, we_next s)]\<rparr>))"

definition subscribeAccountsChanged :: "wallet_events \<Rightarrow> (jstring \<times> nat) option \<times> wallet_events" where
  "subscribeAccountsChanged s = subscribe_event (js ''accountsChanged'') s"

definition subscribeChainChanged :: "wallet_events \<Rightarrow> (jstring \<times> nat) option \<times> wallet_events" where
  "subscribeChainChanged s = subscribe_event (js ''chainChanged'') s"

definition unsubscribe_event :: "(jstring \<times> nat) option \<Rightarrow> wallet_events \<Rightarrow> wallet_events" where
  "unsubscribe_event h s =
     (case h of
        None \<Rightarrow> s
      | Some f \<Rightarrow>
          if \<not> we_has_remove s then s
          else s\<lparr>we_handlers := filter (\<lambda>g. g \<noteq> f) (we_handlers s)\<rparr>)"

section \<open>Properties\<close>

definition hex_value :: "jstring \<Rightarrow> nat" where
  "hex_value s = foldl (\<lambda>a u. a * 16 + the (hex_val u)) 0 s"

lemma hex_val_char: "d < 16 \<Longrightarrow> hex_val (cu (hex_char d)) = Some d"
proof -
  have "\<forall>d\<in>{0..<16::nat}. hex_val (cu (hex_char d)) = Some d"
    by (simp add: hex_val_def hex_char_def Let_def atLeast0_lessThan_Suc numeral_eq_Suc)
  then show "d < 16 \<Longrightarrow> ?thesis" by simp
qed

lemma hex_value_digits: "hex_value (hex_digits n) = n"
proof (induction n rule: hex_digits.induct)
  case (1 n)
  show ?case
  proof (cases "n < 16")
    case True
    then show ?thesis by (simp add: hex_digits.simps hex_value_def hex_val_char)
  next
    case False
    with 1 show ?thesis
      by (subst hex_digits.simps) (simp add: hex_value_def hex_val_char)
  qed
qed

text \<open>A wallet whose world remembers the requests made of it.\<close>

definition traced_wallet :: "'s wallet \<Rightarrow> ('s \<times> (jstring \<times> json) list) wallet" where
  "traced_wallet W =
     \<lparr>wl_present = (\<lambda>(s, tr). wl_present W s),
      wl_accounts = (\<lambda>(s, tr). case wl_accounts W s of (r, s') \<Rightarrow> (r, s', tr)),
      wl_requestAccounts = (\<lambda>(s, tr). case wl_requestAccounts W s of (r, s') \<Rightarrow> (r, s', tr)),
      wl_getNetwork = (\<lambda>(s, tr). case wl_getNetwork W s of (r, s') \<Rightarrow> (r, s', tr)),
      wl_request = (\<lambda>m p (s, tr). case wl_request W m p s of (r, s') \<Rightarrow> (r, s', tr @ [(m, p)]))\<rparr>"

lemma toString16_nat:
  "0 \<le> n \<Longrightarrow> n \<le> max_safe_integer \<Longrightarrow> toString16 P (Some (JNum (num_of_int n))) = Inr (hex_digits (nat n))"
  using isSafeInteger_num_of_int [of n] by (simp add: toString16_def num_of_int_def)

lemma getChainMeta_known:
  assumes "0 \<le> n" "n \<le> max_safe_integer" "getChainMeta (Some (JNum (num_of_int n))) = Inr meta" "cm_rpcUrl meta \<noteq> []"
  shows "n \<in> {84532, 8453} \<and> cm_id meta = Some (JNum (num_of_int n))"
proof -
  have str: "num_to_string (num_of_int n) = dec_string (nat n)"
    using assms num_to_string_int [of n] by (simp add: int_string_def)
  have known: "js ''84532'' = dec_string 84532" "js ''8453'' = dec_string 8453"
    by (simp_all add: dec_string.simps digit_def js_def word_unat_eq_iff)
  have inj: "m = k" if "dec_string m = dec_string k" for m k
    using that digits_value_dec_string by metis
  show ?thesis
    using assms(1, 3, 4) inj
    by (auto simp: getChainMeta_def String_of_def str CHAINS_def known split: if_splits)
qed

lemma addChain_trace:
  assumes "0 \<le> n" "n \<le> max_safe_integer"
    and "addChain (traced_wallet W) (Some (JNum (num_of_int n))) hex (s, tr) = (res, s', tr')"
  shows "tr' = tr \<or> (\<exists>meta p. n \<in> {84532, 8453} \<and> getChainMeta (Some (JNum (num_of_int n))) = Inr meta \<and>
    cm_rpcUrl meta \<noteq> [] \<and> tr' = tr @ [(js ''wallet_addEthereumChain'', p)])"
proof -
  obtain meta where meta: "getChainMeta (Some (JNum (num_of_int n))) = Inr meta"
    by (cases "map_of CHAINS (num_to_string (num_of_int n))") (auto simp: getChainMeta_def String_of_def)
  have shown: "String_of (Some (JNum (num_of_int n))) = Inr (num_to_string (num_of_int n))"
    by (simp add: String_of_def)
  show ?thesis
  proof (cases "cm_rpcUrl meta = []")
    case True
    then show ?thesis using assms(3) by (simp add: addChain_def bindIO_def liftIO_def throwIO_def meta shown)
  next
    case False
    then show ?thesis
      using assms(3) getChainMeta_known [OF assms(1, 2) meta] meta
      by (simp add: addChain_def bindIO_def liftIO_def shown traced_wallet_def split: prod.splits) blast
  qed
qed

text \<open>C38:
  Asking for a chain makes at most two requests of the wallet. The first asks it to switch,
  with a hexadecimal id that denotes the chain asked for; a second one, to add the chain, is
  made only after the wallet refused, and only for the two chains whose details the
  application knows, so the user is never asked to add an unknown network.
\<close>

theorem switch_requests:
  assumes "0 \<le> n" "n \<le> max_safe_integer" "wl_present W s"
    and "switchOrAddChain P view (traced_wallet W) (Some (JNum (num_of_int n))) (s, []) = (res, s', tr)"
  shows "\<exists>hex. hex_value hex = nat n \<and>
    (let switch = (js ''wallet_switchEthereumChain'',
           JArr [JObj [(js ''chainId'', JStr (js ''0x'' @ hex))]]) in
     tr = [switch] \<or>
     (\<exists>err s1 meta p. wl_request W (fst switch) (snd switch) s = (Inl err, s1) \<and> n \<in> {84532, 8453} \<and>
        getChainMeta (Some (JNum (num_of_int n))) = Inr meta \<and> cm_rpcUrl meta \<noteq> [] \<and>
        tr = [switch, (js ''wallet_addEthereumChain'', p)]))"
proof (intro exI [of _ "hex_digits (nat n)"] conjI)
  show "hex_value (hex_digits (nat n)) = nat n" by (rule hex_value_digits)
  define sw where "sw = (js ''wallet_switchEthereumChain'', JArr [JObj [(js ''chainId'', JStr (js ''0x'' @ hex_digits (nat n)))]])"
  have lit: "obj_lit [(''chainId'', Some (JStr h))] = JObj [(js ''chainId'', JStr h)]" for h
    by (simp add: obj_lit_def map_filter_simps)
  obtain x s1 where x: "wl_request W (fst sw) (snd sw) s = (x, s1)" by fastforce
  have first: "wl_request (traced_wallet W) (js ''wallet_switchEthereumChain'')
      (JArr [obj_lit [(''chainId'', Some (JStr (js ''0x'' @ hex_digits (nat n))))]]) (s, []) = (x, s1, [sw])"
    using x by (simp add: traced_wallet_def lit sw_def)
  have present: "hasWallet (traced_wallet W) (s, [])" using assms(3) by (simp add: hasWallet_def traced_wallet_def)
  have "tr = [sw] \<or> (\<exists>err meta p. x = Inl err \<and> n \<in> {84532, 8453} \<and>
        getChainMeta (Some (JNum (num_of_int n))) = Inr meta \<and> cm_rpcUrl meta \<noteq> [] \<and>
        tr = [sw, (js ''wallet_addEthereumChain'', p)])"
  proof (cases x)
    case (Inr u)
    then show ?thesis
      using assms(4) by (simp add: switchOrAddChain_def present toString16_nat [OF assms(1, 2)] first Let_def)
  next
    case (Inl err)
    then consider "tr = [sw]" | "addChain (traced_wallet W) (Some (JNum (num_of_int n))) (js ''0x'' @ hex_digits (nat n))
        (s1, [sw]) = (res, s', tr)"
      using assms(4)
      by (auto simp: switchOrAddChain_def present toString16_nat [OF assms(1, 2)] first Let_def
          split: sum.splits if_splits)
    then show ?thesis
      using addChain_trace [OF assms(1, 2)] Inl by cases fastforce+
  qed
  then show "let switch = (js ''wallet_switchEthereumChain'',
           JArr [JObj [(js ''chainId'', JStr (js ''0x'' @ hex_digits (nat n)))]]) in
     tr = [switch] \<or>
     (\<exists>err s1 meta p. wl_request W (fst switch) (snd switch) s = (Inl err, s1) \<and> n \<in> {84532, 8453} \<and>
        getChainMeta (Some (JNum (num_of_int n))) = Inr meta \<and> cm_rpcUrl meta \<noteq> [] \<and>
        tr = [switch, (js ''wallet_addEthereumChain'', p)])"
    using x by (auto simp: sw_def Let_def)
qed

definition sample_wallet :: "unit wallet" where
  "sample_wallet =
     \<lparr>wl_present = (\<lambda>_. True), wl_accounts = returnIO [], wl_requestAccounts = returnIO [],
      wl_getNetwork = returnIO 1, wl_request = (\<lambda>m p. returnIO ())\<rparr>"

lemma sample_wallet_sel [simp]: "wl_present sample_wallet s" "wl_request sample_wallet m p s = (Inr (), s)"
  by (simp_all add: sample_wallet_def returnIO_def)

theorem switch_requests_witness:
  "\<exists>hex. hex_value hex = 8453 \<and>
     snd (snd (switchOrAddChain sample_platform (\<lambda>_. \<lparr>tv_code = None, tv_message = None\<rparr>) (traced_wallet sample_wallet)
       (Some (JNum (num_of_int 8453))) ((), []))) =
     [(js ''wallet_switchEthereumChain'', JArr [JObj [(js ''chainId'', JStr (js ''0x'' @ hex))]])]"
proof -
  define R where "R = switchOrAddChain sample_platform (\<lambda>_. \<lparr>tv_code = None, tv_message = None\<rparr>)
    (traced_wallet sample_wallet) (Some (JNum (num_of_int 8453))) ((), [])"
  obtain res s' tr where R: "R = (res, s', tr)" by (cases R) auto
  show ?thesis
    using switch_requests [OF _ _ _ R [unfolded R_def]]
    by (auto simp: max_safe_integer_def Let_def R [unfolded R_def])
qed

text \<open>
  A shortened address is never longer than the address and shows both of its ends: for a
  positive number of characters, a longer address becomes its first \<open>chars + 2\<close> code units,
  an ellipsis and its last \<open>chars\<close>; a short one is shown whole.
\<close>

lemma shortenAddress_shape:
  assumes "0 < chars"
  shows "length (shortenAddress addr chars) \<le> length addr \<and>
    (length addr \<le> chars * 2 + 2 \<longrightarrow> shortenAddress addr chars = addr) \<and>
    (chars * 2 + 2 < length addr \<longrightarrow>
       length (shortenAddress addr chars) = chars * 2 + 3 \<and>
       prefix (take (chars + 2) addr) (shortenAddress addr chars) \<and>
       suffix (drop (length addr - chars) addr) (shortenAddress addr chars))"
  using assms by (auto simp: shortenAddress_def slice_last_def suffix_def)

lemma shortenAddress_shape_witness:
  "length (shortenAddress (js ''0x2cAF48b4BA1C58721a85dFADa5aC01C2DFa62219'') 4) = 11"
  using shortenAddress_shape [of 4 "js ''0x2cAF48b4BA1C58721a85dFADa5aC01C2DFa62219''"] by simp

end
