(* ===== verification/Analytics.thy ===== *)
theory Analytics
  imports JsValue Samples
begin

text \<open>
  Product analytics: \<^verbatim>\<open>web/src/lib/analytics.ts\<close>, \<^verbatim>\<open>web/src/lib/analytics-events.ts\<close> and
  \<^verbatim>\<open>web/src/lib/browser-analytics.ts\<close>.

  The PostHog client is a third-party module loaded on demand. It is a parameter: which of
  its calls throw; \<open>ph_calls\<close> lists the calls made of it. The module's variables are the
  record \<open>posthog_state\<close>, and its life (loading, loaded, failed) is a transition system with
  the invariant that nothing the client was or will be told holds a blocked property.
\<close>

section \<open>\<^verbatim>\<open>analytics.ts\<close>\<close>

type_synonym props = "(jstring \<times> json option) list"

definition BLOCKED_PROPERTY_KEYS :: "jstring set" where
  "BLOCKED_PROPERTY_KEYS =
     set (map js
       [''text'', ''prompt'', ''prompt_preview'', ''summary'', ''summary_text'', ''signature'',
        ''nonce'', ''receipt'', ''receipt_payload'', ''payment_context'', ''request_body'',
        ''response_body''])"

definition is_scalar_value :: "json option \<Rightarrow> bool" where
  "is_scalar_value v =
     (case v of
        Some JNull \<Rightarrow> True | Some (JBool _) \<Rightarrow> True | Some (JNum _) \<Rightarrow> True | Some (JStr _) \<Rightarrow> True
      | _ \<Rightarrow> False)"

text \<open>
  Assigning a scalar to \<^verbatim>\<open>__proto__\<close> makes no property, so that key is never in the result.
\<close>

fun sanitizeAnalyticsProperties :: "props \<Rightarrow> (jstring \<times> json) list" where
  "sanitizeAnalyticsProperties [] = []"
| "sanitizeAnalyticsProperties ((key, value) # rest) =
     (if key \<in> BLOCKED_PROPERTY_KEYS then sanitizeAnalyticsProperties rest
      else if value = None then sanitizeAnalyticsProperties rest
      else if is_scalar_value value \<and> key \<noteq> js ''__proto__''
      then (key, the value) # sanitizeAnalyticsProperties rest
      else sanitizeAnalyticsProperties rest)"

record FlowContext =
  flowRunId :: jstring
  correlationId :: jstring
  inputWordCount :: nat
  inputCharCount :: nat

definition createFlowContext :: "jstring \<Rightarrow> ('w \<Rightarrow> jstring \<times> 'w) \<Rightarrow> 'w \<Rightarrow> FlowContext \<times> 'w" where
  "createFlowContext text createId w =
     (let trimmed = trim text in
      case createId w of (a, w1) \<Rightarrow>
      case createId w1 of (b, w2) \<Rightarrow>
        (\<lparr>flowRunId = a, correlationId = b,
          inputWordCount = (if trimmed \<noteq> [] then length (split_spaces trimmed) else 0),
          inputCharCount = length text\<rparr>, w2))"

record 'w AnalyticsSink =
  sk_capture :: "jstring \<Rightarrow> (jstring \<times> json) list \<Rightarrow> ('w, thrown, unit) io"
  sk_identify :: "jstring \<Rightarrow> (jstring \<times> json) list \<Rightarrow> ('w, thrown, unit) io"
  sk_reset :: "('w, thrown, unit) io option"

record 'w AnalyticsClient =
  an_capture :: "jstring \<Rightarrow> props \<Rightarrow> 'w \<Rightarrow> 'w"
  an_identifyWallet :: "jstring \<Rightarrow> props \<Rightarrow> 'w \<Rightarrow> 'w"
  an_reset :: "'w \<Rightarrow> 'w"

definition invokeSafely :: "('w, thrown, unit) io \<Rightarrow> 'w \<Rightarrow> 'w" where
  "invokeSafely fn w = snd (fn w)"

definition createAnalytics :: "'w AnalyticsSink option \<Rightarrow> bool \<Rightarrow> 'w AnalyticsClient" where
  "createAnalytics sink_arg config_enabled =
     (let enabled = (config_enabled \<and> sink_arg \<noteq> None); sink = the sink_arg in
      \<lparr>an_capture = (\<lambda>event properties w.
         if \<not> enabled then w
         else invokeSafely (sk_capture sink event (sanitizeAnalyticsProperties properties)) w),
       an_identifyWallet = (\<lambda>walletAddress properties w.
         if \<not> enabled then w
         else invokeSafely (sk_identify sink walletAddress (sanitizeAnalyticsProperties properties)) w),
       an_reset = (\<lambda>w.
         if \<not> enabled then w
         else invokeSafely (case sk_reset sink of None \<Rightarrow> returnIO () | Some r \<Rightarrow> r) w)\<rparr>)"

section \<open>\<^verbatim>\<open>analytics-events.ts\<close>\<close>

datatype AnalyticsEvent =
    SamplePromptLoaded | SummaryRequested | PaymentChallengeReceived | WalletConnectRequested
  | WalletConnectSucceeded | WalletConnectFailed | ChainSwitchRequested | ChainSwitchSucceeded
  | ChainSwitchFailed | PaymentSignatureStarted | PaymentSignatureSucceeded
  | PaymentSignatureFailed | SignedRetrySent | SummaryCompleted | SummaryFailed
  | ReceiptHistoryViewed | SummaryCopied | ReceiptIdCopied

primrec event_name :: "AnalyticsEvent \<Rightarrow> string" where
  "event_name SamplePromptLoaded = ''sample prompt loaded''"
| "event_name SummaryRequested = ''summary requested''"
| "event_name PaymentChallengeReceived = ''payment challenge received''"
| "event_name WalletConnectRequested = ''wallet connect requested''"
| "event_name WalletConnectSucceeded = ''wallet connect succeeded''"
| "event_name WalletConnectFailed = ''wallet connect failed''"
| "event_name ChainSwitchRequested = ''chain switch requested''"
| "event_name ChainSwitchSucceeded = ''chain switch succeeded''"
| "event_name ChainSwitchFailed = ''chain switch failed''"
| "event_name PaymentSignatureStarted = ''payment signature started''"
| "event_name PaymentSignatureSucceeded = ''payment signature succeeded''"
| "event_name PaymentSignatureFailed = ''payment signature failed''"
| "event_name SignedRetrySent = ''signed retry sent''"
| "event_name SummaryCompleted = ''summary completed''"
| "event_name SummaryFailed = ''summary failed''"
| "event_name ReceiptHistoryViewed = ''receipt history viewed''"
| "event_name SummaryCopied = ''summary copied''"
| "event_name ReceiptIdCopied = ''receipt id copied''"

section \<open>\<^verbatim>\<open>browser-analytics.ts\<close>\<close>

text \<open>A function waiting in \<^verbatim>\<open>pendingOps\<close> calls one method of the client.\<close>

datatype posthog_op =
    Capture jstring "(jstring \<times> json) list"
  | Identify jstring "(jstring \<times> json) list"
  | ResetClient

record posthog_state =
  initialized :: bool
  initPromise :: bool
  posthogClient :: bool
  pendingOps :: "posthog_op list"
  ph_calls :: "posthog_op list"

record BrowserAnalyticsEnv =
  enabledFlag :: jstring
  be_token :: jstring
  be_host :: jstring
  hasWindow :: bool

definition readBrowserAnalyticsEnv ::
    "'sig platform \<Rightarrow> jstring option \<Rightarrow> jstring option \<Rightarrow> jstring option \<Rightarrow> bool \<Rightarrow> BrowserAnalyticsEnv" where
  "readBrowserAnalyticsEnv P enabled token host window =
     \<lparr>enabledFlag = lower P (trim (case enabled of None \<Rightarrow> js ''false'' | Some e \<Rightarrow> e)),
      be_token = (case token of None \<Rightarrow> [] | Some t \<Rightarrow> t),
      be_host = (case host of None \<Rightarrow> js ''https://us.i.posthog.com'' | Some h \<Rightarrow> h),
      hasWindow = window\<rparr>"

definition shouldEnablePostHog :: "BrowserAnalyticsEnv \<Rightarrow> bool" where
  "shouldEnablePostHog env \<longleftrightarrow>
     (enabledFlag env = js ''true'' \<or> enabledFlag env = js ''1'') \<and>
     0 < length (be_token env) \<and> hasWindow env"

text \<open>Calling a method of the client: the call is made, and may throw.\<close>

definition call_client :: "(posthog_op \<Rightarrow> bool) \<Rightarrow> posthog_op \<Rightarrow> (posthog_state, thrown, unit) io" where
  "call_client throws op st =
     (if throws op then Inl (Foreign (js ''posthog'')) else Inr (), st\<lparr>ph_calls := ph_calls st @ [op]\<rparr>)"

definition withPostHog :: "(posthog_op \<Rightarrow> bool) \<Rightarrow> posthog_op \<Rightarrow> (posthog_state, thrown, unit) io" where
  "withPostHog throws fn st =
     (if posthogClient st then call_client throws fn st
      else if initPromise st then (Inr (), st\<lparr>pendingOps := pendingOps st @ [fn]\<rparr>)
      else (Inr (), st))"

definition flushPendingOps :: "(posthog_op \<Rightarrow> bool) \<Rightarrow> posthog_state \<Rightarrow> posthog_state" where
  "flushPendingOps throws st =
     (if \<not> posthogClient st \<or> pendingOps st = [] then st
      else
        fold (\<lambda>op s. snd (call_client throws op s)) (pendingOps st) (st\<lparr>pendingOps := []\<rparr>))"

definition initBrowserAnalytics :: "BrowserAnalyticsEnv \<Rightarrow> posthog_state \<Rightarrow> posthog_state" where
  "initBrowserAnalytics env st =
     (if initialized st \<or> initPromise st \<or> \<not> shouldEnablePostHog env then st
      else st\<lparr>initPromise := True\<rparr>)"

text \<open>
  The two handlers of the loading promise. If \<^verbatim>\<open>posthog.init\<close> throws, the client variable is
  already set, and the second handler runs in a later turn.
\<close>

definition posthog_loaded :: "(posthog_op \<Rightarrow> bool) \<Rightarrow> bool \<Rightarrow> posthog_state \<Rightarrow> posthog_state" where
  "posthog_loaded throws init_throws st =
     (let st1 = st\<lparr>posthogClient := True\<rparr> in
      if init_throws then st1 else flushPendingOps throws (st1\<lparr>initialized := True\<rparr>))"

definition posthog_failed :: "posthog_state \<Rightarrow> posthog_state" where
  "posthog_failed st =
     st\<lparr>initialized := False, initPromise := False, posthogClient := False, pendingOps := []\<rparr>"

definition browser_sink :: "(posthog_op \<Rightarrow> bool) \<Rightarrow> posthog_state AnalyticsSink" where
  "browser_sink throws =
     \<lparr>sk_capture = (\<lambda>event properties. withPostHog throws (Capture event properties)),
      sk_identify = (\<lambda>distinctId properties. withPostHog throws (Identify distinctId properties)),
      sk_reset = Some (withPostHog throws ResetClient)\<rparr>"

definition browserAnalytics ::
    "(posthog_op \<Rightarrow> bool) \<Rightarrow> BrowserAnalyticsEnv \<Rightarrow> posthog_state AnalyticsClient" where
  "browserAnalytics throws env = createAnalytics (Some (browser_sink throws)) (shouldEnablePostHog env)"

section \<open>What reaches the client\<close>

definition clean_props :: "(jstring \<times> json) list \<Rightarrow> bool" where
  "clean_props ps \<longleftrightarrow>
     list_all (\<lambda>(k, v). k \<notin> BLOCKED_PROPERTY_KEYS \<and> is_scalar_value (Some v)) ps"

primrec clean_op :: "posthog_op \<Rightarrow> bool" where
  "clean_op (Capture ev ps) = clean_props ps"
| "clean_op (Identify ident ps) = clean_props ps"
| "clean_op ResetClient = True"

lemma sanitize_set:
  "(k, v) \<in> set (sanitizeAnalyticsProperties ps) \<longleftrightarrow>
     (k, Some v) \<in> set ps \<and> k \<notin> BLOCKED_PROPERTY_KEYS \<and> is_scalar_value (Some v) \<and> k \<noteq> js ''__proto__''"
  by (induction ps rule: sanitizeAnalyticsProperties.induct) auto

lemma sanitize_clean: "clean_props (sanitizeAnalyticsProperties ps)"
  by (auto simp: clean_props_def list_all_iff sanitize_set)

lemma fold_calls:
  "fold (\<lambda>op s. snd (call_client throws op s)) ops st = st\<lparr>ph_calls := ph_calls st @ ops\<rparr>"
  by (induction ops arbitrary: st) (simp_all add: call_client_def)

lemma flush_eq:
  "flushPendingOps throws st =
     (if posthogClient st then st\<lparr>pendingOps := [], ph_calls := ph_calls st @ pendingOps st\<rparr> else st)"
  by (simp add: flushPendingOps_def fold_calls)

text \<open>
  \<^verbatim>\<open>web/instrumentation-client.ts\<close> calls the initialisation when the client starts and ignores what
  it throws; the reset for the tests puts the module's variables back.
\<close>

definition instrumentation_client :: "BrowserAnalyticsEnv \<Rightarrow> posthog_state \<Rightarrow> posthog_state" where
  "instrumentation_client env st = initBrowserAnalytics env st"

definition resetBrowserAnalyticsForTests :: "posthog_state \<Rightarrow> posthog_state" where
  "resetBrowserAnalyticsForTests st =
     st\<lparr>initialized := False, initPromise := False, posthogClient := False, pendingOps := []\<rparr>"

section \<open>The life of the module\<close>

text \<open>
  The steps are the public operations, in any environment, and the two handlers of the
  loading promise, which run only after loading was started.
\<close>

inductive posthog_step :: "posthog_state \<Rightarrow> posthog_state \<Rightarrow> bool" where
  init_call: "posthog_step st (initBrowserAnalytics env st)"
| loaded: "initPromise st \<Longrightarrow> \<not> posthogClient st \<Longrightarrow> posthog_step st (posthog_loaded throws init_throws st)"
| failed: "initPromise st \<Longrightarrow> \<not> initialized st \<Longrightarrow> posthog_step st (posthog_failed st)"
| capture_call: "posthog_step st (an_capture (browserAnalytics throws env) ev ps st)"
| identify_call: "posthog_step st (an_identifyWallet (browserAnalytics throws env) ident ps st)"
| reset_call: "posthog_step st (an_reset (browserAnalytics throws env) st)"

definition posthog_init :: "posthog_state \<Rightarrow> bool" where
  "posthog_init st \<longleftrightarrow>
     st = \<lparr>initialized = False, initPromise = False, posthogClient = False, pendingOps = [], ph_calls = []\<rparr>"

definition posthog_inv :: "posthog_state \<Rightarrow> bool" where
  "posthog_inv st \<longleftrightarrow>
     list_all clean_op (pendingOps st) \<and> list_all clean_op (ph_calls st) \<and>
     (pendingOps st \<noteq> [] \<longrightarrow> initPromise st) \<and> (initialized st \<longrightarrow> posthogClient st \<and> pendingOps st = []) \<and>
     (posthogClient st \<longrightarrow> initPromise st)"

lemma withPostHog_inv: "clean_op op \<Longrightarrow> posthog_inv st \<Longrightarrow> posthog_inv (snd (withPostHog throws op st))"
  by (auto simp: withPostHog_def call_client_def posthog_inv_def)

lemma posthog_step_inv: "posthog_step st st' \<Longrightarrow> posthog_inv st \<Longrightarrow> posthog_inv st'"
proof (induction rule: posthog_step.induct)
  case (init_call st env)
  then show ?case by (auto simp: initBrowserAnalytics_def posthog_inv_def)
next
  case (loaded st throws init_throws)
  then show ?case by (auto simp: posthog_loaded_def flush_eq posthog_inv_def Let_def)
next
  case (failed st)
  then show ?case by (auto simp: posthog_failed_def posthog_inv_def)
qed (auto simp: browserAnalytics_def createAnalytics_def browser_sink_def invokeSafely_def Let_def
    sanitize_clean withPostHog_inv)

interpretation posthog: transition_system posthog_init posthog_step posthog_inv
proof
  fix st
  assume "posthog_init st"
  then show "posthog_inv st" by (simp add: posthog_init_def posthog_inv_def)
next
  fix st st'
  assume "posthog_inv st" "posthog_step st st'"
  then show "posthog_inv st'" by (rule posthog_step_inv [rotated])
qed

section \<open>Properties\<close>

text \<open>
  Sanitising keeps exactly the properties that are scalar and not blocked.
\<close>

lemma sanitize_exact:
  "set (sanitizeAnalyticsProperties ps) =
     {(k, v). (k, Some v) \<in> set ps \<and> k \<notin> BLOCKED_PROPERTY_KEYS \<and> is_scalar_value (Some v) \<and>
        k \<noteq> js ''__proto__''}"
  by (auto simp: sanitize_set)

text \<open>C28:
  Private data never reaches the analytics provider: in every history of the module
  (loading, failing to load, calls before, during and after loading), no call the provider
  received and no call waiting for it carries a blocked property or a value that is not a
  scalar.
\<close>

theorem posthog_never_sees_blocked:
  assumes "posthog_init st" "posthog_step\<^sup>*\<^sup>* st st'"
  shows "list_all clean_op (ph_calls st') \<and> list_all clean_op (pendingOps st')"
  using posthog.inv_reachable [OF assms] by (simp add: posthog_inv_def)

definition fresh_posthog :: posthog_state where
  "fresh_posthog = \<lparr>initialized = False, initPromise = False, posthogClient = False, pendingOps = [], ph_calls = []\<rparr>"

definition sample_env :: BrowserAnalyticsEnv where
  "sample_env = \<lparr>enabledFlag = js ''true'', be_token = js ''t'', be_host = [], hasWindow = True\<rparr>"

theorem posthog_never_sees_blocked_witness:
  "list_all clean_op (ph_calls (posthog_loaded (\<lambda>_. False) False (initBrowserAnalytics sample_env fresh_posthog)))"
proof -
  have "posthog_step fresh_posthog (initBrowserAnalytics sample_env fresh_posthog)" by (rule init_call)
  moreover have "posthog_step (initBrowserAnalytics sample_env fresh_posthog)
      (posthog_loaded (\<lambda>_. False) False (initBrowserAnalytics sample_env fresh_posthog))"
    by (rule loaded) (simp_all add: initBrowserAnalytics_def sample_env_def fresh_posthog_def shouldEnablePostHog_def)
  ultimately show ?thesis
    using posthog_never_sees_blocked [of fresh_posthog, OF _ rtranclp.rtrancl_into_rtrancl, OF _ r_into_rtranclp]
    by (simp add: posthog_init_def fresh_posthog_def)
qed

text \<open>C29:
  No event is lost or reordered while the provider loads: once loading has started, the
  operations issued before it finishes and those issued after are received exactly once
  each, in the order they were issued, even if calls of the provider throw.
\<close>

theorem queued_operations_delivered:
  assumes "posthog_init st" "shouldEnablePostHog env"
  shows "ph_calls
      (fold (\<lambda>op s. snd (withPostHog throws op s)) later
        (posthog_loaded throws False
          (fold (\<lambda>op s. snd (withPostHog throws op s)) early (initBrowserAnalytics env st)))) =
    early @ later"
proof -
  have queue: "fold (\<lambda>op s. snd (withPostHog throws op s)) ops s = s\<lparr>pendingOps := pendingOps s @ ops\<rparr>"
    if "initPromise s" "\<not> posthogClient s" for ops s
    using that by (induction ops arbitrary: s) (simp_all add: withPostHog_def)
  have direct: "fold (\<lambda>op s. snd (withPostHog throws op s)) ops s = s\<lparr>ph_calls := ph_calls s @ ops\<rparr>"
    if "posthogClient s" for ops s
    using that by (induction ops arbitrary: s) (simp_all add: withPostHog_def call_client_def)
  show ?thesis
    using assms
    by (simp add: posthog_init_def initBrowserAnalytics_def queue direct posthog_loaded_def flush_eq)
qed

theorem queued_operations_delivered_witness:
  "ph_calls
     (fold (\<lambda>op s. snd (withPostHog (\<lambda>_. True) op s)) [ResetClient]
       (posthog_loaded (\<lambda>_. True) False
         (fold (\<lambda>op s. snd (withPostHog (\<lambda>_. True) op s)) [Capture (js ''a'') []]
           (initBrowserAnalytics sample_env fresh_posthog)))) =
   [Capture (js ''a'') [], ResetClient]"
  using queued_operations_delivered [of fresh_posthog sample_env "\<lambda>_. True" "[ResetClient]" "[Capture (js ''a'') []]"]
  by (simp add: posthog_init_def fresh_posthog_def sample_env_def shouldEnablePostHog_def)

end
