(* ===== verification/UseX402.thy ===== *)
theory UseX402
  imports WebErrors ReceiptStorage Wallet Analytics
begin

text \<open>
  The payment flow of the web page: \<^verbatim>\<open>web/src/hooks/use-x402.ts\<close> and the step type of
  \<^verbatim>\<open>web/src/lib/types.ts\<close>.

  \<^verbatim>\<open>submit\<close> is an asynchronous function that can be started again, or be cancelled by
  \<^verbatim>\<open>reset\<close>, while an earlier call still waits. A call is a \<open>run\<close>: its local variables and a
  program counter, one constructor of \<open>pc\<close> per \<^verbatim>\<open>await\<close>. \<open>resume\<close> continues a run with the
  outcome of what it waits for, up to its next \<^verbatim>\<open>await\<close> or its end. \<open>hook\<close> is what the runs
  share: the React state, the run counter, and logs of the calls with outside effects.

  Steps of the transition system are: a submission, a reset, the continuation of any run
  with any outcome, and the firing of a run's timer, in every order.
\<close>

section \<open>State\<close>

datatype X402Step =
    S_idle | S_request | S_challenge | S_sign | S_verify | S_ai | S_receipt | S_done | S_error

record UseX402State =
  us_step :: X402Step
  us_summary :: "json option"
  us_receipt :: "json option"
  us_error :: "ClassifiedError option"
  us_isRunning :: bool

definition INITIAL_STATE :: UseX402State where
  "INITIAL_STATE =
     \<lparr>us_step = S_idle, us_summary = None, us_receipt = None, us_error = None,
      us_isRunning = False\<rparr>"

datatype stage =
    At_request | At_wallet_connect | At_chain_lookup | At_chain_switch | At_signer | At_sign
  | At_verify | At_done

primrec stage_name :: "stage \<Rightarrow> string" where
  "stage_name At_request = ''request''"
| "stage_name At_wallet_connect = ''wallet-connect''"
| "stage_name At_chain_lookup = ''chain-lookup''"
| "stage_name At_chain_switch = ''chain-switch''"
| "stage_name At_signer = ''signer''"
| "stage_name At_sign = ''sign''"
| "stage_name At_verify = ''verify''"
| "stage_name At_done = ''done''"

text \<open>
  What a run waits for. The values are the local variables that are still used: the first
  answer, the payment context, the account, the signature.
\<close>

datatype pc =
    AwaitFirst
  | AwaitFirstSuccess response
  | AwaitFirstText response
  | AwaitChallenge response
  | AwaitAccount json
  | AwaitConnect json
  | AwaitChain json jstring
  | AwaitSwitch json jstring
  | AwaitPostSwitch json jstring
  | AwaitSigner json jstring
  | AwaitSign json jstring
  | AwaitLiveAccount json jstring jstring
  | AwaitRetry
  | AwaitRetryText response
  | AwaitRetrySuccess response
  | Finished

text \<open>The outcome a run is continued with; a response carries the outcome of reading it.\<close>

datatype outcome =
    Responded "(thrown, response) result"
  | BodyRead
  | AccountIs "(thrown, jstring option) result"
  | Connected "(thrown, jstring) result"
  | ChainIs "(thrown, jsnum option) result"
  | Switched "(thrown, unit) result"
  | SignerReady "(thrown, unit) result"
  | Signed "(thrown, jstring) result"

record run =
  run_id :: nat
  run_text :: jstring
  run_flow :: FlowContext
  run_stage :: stage
  run_pc :: pc
  run_timer :: bool

text \<open>Calls a run makes and then awaits.\<close>

datatype flow_call =
    PostSummarize jstring props
  | GetAccount
  | Connect
  | GetChain
  | SwitchChain "json option"
  | GetSigner jstring
  | SignContext json

record hook =
  h_state :: UseX402State
  h_runId :: nat
  h_runs :: "nat \<Rightarrow> run option"
  h_events :: "(AnalyticsEvent \<times> props) list"
  h_identified :: "(jstring \<times> props) list"
  h_saved :: "(json \<times> jstring) list"
  h_calls :: "(nat \<times> flow_call) list"

section \<open>The helpers inside \<^verbatim>\<open>submit\<close>\<close>

definition isCurrent :: "run \<Rightarrow> hook \<Rightarrow> bool" where
  "isCurrent r h \<longleftrightarrow> h_runId h = run_id r"

definition update :: "run \<Rightarrow> (UseX402State \<Rightarrow> UseX402State) \<Rightarrow> hook \<Rightarrow> hook" where
  "update r patch h = (if h_runId h \<noteq> run_id r then h else h\<lparr>h_state := patch (h_state h)\<rparr>)"

definition track :: "run \<Rightarrow> AnalyticsEvent \<Rightarrow> props \<Rightarrow> hook \<Rightarrow> hook" where
  "track r ev ps h = (if \<not> isCurrent r h then h else h\<lparr>h_events := h_events h @ [(ev, ps)]\<rparr>)"

definition identify :: "run \<Rightarrow> jstring \<Rightarrow> props \<Rightarrow> hook \<Rightarrow> hook" where
  "identify r walletAddress ps h =
     (if \<not> isCurrent r h then h else h\<lparr>h_identified := h_identified h @ [(walletAddress, ps)]\<rparr>)"

definition num :: "int \<Rightarrow> json option" where
  "num n = Some (JNum (num_of_int n))"

definition str :: "string \<Rightarrow> json option" where
  "str s = Some (JStr (js s))"

definition flowProps :: "run \<Rightarrow> props" where
  "flowProps r =
     [(js ''flow_run_id'', Some (JStr (flowRunId (run_flow r)))),
      (js ''correlation_id'', Some (JStr (correlationId (run_flow r)))),
      (js ''input_word_count'', num (int (inputWordCount (run_flow r)))),
      (js ''input_char_count'', num (int (inputCharCount (run_flow r))))]"

primrec kind_name :: "ErrorKind \<Rightarrow> string" where
  "kind_name no_wallet = ''no-wallet''"
| "kind_name wrong_chain = ''wrong-chain''"
| "kind_name user_rejected = ''user-rejected''"
| "kind_name expired = ''expired''"
| "kind_name duplicate_nonce = ''duplicate-nonce''"
| "kind_name invalid_signature = ''invalid-signature''"
| "kind_name rate_limited = ''rate-limited''"
| "kind_name ai_timeout = ''ai-timeout''"
| "kind_name ai_unavailable = ''ai-unavailable''"
| "kind_name verifier_timeout = ''verifier-timeout''"
| "kind_name verifier_unavailable = ''verifier-unavailable''"
| "kind_name network = ''network''"
| "kind_name unknown = ''unknown''"

definition call_log :: "run \<Rightarrow> flow_call \<Rightarrow> hook \<Rightarrow> hook" where
  "call_log r c h = h\<lparr>h_calls := h_calls h @ [(run_id r, c)]\<rparr>"

definition safeText :: "response \<Rightarrow> jstring" where
  "safeText res = (case r_text res of Inl _ \<Rightarrow> [] | Inr t \<Rightarrow> t)"

text \<open>\<^verbatim>\<open>summary.length\<close>\<close>

definition length_of :: "json \<Rightarrow> json option" where
  "length_of v =
     (case v of
        JStr s \<Rightarrow> num (int (length s)) | JArr vs \<Rightarrow> num (int (length vs)) | _ \<Rightarrow> field (Some v) ''length'')"

text \<open>\<^verbatim>\<open>currentChain === context.chainId\<close>\<close>

definition same_chain :: "jsnum option \<Rightarrow> json option \<Rightarrow> bool" where
  "same_chain current wanted =
     (case (current, wanted) of
        (Some x, Some (JNum y)) \<Rightarrow> x = y \<and> x \<noteq> NaN
      | (None, Some JNull) \<Rightarrow> True
      | _ \<Rightarrow> False)"

text \<open>
  What \<^verbatim>\<open>classifyError\<close> sees of a thrown value: the application's own errors have a message
  and nothing else; \<open>view\<close> says it for errors of the language and of third parties.
\<close>

definition error_value_of :: "(thrown \<Rightarrow> error_value) \<Rightarrow> thrown \<Rightarrow> error_value" where
  "error_value_of view e = (case e of JsError m \<Rightarrow> ErrorObject None (Some m) None | _ \<Rightarrow> view e)"

section \<open>The \<^verbatim>\<open>catch\<close> of \<^verbatim>\<open>submit\<close>\<close>

definition failure_event :: "stage \<Rightarrow> AnalyticsEvent" where
  "failure_event st =
     (if st = At_wallet_connect then WalletConnectFailed
      else if st = At_chain_switch then ChainSwitchFailed
      else if st = At_sign then PaymentSignatureFailed
      else if st = At_signer then PaymentSignatureFailed
      else if st = At_verify then SummaryFailed
      else SummaryFailed)"

definition caught ::
    "'sig platform \<Rightarrow> (thrown \<Rightarrow> error_value) \<Rightarrow> run \<Rightarrow> thrown \<Rightarrow> hook \<Rightarrow> run \<times> hook" where
  "caught P view r err h =
     (let r' = r\<lparr>run_pc := Finished, run_timer := False\<rparr> in
      if h_runId h \<noteq> run_id r then (r', h)
      else
        (let classified = classifyError P (error_value_of view err) no_context;
             h1 = track r (failure_event (run_stage r))
               (flowProps r @ [(js ''stage'', str (stage_name (run_stage r))),
                 (js ''error_kind'', str (kind_name (ce_kind classified)))]) h
         in (r', update r (\<lambda>s. s\<lparr>us_error := Some classified, us_isRunning := False\<rparr>) h1)))"

section \<open>\<^verbatim>\<open>reset\<close> and the start of \<^verbatim>\<open>submit\<close>\<close>

definition reset_hook :: "hook \<Rightarrow> hook" where
  "reset_hook h = h\<lparr>h_runId := h_runId h + 1, h_state := INITIAL_STATE\<rparr>"

text \<open>
  \<open>flow\<close> is the result of \<^verbatim>\<open>createFlowContext(text)\<close> with the identifiers it generated;
  \<open>wallet\<close> is the value of \<^verbatim>\<open>hasWallet()\<close> at that moment.
\<close>

definition submit :: "jstring \<Rightarrow> FlowContext \<Rightarrow> bool \<Rightarrow> hook \<Rightarrow> hook" where
  "submit text flow wallet h =
     (if trim text = [] then h
      else
        (let myRun = h_runId h + 1;
             r = \<lparr>run_id = myRun, run_text = text, run_flow = flow, run_stage = At_request,
                  run_pc = AwaitFirst, run_timer = False\<rparr>;
             h1 = h\<lparr>h_runId := myRun\<rparr>;
             h2 = update r (\<lambda>s. s\<lparr>us_step := S_request, us_summary := None, us_receipt := None,
                    us_error := None, us_isRunning := True\<rparr>) h1;
             h3 = track r SummaryRequested
                    (flowProps r @ [(js ''wallet_available'', Some (JBool wallet))]) h2;
             h4 = call_log r (PostSummarize text
                    [(js ''X-Correlation-ID'', Some (JStr (correlationId flow)))]) h3
         in h4\<lparr>h_runs := (h_runs h4)(myRun \<mapsto> r)\<rparr>))"

section \<open>The segments of \<^verbatim>\<open>submit\<close> between two \<^verbatim>\<open>await\<close>s\<close>

text \<open>
  The end of a paid or free run. The receipt has passed the format check, so \<^verbatim>\<open>saveReceipt\<close>
  does not throw here.
\<close>

definition complete_run ::
    "'sig platform \<Rightarrow> (thrown \<Rightarrow> error_value) \<Rightarrow> run \<Rightarrow> response \<Rightarrow> hook \<Rightarrow> run \<times> hook" where
  "complete_run P view r res h =
     (case readSummarizeSuccess res of
        Inl e \<Rightarrow> caught P view r e h
      | Inr success \<Rightarrow>
          (let summary = ss_summary success; receipt = ss_receipt success;
               h1 = (if truthy receipt then h\<lparr>h_saved := h_saved h @ [(the receipt, run_text r)]\<rparr> else h);
               h2 = track r SummaryCompleted
                      (flowProps r @
                        [(js ''status_code'', num (r_status res)),
                         (js ''has_receipt'', Some (JBool (truthy receipt))),
                         (js ''summary_char_count'', length_of summary)]) h1;
               h3 = update r (\<lambda>s. s\<lparr>us_step := S_done, us_summary := Some summary,
                      us_receipt := receipt, us_isRunning := False\<rparr>) h2
           in (r\<lparr>run_stage := At_done, run_pc := Finished\<rparr>, h3)))"

definition failed_status :: "'sig platform \<Rightarrow> response \<Rightarrow> ClassifiedError" where
  "failed_status P res =
     classifyError P (ErrorOther (js ''null''))
       \<lparr>ec_status = Some (r_status res), ec_bodyText = Some (safeText res)\<rparr>"

definition track_failed_status :: "'sig platform \<Rightarrow> run \<Rightarrow> response \<Rightarrow> hook \<Rightarrow> hook" where
  "track_failed_status P r res h =
     track r SummaryFailed
       (flowProps r @
         [(js ''stage'', str (stage_name (run_stage r))), (js ''status_code'', num (r_status res)),
          (js ''error_kind'', str (kind_name (ce_kind (failed_status P res))))]) h"

definition after_first_text :: "'sig platform \<Rightarrow> run \<Rightarrow> response \<Rightarrow> hook \<Rightarrow> run \<times> hook" where
  "after_first_text P r res h =
     (r\<lparr>run_pc := Finished\<rparr>,
      update r (\<lambda>s. s\<lparr>us_error := Some (failed_status P res), us_isRunning := False\<rparr>)
        (track_failed_status P r res h))"

definition after_first :: "run \<Rightarrow> response \<Rightarrow> hook \<Rightarrow> run \<times> hook" where
  "after_first r first h =
     (if r_status first = 200 then
        (r\<lparr>run_pc := AwaitFirstSuccess first\<rparr>, update r (\<lambda>s. s\<lparr>us_step := S_receipt\<rparr>) h)
      else if r_status first \<noteq> 402 then (r\<lparr>run_pc := AwaitFirstText first\<rparr>, h)
      else
        (r\<lparr>run_pc := AwaitChallenge first\<rparr>, update r (\<lambda>s. s\<lparr>us_step := S_challenge\<rparr>) h))"

definition after_challenge ::
    "'sig platform \<Rightarrow> (thrown \<Rightarrow> error_value) \<Rightarrow> bool \<Rightarrow> run \<Rightarrow> response \<Rightarrow> hook \<Rightarrow> run \<times> hook" where
  "after_challenge P view wallet r first h =
     (case readPaymentChallenge first of
        Inl e \<Rightarrow> caught P view r e h
      | Inr ctx \<Rightarrow>
          (let h1 = track r PaymentChallengeReceived
                 (flowProps r @
                   [(js ''status_code'', num (r_status first)),
                    (js ''chain_id'', field (Some ctx) ''chainId''),
                    (js ''payment_amount'', field (Some ctx) ''amount''),
                    (js ''payment_token'', field (Some ctx) ''token'')]) h
           in
           if \<not> wallet then
             (r\<lparr>run_pc := Finished\<rparr>,
              update r (\<lambda>s. s\<lparr>us_error := Some (classifyError P
                  (error_value_of view (JsError (js ''No crypto wallet found''))) no_context),
                  us_isRunning := False\<rparr>)
                (track r WalletConnectFailed
                  (flowProps r @
                    [(js ''stage'', str ''wallet-connect''), (js ''error_kind'', str ''no-wallet'')]) h1))
           else
             (r\<lparr>run_stage := At_wallet_connect, run_pc := AwaitAccount ctx\<rparr>,
              call_log r GetAccount h1)))"

definition with_account :: "run \<Rightarrow> json \<Rightarrow> jstring \<Rightarrow> hook \<Rightarrow> run \<times> hook" where
  "with_account r ctx account h =
     (r\<lparr>run_stage := At_chain_lookup, run_pc := AwaitChain ctx account\<rparr>, call_log r GetChain h)"

definition after_account :: "run \<Rightarrow> json \<Rightarrow> jstring option \<Rightarrow> hook \<Rightarrow> run \<times> hook" where
  "after_account r ctx account h =
     (case account of
        Some a \<Rightarrow>
          if a \<noteq> [] then with_account r ctx a h
          else
            (r\<lparr>run_pc := AwaitConnect ctx\<rparr>, call_log r Connect (track r WalletConnectRequested (flowProps r) h))
      | None \<Rightarrow>
          (r\<lparr>run_pc := AwaitConnect ctx\<rparr>, call_log r Connect (track r WalletConnectRequested (flowProps r) h)))"

definition after_connect :: "run \<Rightarrow> json \<Rightarrow> jstring \<Rightarrow> hook \<Rightarrow> run \<times> hook" where
  "after_connect r ctx account h =
     with_account r ctx account
       (track r WalletConnectSucceeded
         (flowProps r @ [(js ''wallet_connected'', Some (JBool True))]) h)"

definition chain_ready :: "run \<Rightarrow> json \<Rightarrow> jstring \<Rightarrow> hook \<Rightarrow> run \<times> hook" where
  "chain_ready r ctx account h =
     (r\<lparr>run_stage := At_signer, run_pc := AwaitSigner ctx account\<rparr>, call_log r (GetSigner account) h)"

definition after_chain :: "run \<Rightarrow> json \<Rightarrow> jstring \<Rightarrow> jsnum option \<Rightarrow> hook \<Rightarrow> run \<times> hook" where
  "after_chain r ctx account currentChain h =
     (let wanted = field (Some ctx) ''chainId'' in
      if \<not> same_chain currentChain wanted then
        (r\<lparr>run_stage := At_chain_switch, run_pc := AwaitSwitch ctx account\<rparr>,
         call_log r (SwitchChain wanted)
           (track r ChainSwitchRequested
             (flowProps r @
               [(js ''chain_id'', wanted),
                (js ''current_chain_id'',
                 (case currentChain of None \<Rightarrow> Some JNull | Some x \<Rightarrow> Some (JNum x)))]) h))
      else chain_ready r ctx account h)"

definition after_switch :: "run \<Rightarrow> json \<Rightarrow> jstring \<Rightarrow> hook \<Rightarrow> run \<times> hook" where
  "after_switch r ctx account h = (r\<lparr>run_pc := AwaitPostSwitch ctx account\<rparr>, call_log r GetChain h)"

text \<open>The message of the error shows both chain ids; converting them may itself throw.\<close>

definition switch_error :: "json option \<Rightarrow> jsnum option \<Rightarrow> thrown" where
  "switch_error wanted postSwitch =
     (case bindR (String_of wanted) (\<lambda>a.
           bindR (String_of (case postSwitch of None \<Rightarrow> Some JNull | Some x \<Rightarrow> Some (JNum x))) (\<lambda>b.
           Inr (js ''Wallet did not switch to chain '' @ a @ js '' (still on '' @ b @
             js ''). Switch manually and retry.'')))
      of Inl e \<Rightarrow> e | Inr m \<Rightarrow> JsError m)"

definition after_post_switch ::
    "'sig platform \<Rightarrow> (thrown \<Rightarrow> error_value) \<Rightarrow> run \<Rightarrow> json \<Rightarrow> jstring \<Rightarrow> jsnum option \<Rightarrow> hook \<Rightarrow>
       run \<times> hook" where
  "after_post_switch P view r ctx account postSwitch h =
     (let wanted = field (Some ctx) ''chainId'' in
      if \<not> same_chain postSwitch wanted then caught P view r (switch_error wanted postSwitch) h
      else
        chain_ready r ctx account
          (track r ChainSwitchSucceeded (flowProps r @ [(js ''chain_id'', wanted)]) h))"

definition after_signer :: "run \<Rightarrow> json \<Rightarrow> jstring \<Rightarrow> hook \<Rightarrow> run \<times> hook" where
  "after_signer r ctx account h =
     (let h1 = update r (\<lambda>s. s\<lparr>us_step := S_sign\<rparr>) h;
          h2 = track r PaymentSignatureStarted
                 (flowProps r @ [(js ''chain_id'', field (Some ctx) ''chainId'')]) h1
      in (r\<lparr>run_stage := At_sign, run_pc := AwaitSign ctx account\<rparr>, call_log r (SignContext ctx) h2))"

definition after_sign :: "run \<Rightarrow> json \<Rightarrow> jstring \<Rightarrow> jstring \<Rightarrow> hook \<Rightarrow> run \<times> hook" where
  "after_sign r ctx account signature h =
     (r\<lparr>run_pc := AwaitLiveAccount ctx account signature\<rparr>, call_log r GetAccount h)"

text \<open>Spreading the correlation id over the signed headers.\<close>

definition retry_headers :: "run \<Rightarrow> props \<Rightarrow> props" where
  "retry_headers r hs = put (js ''X-Correlation-ID'') (Some (JStr (correlationId (run_flow r)))) hs"

definition after_live_account ::
    "'sig platform \<Rightarrow> (thrown \<Rightarrow> error_value) \<Rightarrow> run \<Rightarrow> json \<Rightarrow> jstring \<Rightarrow> jstring \<Rightarrow> jstring option \<Rightarrow>
       hook \<Rightarrow> run \<times> hook" where
  "after_live_account P view r ctx account signature liveAccount h =
     (let chain = (js ''chain_id'', field (Some ctx) ''chainId'');
          h1 = (case liveAccount of
                  Some l \<Rightarrow>
                    if l \<noteq> [] \<and> lower P l = lower P account
                    then identify r account [(js ''wallet_connected'', Some (JBool True)), chain] h
                    else h
                | None \<Rightarrow> h);
          h2 = track r PaymentSignatureSucceeded (flowProps r @ [chain]) h1;
          h3 = update r (\<lambda>s. s\<lparr>us_step := S_verify\<rparr>) h2;
          r1 = r\<lparr>run_stage := At_verify\<rparr>;
          h4 = track r SignedRetrySent (flowProps r @ [chain]) h3
      in
      case web_buildSignedHeaders ctx signature of
        Inl e \<Rightarrow> caught P view r1 e h4
      | Inr hs \<Rightarrow>
          (r1\<lparr>run_pc := AwaitRetry, run_timer := True\<rparr>,
           call_log r (PostSummarize (run_text r) (retry_headers r hs)) h4))"

definition after_retry :: "run \<Rightarrow> response \<Rightarrow> hook \<Rightarrow> run \<times> hook" where
  "after_retry r retry h =
     (if \<not> response_ok retry then (r\<lparr>run_pc := AwaitRetryText retry\<rparr>, h)
      else (r\<lparr>run_pc := AwaitRetrySuccess retry\<rparr>, update r (\<lambda>s. s\<lparr>us_step := S_receipt\<rparr>) h))"

text \<open>The end of a paid run repeats the end of a free one.\<close>

definition after_retry_success ::
    "'sig platform \<Rightarrow> (thrown \<Rightarrow> error_value) \<Rightarrow> run \<Rightarrow> response \<Rightarrow> hook \<Rightarrow> run \<times> hook" where
  [simp]: "after_retry_success P view r retry h = complete_run P view r retry h"

definition after_retry_text :: "'sig platform \<Rightarrow> run \<Rightarrow> response \<Rightarrow> hook \<Rightarrow> run \<times> hook" where
  "after_retry_text P r retry h =
     (let classified = failed_status P retry; h1 = track_failed_status P r retry h in
      (r\<lparr>run_pc := Finished\<rparr>,
       if ce_kind classified = ai_timeout \<or> ce_kind classified = ai_unavailable
       then update r (\<lambda>s. s\<lparr>us_step := S_ai, us_error := Some classified, us_isRunning := False\<rparr>) h1
       else update r (\<lambda>s. s\<lparr>us_error := Some classified, us_isRunning := False\<rparr>) h1))"

section \<open>Continuing a run\<close>

text \<open>\<open>None\<close> if the outcome is not one of what the run waits for.\<close>

definition resume ::
    "'sig platform \<Rightarrow> (thrown \<Rightarrow> error_value) \<Rightarrow> bool \<Rightarrow> run \<Rightarrow> outcome \<Rightarrow> hook \<Rightarrow> (run \<times> hook) option" where
  "resume P view wallet r ans h =
     (case (run_pc r, ans) of
        (AwaitFirst, Responded (Inr first)) \<Rightarrow> Some (after_first r first h)
      | (AwaitFirst, Responded (Inl e)) \<Rightarrow> Some (caught P view r e h)
      | (AwaitFirstSuccess first, BodyRead) \<Rightarrow> Some (complete_run P view r first h)
      | (AwaitFirstText first, BodyRead) \<Rightarrow> Some (after_first_text P r first h)
      | (AwaitChallenge first, BodyRead) \<Rightarrow> Some (after_challenge P view wallet r first h)
      | (AwaitAccount ctx, AccountIs (Inr a)) \<Rightarrow> Some (after_account r ctx a h)
      | (AwaitAccount ctx, AccountIs (Inl e)) \<Rightarrow> Some (caught P view r e h)
      | (AwaitConnect ctx, Connected (Inr a)) \<Rightarrow> Some (after_connect r ctx a h)
      | (AwaitConnect ctx, Connected (Inl e)) \<Rightarrow> Some (caught P view r e h)
      | (AwaitChain ctx a, ChainIs (Inr c)) \<Rightarrow> Some (after_chain r ctx a c h)
      | (AwaitChain ctx a, ChainIs (Inl e)) \<Rightarrow> Some (caught P view r e h)
      | (AwaitSwitch ctx a, Switched (Inr _)) \<Rightarrow> Some (after_switch r ctx a h)
      | (AwaitSwitch ctx a, Switched (Inl e)) \<Rightarrow> Some (caught P view r e h)
      | (AwaitPostSwitch ctx a, ChainIs (Inr c)) \<Rightarrow> Some (after_post_switch P view r ctx a c h)
      | (AwaitPostSwitch ctx a, ChainIs (Inl e)) \<Rightarrow> Some (caught P view r e h)
      | (AwaitSigner ctx a, SignerReady (Inr _)) \<Rightarrow> Some (after_signer r ctx a h)
      | (AwaitSigner ctx a, SignerReady (Inl e)) \<Rightarrow> Some (caught P view r e h)
      | (AwaitSign ctx a, Signed (Inr sig)) \<Rightarrow> Some (after_sign r ctx a sig h)
      | (AwaitSign ctx a, Signed (Inl e)) \<Rightarrow> Some (caught P view r e h)
      | (AwaitLiveAccount ctx a sig, AccountIs (Inr l)) \<Rightarrow>
          Some (after_live_account P view r ctx a sig l h)
      | (AwaitLiveAccount ctx a sig, AccountIs (Inl e)) \<Rightarrow> Some (caught P view r e h)
      | (AwaitRetry, Responded (Inr retry)) \<Rightarrow> Some (after_retry (r\<lparr>run_timer := False\<rparr>) retry h)
      | (AwaitRetry, Responded (Inl e)) \<Rightarrow> Some (caught P view (r\<lparr>run_timer := False\<rparr>) e h)
      | (AwaitRetryText retry, BodyRead) \<Rightarrow> Some (after_retry_text P r retry h)
      | (AwaitRetrySuccess retry, BodyRead) \<Rightarrow> Some (after_retry_success P view r retry h)
      | _ \<Rightarrow> None)"

text \<open>The timer's function, \<^verbatim>\<open>() => update({ step: "ai" })\<close>.\<close>

definition fire_timer :: "run \<Rightarrow> hook \<Rightarrow> run \<times> hook" where
  "fire_timer r h = (r\<lparr>run_timer := False\<rparr>, update r (\<lambda>s. s\<lparr>us_step := S_ai\<rparr>) h)"

definition put_run :: "run \<times> hook \<Rightarrow> hook" where
  "put_run rh = (case rh of (r, h) \<Rightarrow> h\<lparr>h_runs := (h_runs h)(run_id r \<mapsto> r)\<rparr>)"

inductive hook_step :: "'sig platform \<Rightarrow> hook \<Rightarrow> hook \<Rightarrow> bool" for P where
  do_submit: "hook_step P h (submit txt flow wallet h)"
| do_reset: "hook_step P h (reset_hook h)"
| do_resume: "h_runs h i = Some r \<Longrightarrow> resume P view wallet r ans h = Some rh \<Longrightarrow> hook_step P h (put_run rh)"
| do_timer: "h_runs h i = Some r \<Longrightarrow> run_timer r \<Longrightarrow> hook_step P h (put_run (fire_timer r h))"

definition hook_init :: "hook \<Rightarrow> bool" where
  "hook_init h \<longleftrightarrow>
     h_state h = INITIAL_STATE \<and> h_runId h = 0 \<and> h_runs h = Map.empty \<and> h_events h = [] \<and>
     h_identified h = [] \<and> h_saved h = [] \<and> h_calls h = []"

section \<open>What one segment may do\<close>

primrec rank :: "pc \<Rightarrow> nat" where
  "rank AwaitFirst = 14"
| "rank (AwaitFirstSuccess res) = 1"
| "rank (AwaitFirstText res) = 1"
| "rank (AwaitChallenge res) = 13"
| "rank (AwaitAccount ctx) = 12"
| "rank (AwaitConnect ctx) = 11"
| "rank (AwaitChain ctx a) = 10"
| "rank (AwaitSwitch ctx a) = 9"
| "rank (AwaitPostSwitch ctx a) = 8"
| "rank (AwaitSigner ctx a) = 7"
| "rank (AwaitSign ctx a) = 6"
| "rank (AwaitLiveAccount ctx a sig) = 5"
| "rank AwaitRetry = 4"
| "rank (AwaitRetryText res) = 1"
| "rank (AwaitRetrySuccess res) = 1"
| "rank Finished = 0"

text \<open>The part of the shared state a user or an observer sees.\<close>

definition visible :: "hook \<Rightarrow> UseX402State \<times> (AnalyticsEvent \<times> props) list \<times> (jstring \<times> props) list" where
  "visible h = (h_state h, h_events h, h_identified h)"

definition settled :: "UseX402State \<Rightarrow> bool" where
  "settled s \<longleftrightarrow> \<not> us_isRunning s \<and> (us_error s \<noteq> None \<or> us_step s = S_done)"

text \<open>
  A segment keeps the identity of its run and the other runs, makes progress, leaves the
  visible state alone unless its run is the current one, and then leaves it running or, at
  the end, settled.
\<close>

definition segment_ok :: "run \<Rightarrow> hook \<Rightarrow> run \<times> hook \<Rightarrow> bool" where
  "segment_ok r h rh =
     (case rh of (r', h') \<Rightarrow>
        run_id r' = run_id r \<and> h_runId h' = h_runId h \<and> h_runs h' = h_runs h \<and>
        rank (run_pc r') < rank (run_pc r) \<and>
        (run_timer r' \<longrightarrow> run_pc r' = AwaitRetry) \<and>
        (\<not> isCurrent r h \<longrightarrow> visible h' = visible h) \<and>
        (isCurrent r h \<longrightarrow>
           (if run_pc r' = Finished then settled (h_state h') else us_isRunning (h_state h'))))"

definition segment_pre :: "run \<Rightarrow> hook \<Rightarrow> bool" where
  "segment_pre r h \<longleftrightarrow>
     (run_timer r \<longrightarrow> run_pc r = AwaitRetry) \<and> (isCurrent r h \<longrightarrow> us_isRunning (h_state h))"

lemmas effect_defs = update_def track_def identify_def call_log_def visible_def settled_def isCurrent_def

lemma caught_ok:
  "run_pc r \<noteq> Finished \<Longrightarrow> segment_ok r h (caught P view r e h)"
  by (cases "run_pc r") (simp_all add: caught_def segment_ok_def effect_defs Let_def)

lemma complete_run_ok:
  assumes "segment_pre r h" "run_pc r \<in> {AwaitFirstSuccess res, AwaitRetrySuccess res}"
  shows "segment_ok r h (complete_run P view r res h)"
proof (cases "readSummarizeSuccess res")
  case (Inl e)
  then show ?thesis using assms caught_ok [of r] by (auto simp: complete_run_def)
next
  case (Inr ok)
  then show ?thesis
    using assms
    by (auto simp: complete_run_def segment_ok_def segment_pre_def effect_defs Let_def)
qed

lemmas segment_defs = segment_ok_def segment_pre_def effect_defs Let_def

lemma first_segments_ok:
  "segment_pre r h \<Longrightarrow> run_pc r = AwaitFirst \<Longrightarrow> segment_ok r h (after_first r res h)"
  "segment_pre r h \<Longrightarrow> run_pc r = AwaitFirstText res \<Longrightarrow> segment_ok r h (after_first_text P r res h)"
  by (auto simp: after_first_def after_first_text_def track_failed_status_def segment_defs)

lemma after_challenge_ok:
  assumes "segment_pre r h" "run_pc r = AwaitChallenge res"
  shows "segment_ok r h (after_challenge P view wallet r res h)"
proof (cases "readPaymentChallenge res")
  case (Inl e)
  then show ?thesis using assms caught_ok [of r] by (simp add: after_challenge_def)
next
  case (Inr ctx)
  then show ?thesis using assms by (auto simp: after_challenge_def segment_defs)
qed

lemma account_segments_ok:
  "segment_pre r h \<Longrightarrow> run_pc r = AwaitAccount ctx \<Longrightarrow> segment_ok r h (after_account r ctx acc h)"
  "segment_pre r h \<Longrightarrow> run_pc r = AwaitConnect ctx \<Longrightarrow> segment_ok r h (after_connect r ctx a h)"
  by (auto simp: after_account_def after_connect_def with_account_def segment_defs split: option.split)

lemma chain_segments_ok:
  "segment_pre r h \<Longrightarrow> run_pc r = AwaitChain ctx a \<Longrightarrow> segment_ok r h (after_chain r ctx a c h)"
  "segment_pre r h \<Longrightarrow> run_pc r = AwaitSwitch ctx a \<Longrightarrow> segment_ok r h (after_switch r ctx a h)"
  by (auto simp: after_chain_def after_switch_def chain_ready_def segment_defs)

lemma after_post_switch_ok:
  assumes "segment_pre r h" "run_pc r = AwaitPostSwitch ctx a"
  shows "segment_ok r h (after_post_switch P view r ctx a c h)"
proof (cases "same_chain c (field (Some ctx) ''chainId'')")
  case True
  then show ?thesis using assms by (auto simp: after_post_switch_def chain_ready_def segment_defs)
next
  case False
  then show ?thesis using assms(2) caught_ok [of r] by (simp add: after_post_switch_def)
qed

lemma sign_segments_ok:
  "segment_pre r h \<Longrightarrow> run_pc r = AwaitSigner ctx a \<Longrightarrow> segment_ok r h (after_signer r ctx a h)"
  "segment_pre r h \<Longrightarrow> run_pc r = AwaitSign ctx a \<Longrightarrow> segment_ok r h (after_sign r ctx a sig h)"
  by (auto simp: after_signer_def after_sign_def segment_defs)

lemma after_live_account_ok:
  assumes "segment_pre r h" "run_pc r = AwaitLiveAccount ctx a sig"
  shows "segment_ok r h (after_live_account P view r ctx a sig l h)"
  using assms
  by (cases "web_buildSignedHeaders ctx sig"; cases l)
    (auto simp: after_live_account_def caught_def segment_defs)

lemma retry_segments_ok:
  "segment_pre r h \<Longrightarrow> run_pc r = AwaitRetry \<Longrightarrow> segment_ok r h (after_retry (r\<lparr>run_timer := False\<rparr>) res h)"
  "segment_pre r h \<Longrightarrow> run_pc r = AwaitRetryText res \<Longrightarrow> segment_ok r h (after_retry_text P r res h)"
  "run_pc r = AwaitRetry \<Longrightarrow> segment_ok r h (caught P view (r\<lparr>run_timer := False\<rparr>) e h)"
  by (auto simp: after_retry_def after_retry_text_def track_failed_status_def caught_def segment_defs)

lemmas segments_ok = caught_ok complete_run_ok first_segments_ok after_challenge_ok account_segments_ok
  chain_segments_ok after_post_switch_ok sign_segments_ok after_live_account_ok retry_segments_ok

lemma resume_ok:
  assumes "segment_pre r h" "resume P view wallet r ans h = Some rh"
  shows "segment_ok r h rh"
  using assms(2) assms(1)
  unfolding resume_def
  by (cases "run_pc r"; cases ans) (auto split: sum.splits intro: segments_ok)

lemma resume_finished: "run_pc r = Finished \<Longrightarrow> resume P view wallet r ans h = None"
  by (simp add: resume_def)

section \<open>The invariant of the hook\<close>

definition hook_inv :: "hook \<Rightarrow> bool" where
  "hook_inv h \<longleftrightarrow>
     (\<forall>i r. h_runs h i = Some r \<longrightarrow> run_id r = i \<and> i \<le> h_runId h \<and> (run_timer r \<longrightarrow> run_pc r = AwaitRetry)) \<and>
     (case h_runs h (h_runId h) of
        None \<Rightarrow> h_state h = INITIAL_STATE
      | Some r \<Rightarrow>
          if run_pc r = Finished then settled (h_state h) else us_isRunning (h_state h))"

lemma hook_invD:
  assumes "hook_inv h" "h_runs h i = Some r"
  shows "run_id r = i" "i \<le> h_runId h" "run_timer r \<Longrightarrow> run_pc r = AwaitRetry"
    "run_pc r \<noteq> Finished \<Longrightarrow> segment_pre r h"
  using assms by (auto simp: hook_inv_def segment_pre_def isCurrent_def)

lemma submit_inv: "hook_inv h \<Longrightarrow> hook_inv (submit txt flow wallet h)"
  by (auto simp: submit_def hook_inv_def effect_defs Let_def le_Suc_eq)

lemma reset_inv: "hook_inv h \<Longrightarrow> hook_inv (reset_hook h)"
proof -
  assume inv: "hook_inv h"
  have "h_runs h (h_runId h + 1) = None"
    using hook_invD(2) [OF inv, of "h_runId h + 1"] by (cases "h_runs h (h_runId h + 1)") auto
  with inv show ?thesis by (auto simp: reset_hook_def hook_inv_def le_Suc_eq)
qed

lemma put_run_inv:
  assumes "hook_inv h" "h_runs h i = Some r" "segment_ok r h rh"
  shows "hook_inv (put_run rh)"
proof -
  obtain r' h' where rh: "rh = (r', h')" by (cases rh)
  note inv = hook_invD [OF assms(1, 2)]
  have "visible h' = visible h" if "i \<noteq> h_runId h"
    using assms(3) that inv(1) by (auto simp: segment_ok_def rh isCurrent_def)
  then show ?thesis
    using assms inv(1, 2)
    by (cases "i = h_runId h"; cases "h_runs h (h_runId h)")
      (auto simp: hook_inv_def segment_ok_def rh put_run_def isCurrent_def visible_def)
qed

lemma fire_timer_ok:
  assumes "hook_inv h" "h_runs h i = Some r" "run_timer r"
  shows "hook_inv (put_run (fire_timer r h))"
proof -
  have "run_pc r = AwaitRetry" using hook_invD(3) [OF assms(1, 2)] assms(3) .
  then show ?thesis
    using assms hook_invD(1, 2) [OF assms(1, 2)]
    by (auto simp: hook_inv_def fire_timer_def put_run_def update_def split: option.splits if_splits)
qed

lemma hook_step_inv: "hook_step P h h' \<Longrightarrow> hook_inv h \<Longrightarrow> hook_inv h'"
proof (induction rule: hook_step.induct)
  case (do_resume h i r view wallet ans rh)
  have "run_pc r \<noteq> Finished" using do_resume(2) resume_finished [of r P view wallet ans h] by auto
  then have "segment_pre r h" using hook_invD(4) [OF do_resume(3, 1)] by blast
  then show ?case using put_run_inv [OF do_resume(3, 1)] resume_ok do_resume(2) by blast
qed (auto intro: submit_inv reset_inv fire_timer_ok)

interpretation hook: transition_system hook_init "hook_step P" hook_inv for P
proof
  fix h
  assume "hook_init h"
  then show "hook_inv h" by (simp add: hook_init_def hook_inv_def)
next
  fix h h'
  assume "hook_inv h" "hook_step P h h'"
  then show "hook_inv h'" by (rule hook_step_inv [rotated])
qed

section \<open>Properties\<close>

text \<open>C4:
  What the page shows always belongs to the latest submission, and it never hangs: in every
  history of submissions, resets, answers and timers, the state is running exactly while the
  latest run still waits for something; once that run has ended, the state shows an error or
  the finished summary; and after a reset the state is the initial one.
\<close>

theorem page_follows_latest_run:
  assumes "hook_init h" "(hook_step P)\<^sup>*\<^sup>* h h'"
  shows "case h_runs h' (h_runId h') of
      None \<Rightarrow> h_state h' = INITIAL_STATE
    | Some r \<Rightarrow>
        (us_isRunning (h_state h') \<longleftrightarrow> run_pc r \<noteq> Finished) \<and>
        (run_pc r = Finished \<longrightarrow> us_error (h_state h') \<noteq> None \<or> us_step (h_state h') = S_done)"
  using hook.inv_reachable [OF assms] by (auto simp: hook_inv_def settled_def split: option.splits if_splits)

definition empty_hook :: hook where
  "empty_hook = \<lparr>h_state = INITIAL_STATE, h_runId = 0, h_runs = Map.empty, h_events = [], h_identified = [],
     h_saved = [], h_calls = []\<rparr>"

definition sample_flow :: FlowContext where
  "sample_flow = \<lparr>flowRunId = js ''f'', correlationId = js ''c'', inputWordCount = 1, inputCharCount = 2\<rparr>"

lemma hook_init_empty: "hook_init empty_hook"
  by (simp add: hook_init_def empty_hook_def)

lemma trim_hi: "trim (js ''hi'') \<noteq> []"
  by (simp add: trim_eq_Nil_iff is_space_def js_def word_le_nat_alt word_unat_eq_iff)

theorem page_follows_latest_run_witness:
  "us_isRunning (h_state (submit (js ''hi'') sample_flow True empty_hook))"
  using page_follows_latest_run [OF hook_init_empty r_into_rtranclp, OF do_submit [of sample_platform _ "js ''hi''" sample_flow True]]
    trim_hi
  by (auto simp: submit_def Let_def empty_hook_def effect_defs)

text \<open>C10:
  A superseded run is silent: continuing a run that is no longer the latest one, or firing
  its timer, changes neither the state of the page nor the analytics events nor the
  identified wallet, whatever the outcome it is continued with.
\<close>

theorem stale_run_silent:
  assumes "hook_init h" "(hook_step P)\<^sup>*\<^sup>* h h'" "h_runs h' i = Some r" "i \<noteq> h_runId h'"
  shows "(\<forall>rh. resume P view wallet r ans h' = Some rh \<longrightarrow> visible (put_run rh) = visible h') \<and>
    visible (put_run (fire_timer r h')) = visible h'"
proof -
  have inv: "hook_inv h'" using hook.inv_reachable [OF assms(1, 2)] .
  have stale: "\<not> isCurrent r h'" using hook_invD(1) [OF inv assms(3)] assms(4) by (auto simp: isCurrent_def)
  have "visible (put_run rh) = visible h'" if "resume P view wallet r ans h' = Some rh" for rh
  proof -
    have "run_pc r \<noteq> Finished" using that resume_finished [of r P view wallet ans h'] by auto
    then have "segment_ok r h' rh" using resume_ok [OF hook_invD(4) [OF inv assms(3)] that] by blast
    then show ?thesis using stale by (auto simp: segment_ok_def put_run_def visible_def)
  qed
  moreover have "visible (put_run (fire_timer r h')) = visible h'"
    using stale by (auto simp: fire_timer_def put_run_def visible_def update_def isCurrent_def)
  ultimately show ?thesis by blast
qed

definition once :: hook where
  "once = submit (js ''hi'') sample_flow True empty_hook"

definition twice :: hook where
  "twice = submit (js ''hi'') sample_flow True once"

definition sample_run_1 :: run where
  "sample_run_1 = \<lparr>run_id = 1, run_text = js ''hi'', run_flow = sample_flow, run_stage = At_request,
     run_pc = AwaitFirst, run_timer = False\<rparr>"

lemma sample_hooks:
  "h_runs once 1 = Some sample_run_1" "h_runs twice 1 = Some sample_run_1" "h_runId once = 1" "h_runId twice = 2"
  using trim_hi
  by (simp_all add: once_def twice_def submit_def Let_def empty_hook_def effect_defs sample_run_1_def)

lemma reach_once: "(hook_step P)\<^sup>*\<^sup>* empty_hook once"
  unfolding once_def by (rule r_into_rtranclp) (rule do_submit)

lemma reach_twice: "(hook_step P)\<^sup>*\<^sup>* empty_hook twice"
  unfolding twice_def by (rule rtranclp.rtrancl_into_rtrancl [OF reach_once]) (rule do_submit)

theorem stale_run_silent_witness:
  "visible (put_run (after_first sample_run_1 (sample_response 200 ''0'') twice)) = visible twice"
proof -
  have "resume sample_platform (\<lambda>_. ErrorOther []) True sample_run_1 (Responded (Inr (sample_response 200 ''0''))) twice =
      Some (after_first sample_run_1 (sample_response 200 ''0'') twice)"
    by (simp add: resume_def sample_run_1_def)
  then show ?thesis
    using stale_run_silent [OF hook_init_empty reach_twice sample_hooks(2)] sample_hooks(4) by fastforce
qed

text \<open>C20:
  Every submission comes to an end: each continuation of a run brings it strictly closer to
  its end, so after at most fourteen awaited operations, whatever their outcomes, it has
  finished, and its timer is not left running.
\<close>

theorem run_terminates:
  assumes "hook_init h" "(hook_step P)\<^sup>*\<^sup>* h h'" "h_runs h' i = Some r"
    and "resume P view wallet r ans h' = Some (r', h'')"
  shows "rank (run_pc r') < rank (run_pc r) \<and> rank (run_pc r) \<le> 14 \<and>
    (run_pc r' = Finished \<longrightarrow> \<not> run_timer r')"
proof -
  have inv: "hook_inv h'" using hook.inv_reachable [OF assms(1, 2)] .
  have "run_pc r \<noteq> Finished" using assms(4) resume_finished [of r P view wallet ans h'] by auto
  then have "segment_ok r h' (r', h'')" using resume_ok [OF hook_invD(4) [OF inv assms(3)] assms(4)] by blast
  moreover have "rank (run_pc r) \<le> 14" by (cases "run_pc r") simp_all
  ultimately show ?thesis by (auto simp: segment_ok_def)
qed

theorem run_terminates_witness:
  "rank (run_pc (fst (after_first sample_run_1 (sample_response 500 ''0'') once))) < 14"
proof -
  have "resume sample_platform (\<lambda>_. ErrorOther []) True sample_run_1 (Responded (Inr (sample_response 500 ''0''))) once =
      Some (fst (after_first sample_run_1 (sample_response 500 ''0'') once),
        snd (after_first sample_run_1 (sample_response 500 ''0'') once))"
    by (simp add: resume_def sample_run_1_def)
  from run_terminates [OF hook_init_empty reach_once sample_hooks(1) this] show ?thesis
    by (simp add: sample_run_1_def)
qed

text \<open>C16:
  The wallet is only asked to sign on the right chain: a run comes to wait for a signature
  only from obtaining a signer, and to obtain a signer only when the wallet's last reported
  chain was the chain of the payment context, either at once or after a switch that was
  checked again.
\<close>

theorem signing_only_on_checked_chain:
  assumes "resume P view wallet r ans h = Some (r', h')"
  shows "(\<forall>ctx a. run_pc r' = AwaitSign ctx a \<longrightarrow> run_pc r = AwaitSigner ctx a) \<and>
    (\<forall>ctx a. run_pc r' = AwaitSigner ctx a \<longrightarrow>
       (run_pc r = AwaitChain ctx a \<or> run_pc r = AwaitPostSwitch ctx a) \<and>
       (\<exists>c. ans = ChainIs (Inr c) \<and> same_chain c (field (Some ctx) ''chainId'')))"
proof -
  note segs = after_first_def complete_run_def after_first_text_def after_challenge_def after_account_def
    with_account_def after_connect_def after_chain_def chain_ready_def after_switch_def after_post_switch_def
    after_signer_def after_sign_def after_live_account_def after_retry_def after_retry_text_def caught_def
  show ?thesis
    using assms unfolding resume_def
    by (cases "run_pc r"; cases ans)
      (auto simp: segs Let_def split: sum.splits if_splits option.splits)
qed

theorem signing_only_on_checked_chain_witness:
  "same_chain (Some (num_of_int 8453)) (field (Some (JObj [(js ''chainId'', JNum (num_of_int 8453))])) ''chainId'')"
proof -
  define r where "r = sample_run_1\<lparr>run_pc := AwaitChain (JObj [(js ''chainId'', JNum (num_of_int 8453))]) (js ''0xa'')\<rparr>"
  have "resume sample_platform (\<lambda>_. ErrorOther []) True r (ChainIs (Inr (Some (num_of_int 8453)))) once =
      Some (chain_ready r (JObj [(js ''chainId'', JNum (num_of_int 8453))]) (js ''0xa'') once)"
    by (simp add: resume_def r_def after_chain_def same_chain_def num_of_int_def)
  then show ?thesis
    using signing_only_on_checked_chain [of sample_platform "\<lambda>_. ErrorOther []" True r
        "ChainIs (Inr (Some (num_of_int 8453)))" once]
    by (auto simp: chain_ready_def)
qed

end
