(* ===== verification/PageState.thy ===== *)
theory PageState
  imports UseX402
begin

text \<open>
  What the page state of \<^verbatim>\<open>use-x402.ts\<close> can be. The components that render the flow read
  the step, the summary, the receipt, the error and the running flag together; this theory
  shows which combinations occur in any history of the hook.
\<close>

definition page_ok :: "UseX402State \<Rightarrow> bool" where
  "page_ok s \<longleftrightarrow>
     us_step s \<noteq> S_error \<and>
     (us_step s = S_idle \<longrightarrow> s = INITIAL_STATE) \<and>
     (us_step s = S_done \<longrightarrow> us_error s = None \<and> us_summary s \<noteq> None \<and> \<not> us_isRunning s) \<and>
     (us_step s \<noteq> S_done \<longrightarrow> us_summary s = None \<and> us_receipt s = None) \<and>
     (us_isRunning s \<longrightarrow> us_error s = None)"

definition page_kept :: "hook \<Rightarrow> run \<times> hook \<Rightarrow> bool" where
  "page_kept h rh \<longleftrightarrow> (page_ok (h_state h) \<longrightarrow> page_ok (h_state (snd rh)))"

lemmas page_defs = page_kept_def page_ok_def segment_pre_def update_def track_def identify_def
  call_log_def isCurrent_def INITIAL_STATE_def Let_def

lemma caught_page: "segment_pre r h \<Longrightarrow> page_kept h (caught P view r e h)"
  by (auto simp: caught_def page_defs)

lemma complete_run_page: "segment_pre r h \<Longrightarrow> page_kept h (complete_run P view r res h)"
  by (cases "readSummarizeSuccess res") (auto simp: complete_run_def caught_def page_defs)

lemma early_segments_page:
  "segment_pre r h \<Longrightarrow> page_kept h (after_first r res h)"
  "segment_pre r h \<Longrightarrow> page_kept h (after_first_text P r res h)"
  "segment_pre r h \<Longrightarrow> page_kept h (after_account r ctx acc h)"
  "segment_pre r h \<Longrightarrow> page_kept h (after_connect r ctx a h)"
  by (auto simp: after_first_def after_first_text_def track_failed_status_def after_account_def
      after_connect_def with_account_def page_defs split: option.split)

lemma after_challenge_page: "segment_pre r h \<Longrightarrow> page_kept h (after_challenge P view wallet r res h)"
  by (cases "readPaymentChallenge res") (auto simp: after_challenge_def caught_def page_defs)

lemma chain_segments_page:
  "segment_pre r h \<Longrightarrow> page_kept h (after_chain r ctx a c h)"
  "segment_pre r h \<Longrightarrow> page_kept h (after_switch r ctx a h)"
  "segment_pre r h \<Longrightarrow> page_kept h (after_post_switch P view r ctx a c h)"
  by (auto simp: after_chain_def after_switch_def after_post_switch_def chain_ready_def caught_def page_defs)

lemma sign_segments_page:
  "segment_pre r h \<Longrightarrow> page_kept h (after_signer r ctx a h)"
  "segment_pre r h \<Longrightarrow> page_kept h (after_sign r ctx a sig h)"
  by (auto simp: after_signer_def after_sign_def page_defs)

lemma after_live_account_page:
  "segment_pre r h \<Longrightarrow> page_kept h (after_live_account P view r ctx a sig l h)"
  by (cases "web_buildSignedHeaders ctx sig"; cases l)
    (auto simp: after_live_account_def caught_def page_defs)

lemma retry_segments_page:
  "segment_pre r h \<Longrightarrow> page_kept h (after_retry (r\<lparr>run_timer := False\<rparr>) res h)"
  "segment_pre r h \<Longrightarrow> page_kept h (after_retry_text P r res h)"
  "segment_pre r h \<Longrightarrow> page_kept h (caught P view (r\<lparr>run_timer := False\<rparr>) e h)"
  by (auto simp: after_retry_def after_retry_text_def track_failed_status_def caught_def page_defs)

lemmas segments_page = caught_page complete_run_page early_segments_page after_challenge_page
  chain_segments_page sign_segments_page after_live_account_page retry_segments_page

lemma resume_page:
  assumes "segment_pre r h" "resume P view wallet r ans h = Some rh"
  shows "page_kept h rh"
  using assms(2) assms(1)
  unfolding resume_def
  by (cases "run_pc r"; cases ans) (auto split: sum.splits intro: segments_page)

lemma put_run_state [simp]: "h_state (put_run rh) = h_state (snd rh)"
  by (simp add: put_run_def split: prod.split)

lemma fire_timer_page:
  assumes "hook_inv h" "h_runs h i = Some r" "run_timer r"
  shows "page_kept h (fire_timer r h)"
proof -
  have "segment_pre r h" using hook_invD(3, 4) [OF assms(1, 2)] assms(3) by auto
  then show ?thesis by (auto simp: fire_timer_def page_defs)
qed

definition page_inv :: "hook \<Rightarrow> bool" where
  "page_inv h \<longleftrightarrow> hook_inv h \<and> page_ok (h_state h)"

lemma submit_page: "page_ok (h_state h) \<Longrightarrow> page_ok (h_state (submit txt flow wallet h))"
  by (auto simp: submit_def page_defs)

lemma reset_page: "page_ok (h_state (reset_hook h))"
  by (simp add: reset_hook_def page_ok_def INITIAL_STATE_def)

lemma hook_step_page: "hook_step P h h' \<Longrightarrow> page_inv h \<Longrightarrow> page_ok (h_state h')"
proof (induction rule: hook_step.induct)
  case (do_resume h i r view wallet ans rh)
  have "run_pc r \<noteq> Finished" using do_resume(2) resume_finished [of r P view wallet ans h] by auto
  then have "segment_pre r h" using hook_invD(4) do_resume(1, 3) by (auto simp: page_inv_def)
  then have "page_kept h rh" using do_resume(2) by (rule resume_page)
  then show ?case using do_resume(3) by (simp add: page_kept_def page_inv_def)
next
  case (do_timer h i r)
  then have "page_kept h (fire_timer r h)" using fire_timer_page by (auto simp: page_inv_def)
  then show ?case using do_timer(3) by (simp add: page_kept_def page_inv_def)
qed (auto simp: page_inv_def intro: submit_page reset_page)

interpretation page: transition_system hook_init "hook_step P" page_inv for P
proof
  fix h
  assume "hook_init h"
  then show "page_inv h"
    using hook.inv_init by (simp add: page_inv_def hook_init_def page_ok_def INITIAL_STATE_def)
next
  fix h h'
  assume inv: "page_inv h" and step: "hook_step P h h'"
  show "page_inv h'"
    using hook_step_inv [OF step] hook_step_page [OF step inv] inv by (simp add: page_inv_def)
qed

text \<open>The four kinds of page: fresh, running, failed and finished.\<close>

lemma page_cases:
  assumes "page_inv h"
  obtains (fresh) "h_state h = INITIAL_STATE"
  | (running) "us_isRunning (h_state h)" "us_error (h_state h) = None"
      "us_step (h_state h) \<notin> {S_idle, S_done, S_error}" "us_summary (h_state h) = None"
      "us_receipt (h_state h) = None"
  | (failed) e where "\<not> us_isRunning (h_state h)" "us_error (h_state h) = Some e"
      "us_step (h_state h) \<notin> {S_idle, S_done, S_error}" "us_summary (h_state h) = None"
      "us_receipt (h_state h) = None"
  | (finished) v where "\<not> us_isRunning (h_state h)" "us_error (h_state h) = None"
      "us_step (h_state h) = S_done" "us_summary (h_state h) = Some v"
proof (cases "h_runs h (h_runId h)")
  case None
  then show ?thesis using assms fresh by (simp add: page_inv_def hook_inv_def)
next
  case (Some r)
  have pg: "page_ok (h_state h)" and idle: "us_isRunning INITIAL_STATE = False" "us_error INITIAL_STATE = None"
    "us_step INITIAL_STATE = S_idle"
    using assms by (simp_all add: page_inv_def INITIAL_STATE_def)
  show ?thesis
  proof (cases "us_isRunning (h_state h)")
    case True
    then show ?thesis using pg idle running by (auto simp: page_ok_def)
  next
    case False
    then have "settled (h_state h)"
      using assms Some by (auto simp: page_inv_def hook_inv_def split: if_splits)
    then show ?thesis using pg idle False failed finished by (cases "us_step (h_state h) = S_done") (auto simp: page_ok_def settled_def)
  qed
qed

end
