(* ===== verification/FlowCalls.thy ===== *)
theory FlowCalls
  imports PageState
begin

text \<open>
  What a submission asks of the outside world, and in which order. \<open>pay_step\<close> is the abstract
  payment protocol of one submission, an automaton that emits calls; the segments of
  \<^verbatim>\<open>submit\<close> (\<^verbatim>\<open>web/src/hooks/use-x402.ts\<close>) refine it (\<open>resume_refines\<close>), and the trace of every
  run, however its segments interleave with other runs, is a trace of the automaton. The
  second part follows the receipts the flow hands to the store.
\<close>

section \<open>The abstract protocol\<close>

datatype phase =
    Asking
  | Signing json
  | Holding json jstring
  | Paid
  | Ended

primrec phase_of :: "pc \<Rightarrow> phase" where
  "phase_of AwaitFirst = Asking"
| "phase_of (AwaitFirstSuccess res) = Asking"
| "phase_of (AwaitFirstText res) = Asking"
| "phase_of (AwaitChallenge res) = Asking"
| "phase_of (AwaitAccount ctx) = Asking"
| "phase_of (AwaitConnect ctx) = Asking"
| "phase_of (AwaitChain ctx a) = Asking"
| "phase_of (AwaitSwitch ctx a) = Asking"
| "phase_of (AwaitPostSwitch ctx a) = Asking"
| "phase_of (AwaitSigner ctx a) = Asking"
| "phase_of (AwaitSign ctx a) = Signing ctx"
| "phase_of (AwaitLiveAccount ctx a sig) = Holding ctx sig"
| "phase_of AwaitRetry = Paid"
| "phase_of (AwaitRetryText res) = Paid"
| "phase_of (AwaitRetrySuccess res) = Paid"
| "phase_of Finished = Ended"

text \<open>Calls that neither sign nor send anything to the gateway.\<close>

primrec wallet_query :: "flow_call \<Rightarrow> bool" where
  "wallet_query (PostSummarize t hs) = False"
| "wallet_query GetAccount = True"
| "wallet_query Connect = True"
| "wallet_query GetChain = True"
| "wallet_query (SwitchChain c) = True"
| "wallet_query (GetSigner a) = True"
| "wallet_query (SignContext ctx) = False"

definition unpaid_post :: "run \<Rightarrow> flow_call" where
  "unpaid_post r =
     PostSummarize (run_text r) [(js ''X-Correlation-ID'', Some (JStr (correlationId (run_flow r))))]"

inductive pay_step :: "run \<Rightarrow> phase \<Rightarrow> flow_call list \<Rightarrow> phase \<Rightarrow> bool" for r where
  wait: "p \<in> {Asking, Paid} \<Longrightarrow> pay_step r p [] p"
| query: "wallet_query c \<Longrightarrow> pay_step r Asking [c] Asking"
| sign: "pay_step r Asking [SignContext ctx] (Signing ctx)"
| hold: "pay_step r (Signing ctx) [GetAccount] (Holding ctx sig)"
| pay: "web_buildSignedHeaders ctx sig = Inr hs \<Longrightarrow>
    pay_step r (Holding ctx sig) [PostSummarize (run_text r) (retry_headers r hs)] Paid"
| stop: "pay_step r p [] Ended"

inductive pays :: "run \<Rightarrow> flow_call list \<Rightarrow> phase \<Rightarrow> bool" for r where
  start: "pays r [unpaid_post r] Asking"
| continue: "pays r cs p \<Longrightarrow> pay_step r p ds q \<Longrightarrow> pays r (cs @ ds) q"

inductive_cases pay_stepE:
  "pay_step r Asking cs q" "pay_step r (Signing ctx) cs q" "pay_step r (Holding ctx sig) cs q"
  "pay_step r Paid cs q" "pay_step r Ended cs q"

text \<open>The protocol depends on the text and the flow identifiers of the run only.\<close>

lemma pay_step_run:
  assumes "pay_step r p cs q" "run_text r' = run_text r" "run_flow r' = run_flow r"
  shows "pay_step r' p cs q"
  using assms by (induction rule: pay_step.induct) (metis pay_step.intros retry_headers_def)+

lemma pays_run:
  assumes "pays r cs p" "run_text r' = run_text r" "run_flow r' = run_flow r"
  shows "pays r' cs p"
  using assms(1)
proof (induction rule: pays.induct)
  case start
  then show ?case using pays.start [of r'] assms(2, 3) by (simp add: unpaid_post_def)
next
  case (continue cs p ds q)
  then show ?case using pay_step_run assms(2, 3) pays.continue by blast
qed

text \<open>
  The calls of a submission: the unpaid request, questions to the wallet, and then a prefix of
  signing, checking the account and the paid request.
\<close>

definition paying :: "run \<Rightarrow> json \<Rightarrow> props \<Rightarrow> flow_call list" where
  "paying r ctx hs = [SignContext ctx, GetAccount, PostSummarize (run_text r) (retry_headers r hs)]"

definition trace_ok :: "run \<Rightarrow> flow_call list \<Rightarrow> bool" where
  "trace_ok r cs \<longleftrightarrow>
     (\<exists>qs n ctx sig hs. cs = unpaid_post r # qs @ take n (paying r ctx hs) \<and> list_all wallet_query qs \<and>
        (2 < n \<longrightarrow> web_buildSignedHeaders ctx sig = Inr hs))"

text \<open>What the phase says about the calls so far.\<close>

primrec phase_trace :: "run \<Rightarrow> flow_call list \<Rightarrow> phase \<Rightarrow> bool" where
  "phase_trace r cs Asking = (\<exists>qs. cs = unpaid_post r # qs \<and> list_all wallet_query qs)"
| "phase_trace r cs (Signing ctx) =
     (\<exists>qs. cs = unpaid_post r # qs @ [SignContext ctx] \<and> list_all wallet_query qs)"
| "phase_trace r cs (Holding ctx sig) =
     (\<exists>qs. cs = unpaid_post r # qs @ [SignContext ctx, GetAccount] \<and> list_all wallet_query qs)"
| "phase_trace r cs Paid =
     (\<exists>qs ctx sig hs. cs = unpaid_post r # qs @ paying r ctx hs \<and> list_all wallet_query qs \<and>
        web_buildSignedHeaders ctx sig = Inr hs)"
| "phase_trace r cs Ended = trace_ok r cs"

lemma trace_okI:
  "cs = unpaid_post r # qs @ take n (paying r ctx hs) \<Longrightarrow> list_all wallet_query qs \<Longrightarrow>
     (2 < n \<Longrightarrow> web_buildSignedHeaders ctx sig = Inr hs) \<Longrightarrow> trace_ok r cs"
  unfolding trace_ok_def by blast

lemma phase_trace_ok: "phase_trace r cs p \<Longrightarrow> trace_ok r cs"
proof (cases p)
  case Asking
  then show "phase_trace r cs p \<Longrightarrow> ?thesis" by (auto intro!: trace_okI [where n = 0])
next
  case (Signing ctx)
  then show "phase_trace r cs p \<Longrightarrow> ?thesis"
    by (auto simp: paying_def intro!: trace_okI [where n = 1 and ctx = ctx])
next
  case (Holding ctx sig)
  then show "phase_trace r cs p \<Longrightarrow> ?thesis"
    by (auto simp: paying_def numeral_2_eq_2 intro!: trace_okI [where n = 2 and ctx = ctx])
next
  case Paid
  then show "phase_trace r cs p \<Longrightarrow> ?thesis" by (auto simp: paying_def intro!: trace_okI [where n = 3])
qed simp

lemma pay_step_trace: "pay_step r p ds q \<Longrightarrow> phase_trace r cs p \<Longrightarrow> phase_trace r (cs @ ds) q"
  by (induction rule: pay_step.induct) (auto simp: phase_trace_ok paying_def)

lemma pays_trace: "pays r cs p \<Longrightarrow> phase_trace r cs p"
  by (induction rule: pays.induct) (simp_all add: pay_step_trace)

section \<open>The flow refines the protocol\<close>

definition calls_of :: "nat \<Rightarrow> hook \<Rightarrow> flow_call list" where
  "calls_of i h = map snd (filter (\<lambda>c. fst c = i) (h_calls h))"

lemmas segment_bodies = after_first_def complete_run_def after_first_text_def after_challenge_def
  after_account_def with_account_def after_connect_def after_chain_def chain_ready_def after_switch_def
  after_post_switch_def after_signer_def after_sign_def after_live_account_def after_retry_def
  after_retry_text_def caught_def track_failed_status_def

text \<open>
  A segment keeps what identifies the run, logs calls of its own run only, and takes one step
  of the protocol.
\<close>

definition refines_step :: "run \<Rightarrow> hook \<Rightarrow> run \<times> hook \<Rightarrow> bool" where
  "refines_step r h rh =
     (case rh of (r', h') \<Rightarrow>
        run_id r' = run_id r \<and> run_text r' = run_text r \<and> run_flow r' = run_flow r \<and> h_runs h' = h_runs h \<and>
        h_runId h' = h_runId h \<and>
        (\<exists>cs. h_calls h' = h_calls h @ map (Pair (run_id r)) cs \<and>
           pay_step r (phase_of (run_pc r)) cs (phase_of (run_pc r'))))"

lemma effects_calls [simp]:
  "h_calls (update r f h) = h_calls h" "h_calls (track r ev ps h) = h_calls h"
  "h_calls (identify r w ps h) = h_calls h" "h_calls (call_log r c h) = h_calls h @ [(run_id r, c)]"
  "h_runs (update r f h) = h_runs h" "h_runs (track r ev ps h) = h_runs h"
  "h_runs (identify r w ps h) = h_runs h" "h_runs (call_log r c h) = h_runs h"
  "h_runId (update r f h) = h_runId h" "h_runId (track r ev ps h) = h_runId h"
  "h_runId (identify r w ps h) = h_runId h" "h_runId (call_log r c h) = h_runId h"
  "h_saved (update r f h) = h_saved h" "h_saved (track r ev ps h) = h_saved h"
  "h_saved (identify r w ps h) = h_saved h" "h_saved (call_log r c h) = h_saved h"
  by (simp_all add: effect_defs identify_def)

lemma refines_stepI:
  assumes "run_id r' = run_id r" "run_text r' = run_text r" "run_flow r' = run_flow r" "h_runs h' = h_runs h"
    and "h_runId h' = h_runId h" "h_calls h' = h_calls h @ map (Pair (run_id r)) cs"
    and "pay_step r (phase_of (run_pc r)) cs (phase_of (run_pc r'))"
  shows "refines_step r h (r', h')"
  using assms by (auto simp: refines_step_def)

lemma refines_silent:
  "run_id r' = run_id r \<Longrightarrow> run_text r' = run_text r \<Longrightarrow> run_flow r' = run_flow r \<Longrightarrow> h_runs h' = h_runs h \<Longrightarrow>
     h_runId h' = h_runId h \<Longrightarrow> h_calls h' = h_calls h \<Longrightarrow> pay_step r (phase_of (run_pc r)) [] (phase_of (run_pc r')) \<Longrightarrow>
     refines_step r h (r', h')"
  by (rule refines_stepI [where cs = "[]"]) simp_all

lemma refines_call:
  "run_id r' = run_id r \<Longrightarrow> run_text r' = run_text r \<Longrightarrow> run_flow r' = run_flow r \<Longrightarrow> h_runs h' = h_runs h \<Longrightarrow>
     h_runId h' = h_runId h \<Longrightarrow> h_calls h' = h_calls h @ [(run_id r, c)] \<Longrightarrow>
     pay_step r (phase_of (run_pc r)) [c] (phase_of (run_pc r')) \<Longrightarrow> refines_step r h (r', h')"
  by (rule refines_stepI [where cs = "[c]"]) simp_all

lemma caught_refines: "refines_step r h (caught P view r e h)"
  by (auto simp: caught_def Let_def intro!: refines_silent stop)

lemma complete_run_refines: "refines_step r h (complete_run P view r res h)"
proof (cases "readSummarizeSuccess res")
  case (Inl e)
  then show ?thesis by (simp add: complete_run_def caught_refines)
next
  case (Inr ok)
  then show ?thesis by (auto simp: complete_run_def Let_def intro!: refines_silent stop)
qed

lemma first_segments_refine:
  "run_pc r = AwaitFirst \<Longrightarrow> refines_step r h (after_first r res h)"
  "refines_step r h (after_first_text P r res h)"
  by (auto simp: after_first_def after_first_text_def track_failed_status_def
      intro!: refines_silent pay_step.intros)

lemma after_challenge_refines:
  assumes "run_pc r = AwaitChallenge res"
  shows "refines_step r h (after_challenge P view wallet r res h)"
proof (cases "readPaymentChallenge res")
  case (Inl e)
  then show ?thesis by (simp add: after_challenge_def caught_refines)
next
  case (Inr ctx)
  show ?thesis
  proof (cases wallet)
    case True
    then show ?thesis using Inr assms by (auto simp: after_challenge_def Let_def intro!: refines_call query)
  next
    case False
    then show ?thesis using Inr by (auto simp: after_challenge_def Let_def intro!: refines_silent stop)
  qed
qed

lemma wallet_segments_refine:
  "run_pc r = AwaitAccount ctx \<Longrightarrow> refines_step r h (after_account r ctx acc h)"
  "run_pc r = AwaitConnect ctx \<Longrightarrow> refines_step r h (after_connect r ctx a h)"
  "run_pc r = AwaitChain ctx a \<Longrightarrow> refines_step r h (after_chain r ctx a c h)"
  "run_pc r = AwaitSwitch ctx a \<Longrightarrow> refines_step r h (after_switch r ctx a h)"
  by (auto simp: after_account_def after_connect_def with_account_def after_chain_def after_switch_def
      chain_ready_def Let_def split: option.split intro!: refines_call query)

lemma after_post_switch_refines:
  "run_pc r = AwaitPostSwitch ctx a \<Longrightarrow> refines_step r h (after_post_switch P view r ctx a c h)"
  by (auto simp: after_post_switch_def chain_ready_def Let_def caught_refines
      intro!: refines_call query)

lemma sign_segments_refine:
  "run_pc r = AwaitSigner ctx a \<Longrightarrow> refines_step r h (after_signer r ctx a h)"
  "run_pc r = AwaitSign ctx a \<Longrightarrow> refines_step r h (after_sign r ctx a sig h)"
  by (auto simp: after_signer_def after_sign_def Let_def intro!: refines_call sign hold)

lemma after_live_account_refines:
  assumes "run_pc r = AwaitLiveAccount ctx a sig"
  shows "refines_step r h (after_live_account P view r ctx a sig l h)"
proof (cases "web_buildSignedHeaders ctx sig")
  case (Inl e)
  then show ?thesis
    by (cases l) (auto simp: after_live_account_def caught_def Let_def intro!: refines_silent stop)
next
  case (Inr hs)
  then show ?thesis
    using assms
    by (cases l) (auto simp: after_live_account_def Let_def intro!: refines_call pay)
qed

lemma retry_segments_refine:
  "run_pc r = AwaitRetry \<Longrightarrow> refines_step r h (after_retry (r\<lparr>run_timer := False\<rparr>) res h)"
  "refines_step r h (after_retry_text P r res h)"
  "refines_step r h (caught P view (r\<lparr>run_timer := False\<rparr>) e h)"
  by (auto simp: after_retry_def after_retry_text_def track_failed_status_def caught_def Let_def
      intro!: refines_silent pay_step.intros)

lemmas segments_refine = caught_refines complete_run_refines first_segments_refine
  after_challenge_refines wallet_segments_refine after_post_switch_refines sign_segments_refine
  after_live_account_refines retry_segments_refine

lemma resume_refines:
  assumes "resume P view wallet r ans h = Some rh"
  shows "refines_step r h rh"
  using assms unfolding resume_def
  by (cases "run_pc r"; cases ans) (auto split: sum.splits intro: segments_refine)

text \<open>In every history each run has made the calls of the protocol, and only runs make calls.\<close>

definition calls_inv :: "hook \<Rightarrow> bool" where
  "calls_inv h \<longleftrightarrow>
     (\<forall>i r. h_runs h i = Some r \<longrightarrow>
        run_id r = i \<and> i \<le> h_runId h \<and> pays r (calls_of i h) (phase_of (run_pc r))) \<and>
     (\<forall>i. h_runs h i = None \<longrightarrow> calls_of i h = [])"

lemma calls_invD:
  "calls_inv h \<Longrightarrow> h_runs h i = Some r \<Longrightarrow>
     run_id r = i \<and> i \<le> h_runId h \<and> pays r (calls_of i h) (phase_of (run_pc r))"
  "calls_inv h \<Longrightarrow> h_runs h i = None \<Longrightarrow> calls_of i h = []"
  by (simp_all add: calls_inv_def)

lemma calls_of_append:
  "h_calls h' = h_calls h @ map (Pair j) cs \<Longrightarrow> calls_of i h' = calls_of i h @ (if i = j then cs else [])"
  by (simp add: calls_of_def filter_map comp_def)

lemma submit_calls_inv:
  assumes inv: "calls_inv h"
  shows "calls_inv (submit txt flow wallet h)"
proof (cases "trim txt = []")
  case False
  define r where "r = \<lparr>run_id = h_runId h + 1, run_text = txt, run_flow = flow, run_stage = At_request,
    run_pc = AwaitFirst, run_timer = False\<rparr>"
  have runs: "h_runs (submit txt flow wallet h) = (h_runs h)(h_runId h + 1 \<mapsto> r)"
    and run_no: "h_runId (submit txt flow wallet h) = h_runId h + 1"
    and calls: "h_calls (submit txt flow wallet h) = h_calls h @ map (Pair (h_runId h + 1)) [unpaid_post r]"
    using False by (simp_all add: submit_def Let_def r_def unpaid_post_def effect_defs)
  have "h_runs h (h_runId h + 1) = None"
    using calls_invD(1) [OF inv] by (cases "h_runs h (h_runId h + 1)") fastforce+
  then have "calls_of (h_runId h + 1) (submit txt flow wallet h) = [unpaid_post r]"
    using calls_invD(2) [OF inv] by (simp add: calls_of_append [OF calls])
  moreover have "run_id r = h_runId h + 1" "phase_of (run_pc r) = Asking" by (simp_all add: r_def)
  ultimately show ?thesis
    using inv pays.start [of r]
    by (auto simp: calls_inv_def runs run_no calls_of_append [OF calls] le_SucI)
qed (use inv in \<open>simp add: submit_def\<close>)

lemma put_run_calls_inv:
  assumes inv: "calls_inv h" and run: "h_runs h i = Some r" and "refines_step r h rh"
  shows "calls_inv (put_run rh)"
proof -
  obtain r' h' where rh: "rh = (r', h')" by (cases rh)
  obtain cs where ident: "run_id r' = run_id r" "run_text r' = run_text r" "run_flow r' = run_flow r"
      "h_runs h' = h_runs h" "h_runId h' = h_runId h"
    and calls: "h_calls h' = h_calls h @ map (Pair (run_id r)) cs"
    and step: "pay_step r (phase_of (run_pc r)) cs (phase_of (run_pc r'))"
    using assms(3) by (auto simp: refines_step_def rh)
  have r: "run_id r = i" "i \<le> h_runId h" "pays r (calls_of i h) (phase_of (run_pc r))"
    using calls_invD(1) [OF inv run] by simp_all
  have "pays r' (calls_of i h @ cs) (phase_of (run_pc r'))"
    using pays_run [OF pays.continue [OF r(3) step]] ident by blast
  moreover have "calls_of j (put_run (r', h')) = calls_of j h @ (if j = i then cs else [])" for j
    using calls_of_append [of "put_run (r', h')" h "run_id r" cs] calls r(1) by (simp add: put_run_def)
  moreover have "h_runs (put_run (r', h')) = (h_runs h)(i \<mapsto> r')" "h_runId (put_run (r', h')) = h_runId h"
    using ident r(1) by (simp_all add: put_run_def)
  ultimately show ?thesis
    using inv ident r(1, 2) by (auto simp: calls_inv_def rh)
qed

lemma fire_timer_calls_inv:
  assumes "calls_inv h" "h_runs h i = Some r"
  shows "calls_inv (put_run (fire_timer r h))"
proof -
  have r: "run_id r = i" "i \<le> h_runId h" "pays r (calls_of i h) (phase_of (run_pc r))"
    using calls_invD(1) [OF assms] by simp_all
  have "calls_of j (put_run (fire_timer r h)) = calls_of j h" for j
    by (simp add: fire_timer_def put_run_def calls_of_def)
  moreover have "pays (r\<lparr>run_timer := False\<rparr>) (calls_of i h) (phase_of (run_pc r))"
    using pays_run [OF r(3)] by simp
  ultimately show ?thesis
    using assms(1) r(1, 2)
    by (auto simp: calls_inv_def fire_timer_def put_run_def update_def)
qed

lemma calls_inv_step: "hook_step P h h' \<Longrightarrow> calls_inv h \<Longrightarrow> calls_inv h'"
proof (induction rule: hook_step.induct)
  case (do_reset h)
  then show ?case by (auto simp: calls_inv_def reset_hook_def calls_of_def le_SucI)
next
  case (do_resume h i r view wallet ans rh)
  then show ?case using put_run_calls_inv resume_refines by blast
qed (auto intro: submit_calls_inv fire_timer_calls_inv)

interpretation calls: transition_system hook_init "hook_step P" calls_inv for P
proof
  fix h
  assume "hook_init h"
  then show "calls_inv h" by (simp add: hook_init_def calls_inv_def calls_of_def)
next
  fix h h'
  assume "calls_inv h" "hook_step P h h'"
  then show "calls_inv h'" by (rule calls_inv_step [rotated])
qed

section \<open>Receipts handed to the store\<close>

definition checked :: "json option \<Rightarrow> bool" where
  "checked rc \<longleftrightarrow> (\<forall>v. rc = Some v \<longrightarrow> web_validateReceiptFormat (Some v) = Inr True)"

lemma read_receipt_checked: "readSummarizeSuccess res = Inr ok \<Longrightarrow> checked (ss_receipt ok)"
  by (auto simp: readSummarizeSuccess_def bindR_Inr_iff Let_def checked_def safeDecode_valid
      split: option.splits if_splits)

lemma web_valid_truthy: "web_validateReceiptFormat (Some rc) = Inr True \<Longrightarrow> truthy (Some rc)"
  by (cases rc) (auto simp: web_validateReceiptFormat_def Let_def split: if_splits)

lemma checked_truthy: "checked rc \<Longrightarrow> truthy rc \<longleftrightarrow> rc \<noteq> None"
  by (cases rc) (auto simp: checked_def dest: web_valid_truthy)

text \<open>The end of a successful run: what is handed over is what the page shows, if it shows it.\<close>

lemma complete_run_receipt:
  assumes "readSummarizeSuccess res = Inr ok" "complete_run P view r res h = (r', h')"
  shows "h_saved h' = h_saved h @ (case ss_receipt ok of None \<Rightarrow> [] | Some rc \<Rightarrow> [(rc, run_text r)])"
    and "h_state h' = (if isCurrent r h
      then (h_state h)\<lparr>us_step := S_done, us_summary := Some (ss_summary ok), us_receipt := ss_receipt ok,
        us_isRunning := False\<rparr>
      else h_state h)"
  using assms(2) checked_truthy [OF read_receipt_checked [OF assms(1)]]
  by (auto simp: complete_run_def assms(1) Let_def update_def track_def isCurrent_def split: option.splits)

text \<open>The receipts the flow handed over and the one on the page.\<close>

definition receipts_ok :: "hook \<Rightarrow> bool" where
  "receipts_ok h \<longleftrightarrow> checked (us_receipt (h_state h)) \<and> (\<forall>(rc, t) \<in> set (h_saved h). checked (Some rc))"

lemma receipts_ok_saved: "receipts_ok h \<Longrightarrow> (rc, t) \<in> set (h_saved h) \<Longrightarrow> web_validateReceiptFormat (Some rc) = Inr True"
  by (auto simp: receipts_ok_def checked_def)

text \<open>Every other segment leaves both alone.\<close>

definition receipts_kept :: "hook \<Rightarrow> run \<times> hook \<Rightarrow> bool" where
  "receipts_kept h rh \<longleftrightarrow>
     h_saved (snd rh) = h_saved h \<and> us_receipt (h_state (snd rh)) = us_receipt (h_state h)"

lemma receipts_kept_ok: "receipts_kept h rh \<Longrightarrow> receipts_ok h \<Longrightarrow> receipts_ok (snd rh)"
  by (simp add: receipts_kept_def receipts_ok_def)

lemma effects_receipt [simp]:
  "us_receipt (h_state (track r ev ps h)) = us_receipt (h_state h)"
  "us_receipt (h_state (identify r w ps h)) = us_receipt (h_state h)"
  "us_receipt (h_state (call_log r c h)) = us_receipt (h_state h)"
  "us_receipt (h_state (update r f h)) = (if isCurrent r h then us_receipt (f (h_state h)) else us_receipt (h_state h))"
  by (simp_all add: effect_defs identify_def)

lemma segments_keep_receipts:
  "receipts_kept h (after_first r res h)" "receipts_kept h (after_first_text P r res h)"
  "receipts_kept h (after_account r ctx acc h)" "receipts_kept h (after_connect r ctx a h)"
  "receipts_kept h (after_chain r ctx a c h)" "receipts_kept h (after_switch r ctx a h)"
  "receipts_kept h (after_signer r ctx a h)" "receipts_kept h (after_sign r ctx a sig h)"
  "receipts_kept h (after_retry r res h)" "receipts_kept h (after_retry_text P r res h)"
  "receipts_kept h (caught P view r e h)"
  by (simp_all add: receipts_kept_def segment_bodies Let_def split: option.split)

lemma throwing_segments_keep_receipts:
  "receipts_kept h (after_challenge P view wallet r res h)"
  "receipts_kept h (after_post_switch P view r ctx a c h)"
  "receipts_kept h (after_live_account P view r ctx a sig l h)"
  by (simp_all add: receipts_kept_def segment_bodies Let_def split: option.split sum.split)

lemma complete_run_receipts_ok:
  assumes "receipts_ok h"
  shows "receipts_ok (snd (complete_run P view r res h))"
proof (cases "readSummarizeSuccess res")
  case (Inl e)
  then show ?thesis using receipts_kept_ok [OF segments_keep_receipts(11) assms] by (simp add: complete_run_def)
next
  case (Inr ok)
  obtain r' h' where go: "complete_run P view r res h = (r', h')" by (cases "complete_run P view r res h")
  show ?thesis
    using complete_run_receipt [OF Inr go] read_receipt_checked [OF Inr] assms
    by (auto simp: go receipts_ok_def checked_def split: option.splits)
qed

lemmas segments_receipts_ok = complete_run_receipts_ok
  segments_keep_receipts [THEN receipts_kept_ok] throwing_segments_keep_receipts [THEN receipts_kept_ok]

lemma resume_receipts_ok:
  assumes "resume P view wallet r ans h = Some rh" "receipts_ok h"
  shows "receipts_ok (snd rh)"
  using assms unfolding resume_def
  by (cases "run_pc r"; cases ans) (auto split: sum.splits intro: segments_receipts_ok)

lemma receipts_ok_put_run: "receipts_ok (put_run rh) = receipts_ok (snd rh)"
  by (simp add: put_run_def receipts_ok_def split: prod.split)

lemma receipts_ok_step: "hook_step P h h' \<Longrightarrow> receipts_ok h \<Longrightarrow> receipts_ok h'"
proof (induction rule: hook_step.induct)
  case (do_submit h t flow wallet)
  then show ?case
    by (auto simp: submit_def Let_def receipts_ok_def checked_def effect_defs)
next
  case (do_reset h)
  then show ?case by (simp add: reset_hook_def receipts_ok_def checked_def INITIAL_STATE_def)
next
  case (do_timer h i r)
  then show ?case
    by (simp add: receipts_ok_put_run) (simp add: fire_timer_def receipts_ok_def)
qed (simp add: receipts_ok_put_run resume_receipts_ok)

interpretation receipts: transition_system hook_init "hook_step P" receipts_ok for P
proof
  fix h
  assume "hook_init h"
  then show "receipts_ok h" by (simp add: hook_init_def receipts_ok_def checked_def INITIAL_STATE_def)
next
  fix h h'
  assume "receipts_ok h" "hook_step P h h'"
  then show "receipts_ok h'" by (rule receipts_ok_step [rotated])
qed

section \<open>Properties\<close>

text \<open>C6:
  One submission pays at most once. In every history of submissions, resets, answers and
  timers, the calls of a run are: the unpaid request for its text; then questions to the
  wallet; then, in this order and as far as the run got, one signature of a payment context,
  a look at the connected account, and one request for the same text whose headers were
  built from that context and a signature. So no run signs twice or sends two paid requests,
  whatever the other runs do in between.
\<close>

theorem submission_pays_once:
  assumes "hook_init h" "(hook_step P)\<^sup>*\<^sup>* h h'" "h_runs h' i = Some r"
  shows "\<exists>qs n ctx sig hs.
    calls_of i h' =
      PostSummarize (run_text r) [(js ''X-Correlation-ID'', Some (JStr (correlationId (run_flow r))))] # qs @
      take n [SignContext ctx, GetAccount, PostSummarize (run_text r) (retry_headers r hs)] \<and>
    list_all wallet_query qs \<and> (2 < n \<longrightarrow> web_buildSignedHeaders ctx sig = Inr hs)"
  using calls_invD(1) [OF calls.inv_reachable [OF assms(1, 2)] assms(3)]
  by (auto dest!: pays_trace phase_trace_ok simp: trace_ok_def unpaid_post_def paying_def)

text \<open>A complete payment of the first run, answer by answer.\<close>

primrec replay :: "outcome list \<Rightarrow> run \<times> hook \<Rightarrow> run \<times> hook" where
  "replay [] rh = rh"
| "replay (a # as) rh =
     (case resume sample_platform (\<lambda>_. ErrorOther []) True (fst rh) a (snd rh) of
        None \<Rightarrow> rh
      | Some rh' \<Rightarrow> replay as (fst rh', put_run rh'))"

definition paid_history :: "run \<times> hook" where
  "paid_history =
     replay
       [Responded (Inr sample_challenge), BodyRead, AccountIs (Inr None), Connected (Inr (js ''0xa'')),
        ChainIs (Inr (Some (num_of_int 84532))),
        SignerReady (Inr ()), Signed (Inr (js ''0xs'')), AccountIs (Inr (Some (js ''0xa'')))]
       (sample_run_1, once)"

lemma reach_replay:
  "(hook_step sample_platform)\<^sup>*\<^sup>* h (snd rh) \<Longrightarrow> h_runs (snd rh) (run_id (fst rh)) = Some (fst rh) \<Longrightarrow>
     (hook_step sample_platform)\<^sup>*\<^sup>* h (snd (replay as rh)) \<and>
     h_runs (snd (replay as rh)) (run_id (fst (replay as rh))) = Some (fst (replay as rh))"
proof (induction as arbitrary: rh)
  case (Cons a as)
  show ?case
  proof (cases "resume sample_platform (\<lambda>_. ErrorOther []) True (fst rh) a (snd rh)")
    case (Some rh')
    have "(hook_step sample_platform)\<^sup>*\<^sup>* h (put_run rh')"
      using Cons.prems do_resume [OF Cons.prems(2) Some] by (meson rtranclp.rtrancl_into_rtrancl)
    moreover have "h_runs (put_run rh') (run_id (fst rh')) = Some (fst rh')"
      by (simp add: put_run_def split: prod.split)
    ultimately show ?thesis using Cons.IH [of "(fst rh', put_run rh')"] Some by simp
  qed (use Cons.prems in simp)
qed simp

lemma sample_challenge_read: "readPaymentChallenge sample_challenge = Inr (json_of_context sample_context)"
  using JSON_parse_stringify [OF json_ok_challenge [OF valid_sample_context, of "js ''pay''"]]
  by (simp add: readPaymentChallenge_def sample_challenge_def response_json_def parse_text_def prop_of_def
      challenge_body_def json_of_context_def)

lemma sample_headers_built:
  "\<exists>hs. web_buildSignedHeaders (json_of_context sample_context) sig = Inr hs"
  by (simp add: web_buildSignedHeaders_def json_of_context_def call_toString_def String_of_def)

lemma paid_history_calls:
  assumes "web_buildSignedHeaders (json_of_context sample_context) (js ''0xs'') = Inr hs"
  shows "calls_of 1 (snd paid_history) =
    [unpaid_post sample_run_1, GetAccount, Connect, GetChain, GetSigner (js ''0xa''),
     SignContext (json_of_context sample_context), GetAccount,
     PostSummarize (js ''hi'') (retry_headers sample_run_1 hs)]"
proof -
  have chain: "field (Some (json_of_context sample_context)) ''chainId'' = Some (JNum (num_of_int 84532))"
    by (simp add: json_of_context_def sample_context_def)
  have st: "r_status sample_challenge = 402" by (simp add: sample_challenge_def)
  have "h_calls once = [(1, unpaid_post sample_run_1)]"
    using trim_hi by (simp add: once_def submit_def Let_def empty_hook_def call_log_def unpaid_post_def sample_run_1_def
      track_def update_def isCurrent_def)
  then show ?thesis
    by (simp add: paid_history_def resume_def sample_run_1_def after_first_def after_challenge_def st
        sample_challenge_read after_account_def after_connect_def with_account_def after_chain_def chain
        same_chain_def chain_ready_def after_signer_def after_sign_def after_live_account_def assms
        calls_of_def put_run_def Let_def num_of_int_def retry_headers_def unpaid_post_def)
qed

lemma replay_same_run: "run_id (fst (replay as rh)) = run_id (fst rh)"
proof (induction as arbitrary: rh)
  case (Cons a as)
  then show ?case
    using resume_refines [of sample_platform "\<lambda>_. ErrorOther []" True "fst rh" a "snd rh"]
    by (auto simp: refines_step_def split: option.splits)
qed simp

lemma replay_reached:
  "(hook_step sample_platform)\<^sup>*\<^sup>* empty_hook (snd (replay as (sample_run_1, once)))"
  "h_runs (snd (replay as (sample_run_1, once))) 1 = Some (fst (replay as (sample_run_1, once)))"
proof -
  have "run_id sample_run_1 = 1" by (simp add: sample_run_1_def)
  then show "(hook_step sample_platform)\<^sup>*\<^sup>* empty_hook (snd (replay as (sample_run_1, once)))"
    and "h_runs (snd (replay as (sample_run_1, once))) 1 = Some (fst (replay as (sample_run_1, once)))"
    using reach_replay [of empty_hook "(sample_run_1, once)" as] reach_once [of sample_platform] sample_hooks(1)
      replay_same_run [of as "(sample_run_1, once)"]
    by simp_all
qed

lemma paid_history_reached:
  "(hook_step sample_platform)\<^sup>*\<^sup>* empty_hook (snd paid_history)"
  "h_runs (snd paid_history) 1 = Some (fst paid_history)"
  unfolding paid_history_def by (rule replay_reached)+

theorem submission_pays_once_witness:
  "length (calls_of 1 (snd paid_history)) = 8 \<and>
   (\<exists>qs n ctx hs. calls_of 1 (snd paid_history) =
      PostSummarize (run_text (fst paid_history))
        [(js ''X-Correlation-ID'', Some (JStr (correlationId (run_flow (fst paid_history)))))] # qs @
      take n [SignContext ctx, GetAccount,
        PostSummarize (run_text (fst paid_history)) (retry_headers (fst paid_history) hs)])"
proof -
  have "length (calls_of 1 (snd paid_history)) = 8"
    using sample_headers_built paid_history_calls by fastforce
  then show ?thesis
    using submission_pays_once [OF hook_init_empty paid_history_reached] by blast
qed

end
