(* ===== verification/PaygateClient.thy ===== *)
theory PaygateClient
  imports MicroaiProtocol
begin

text \<open>
  The SDK client: \<^verbatim>\<open>sdk/typescript/src/client.ts\<close> and the request and response types of
  \<^verbatim>\<open>sdk/typescript/src/protocol/types.ts\<close>.

  A client is the record of the class's private fields. \<open>request\<close> is the whole method: the
  unpaid request, the challenge, the signature, the paid retry and the checks of the
  receipt. The lemmas about it are proved once for every adapter that satisfies
  \<open>protocol_adapter\<close>, and the properties are their instances for the default protocol.
\<close>

section \<open>Data\<close>

text \<open>
  A request body is any value of the language. \<^verbatim>\<open>JSON.stringify\<close> prints the JSON values,
  throws on others (cyclic objects, big integers) and returns \<^verbatim>\<open>undefined\<close> for functions
  and symbols.
\<close>

datatype body = JsonBody json | ThrowingBody thrown | UnprintedBody

definition JSON_stringify :: "body \<Rightarrow> (thrown, jstring option) result" where
  "JSON_stringify b =
     (case b of JsonBody v \<Rightarrow> Inr (Some (stringify v)) | ThrowingBody e \<Rightarrow> Inl e
      | UnprintedBody \<Rightarrow> Inr None)"

record PaygateRequest =
  rq_method :: jstring
  rq_path :: jstring
  rq_body :: "body option"
  rq_headers :: "(jstring \<times> jstring) list option"

record PaygateResponse =
  pr_data :: json
  pr_receipt :: "json option"
  pr_receiptVerified :: "bool option"
  pr_status :: int

record 'w PaygateClientOptions =
  co_gatewayUrl :: jstring
  co_signer :: "'w PaymentSigner"
  co_fetch :: "'w fetcher option"
  co_protocol :: "'w PaygateProtocolAdapter option"
  co_trustedServerPublicKey :: "jstring option"

record 'w client =
  gatewayUrl :: jstring
  signer :: "'w PaymentSigner"
  fetcher :: "'w fetcher"
  protocol :: "'w PaygateProtocolAdapter"
  trustedServerPublicKey :: "jstring option"

record success_context =
  sc_endpoint :: jstring
  sc_requestBodyText :: "jstring option"

section \<open>Operations\<close>

definition new_PaygateClient ::
    "'sig platform \<Rightarrow> 'w fetcher \<Rightarrow> 'w PaygateClientOptions \<Rightarrow> 'w client" where
  "new_PaygateClient P globalFetch options =
     \<lparr>gatewayUrl = strip_slashes (co_gatewayUrl options),
      signer = co_signer options,
      fetcher = (case co_fetch options of None \<Rightarrow> globalFetch | Some f \<Rightarrow> f),
      protocol = (case co_protocol options of None \<Rightarrow> MicroAIPaygateProtocol P | Some p \<Rightarrow> p),
      trustedServerPublicKey = co_trustedServerPublicKey options\<rparr>"

definition scheme_start :: "cunit \<Rightarrow> bool" where
  "scheme_start u \<longleftrightarrow> cu CHR ''a'' \<le> ascii_lower u \<and> ascii_lower u \<le> cu CHR ''z''"

definition scheme_char :: "cunit \<Rightarrow> bool" where
  "scheme_char u \<longleftrightarrow> scheme_start u \<or> is_digit u \<or> u \<in> {cu CHR ''+'', cu CHR ''-'', cu CHR ''.''}"

text \<open>The pattern \<^verbatim>\<open>/^[a-z][a-z\d+\-.]*:\/\//i\<close>; the colon is not in the repeated class.\<close>

definition has_scheme :: "jstring \<Rightarrow> bool" where
  "has_scheme path =
     (case path of
        [] \<Rightarrow> False
      | u # rest \<Rightarrow> scheme_start u \<and> startsWith (dropWhile scheme_char rest) (js ''://''))"

definition buildUrl :: "'w client \<Rightarrow> jstring \<Rightarrow> (thrown, jstring) result" where
  "buildUrl this path =
     (if has_scheme path
      then Inl (new_PaygateSdkError network_error
        ''Request path must be relative to the configured gatewayUrl'' no_options)
      else Inr (gatewayUrl this @
        (if startsWith path (js ''/'') then path else js ''/'' @ path)))"

definition serializeRequestBody :: "body option \<Rightarrow> (thrown, jstring option) result" where
  "serializeRequestBody b =
     (case b of
        None \<Rightarrow> Inr None
      | Some v \<Rightarrow>
          catchR (JSON_stringify v) (\<lambda>error.
            Inl (new_PaygateSdkError network_error ''Failed to serialize request body as JSON''
              (no_options\<lparr>opt_cause := Some error\<rparr>))))"

definition buildReceiptEndpoint :: "jstring \<Rightarrow> jstring" where
  "buildReceiptEndpoint path =
     (let pathWithoutQuery = takeWhile (\<lambda>u. u \<notin> {cu CHR ''?'', cu CHR ''#''}) path in
      if pathWithoutQuery = [] then js ''/''
      else if startsWith pathWithoutQuery (js ''/'') then pathWithoutQuery
      else js ''/'' @ pathWithoutQuery)"

text \<open>Object spread: later properties replace earlier ones of the same name.\<close>

definition spread :: "(jstring \<times> jstring) list \<Rightarrow> (jstring \<times> jstring) list \<Rightarrow> (jstring \<times> jstring) list" where
  "spread base extra = fold (\<lambda>(k, v). put k v) extra base"

definition buildRequestInit ::
    "PaygateRequest \<Rightarrow> (jstring \<times> jstring) list \<Rightarrow> jstring option \<Rightarrow> request_init" where
  "buildRequestInit request extraHeaders requestBodyText =
     \<lparr>i_method = rq_method request,
      i_headers =
        spread
          (spread
            (case rq_body request of
               None \<Rightarrow> [] | Some _ \<Rightarrow> [(js ''Content-Type'', js ''application/json'')])
            (case rq_headers request of None \<Rightarrow> [] | Some hs \<Rightarrow> hs))
          extraHeaders,
      i_body = requestBodyText\<rparr>"

definition fetchOrThrow ::
    "'w client \<Rightarrow> jstring \<Rightarrow> request_init \<Rightarrow> ('w, thrown, response) io" where
  "fetchOrThrow this input init =
     catchIO (fetcher this input (Some init)) (\<lambda>error.
       throwIO (new_PaygateSdkError network_error ''Network error while calling gateway''
         (no_options\<lparr>opt_cause := Some error\<rparr>)))"

definition hashBody :: "'sig platform \<Rightarrow> jstring option \<Rightarrow> (thrown, jstring) result" where
  "hashBody P body_text =
     bindR (case body_text of None \<Rightarrow> Inr [] | Some t \<Rightarrow> toUtf8Bytes P t) (\<lambda>bytes.
     let hash = sha256 P bytes in Inr (js ''sha256:'' @ drop 2 hash))"

definition receiptMatchesPayload ::
    "'sig platform \<Rightarrow> json \<Rightarrow> success_context \<Rightarrow> jstring \<Rightarrow> (thrown, bool) result" where
  "receiptMatchesPayload P receipt ctx responseBodyText =
     (let service = field (field (Some receipt) ''receipt'') ''service'' in
      if str_of (field service ''endpoint'') \<noteq> Some (sc_endpoint ctx) then Inr False
      else
        bindR (hashBody P (sc_requestBodyText ctx)) (\<lambda>request_hash.
        if str_of (field service ''request_hash'') \<noteq> Some request_hash then Inr False
        else
          bindR (hashBody P (Some responseBodyText)) (\<lambda>response_hash.
          Inr (str_of (field service ''response_hash'') = Some response_hash))))"

definition readSuccess ::
    "'sig platform \<Rightarrow> 'w client \<Rightarrow> response \<Rightarrow> success_context \<Rightarrow>
       (thrown, PaygateResponse) result" where
  "readSuccess P this response ctx =
     bindR (r_text response) (\<lambda>bodyText.
     bindR
       (catchR (parse_text bodyText) (\<lambda>error.
          Inl (new_PaygateSdkError network_error ''Gateway returned invalid JSON''
            \<lparr>opt_status = Some (r_status response), opt_bodyText = Some bodyText,
             opt_cause = Some error\<rparr>)))
       (\<lambda>data.
     bindR (pr_readReceipt (protocol this) response) (\<lambda>receipt.
     case receipt of
       None \<Rightarrow>
         Inr \<lparr>pr_data = data, pr_receipt = None, pr_receiptVerified = None,
              pr_status = r_status response\<rparr>
     | Some receipt \<Rightarrow>
         bindR (receiptMatchesPayload P receipt ctx bodyText) (\<lambda>matches.
         if \<not> matches
         then Inl (new_PaygateSdkError receipt_verification_failed
           ''Gateway receipt does not match the request and response payload''
           (no_options\<lparr>opt_status := Some (r_status response)\<rparr>))
         else
           (let receiptVerified =
                  (case trustedServerPublicKey this of
                     None \<Rightarrow> False | Some key \<Rightarrow> verifyReceipt P receipt (Some key)) in
            if \<not> receiptVerified then
              if trustedServerPublicKey this = None
              then Inr \<lparr>pr_data = data, pr_receipt = Some receipt, pr_receiptVerified = Some False,
                        pr_status = r_status response\<rparr>
              else Inl (new_PaygateSdkError receipt_verification_failed
                ''Gateway receipt signature did not verify''
                (no_options\<lparr>opt_status := Some (r_status response)\<rparr>))
            else Inr \<lparr>pr_data = data, pr_receipt = Some receipt,
                      pr_receiptVerified = Some receiptVerified,
                      pr_status = r_status response\<rparr>)))))"

definition request ::
    "'sig platform \<Rightarrow> 'w client \<Rightarrow> PaygateRequest \<Rightarrow> ('w, thrown, PaygateResponse) io" where
  "request P this rq =
     bindIO (liftIO (buildUrl this (rq_path rq))) (\<lambda>url.
     bindIO (liftIO (serializeRequestBody (rq_body rq))) (\<lambda>requestBodyText.
     let successContext =
           \<lparr>sc_endpoint = buildReceiptEndpoint (rq_path rq),
            sc_requestBodyText = requestBodyText\<rparr>;
         firstInit = buildRequestInit rq [] requestBodyText in
     bindIO (fetchOrThrow this url firstInit) (\<lambda>firstResponse.
     if r_status firstResponse \<noteq> 402 then
       if \<not> response_ok firstResponse then
         bindIO (liftIO (r_text firstResponse)) (\<lambda>text.
           throwIO (new_PaygateSdkError network_error ''Gateway request failed''
             (no_options\<lparr>opt_status := Some (r_status firstResponse),
                opt_bodyText := Some text\<rparr>)))
       else liftIO (readSuccess P this firstResponse successContext)
     else
       bindIO (pr_readPaymentContext (protocol this) firstResponse) (\<lambda>paymentContext.
       bindIO
         (catchIO (pr_signPaymentContext (protocol this) (signer this) paymentContext) (\<lambda>error.
            throwIO (new_PaygateSdkError payment_signature_failed ''Failed to sign payment context''
              (no_options\<lparr>opt_cause := Some error\<rparr>))))
         (\<lambda>signature.
       let signedHeaders = pr_buildSignedHeaders (protocol this) paymentContext signature in
       bindIO (fetchOrThrow this url (buildRequestInit rq signedHeaders requestBodyText))
         (\<lambda>retryResponse.
       if \<not> response_ok retryResponse then
         bindIO (liftIO (r_text retryResponse)) (\<lambda>text.
           throwIO (new_PaygateSdkError signed_retry_failed ''Signed retry failed''
             (no_options\<lparr>opt_status := Some (r_status retryResponse),
                opt_bodyText := Some text\<rparr>)))
       else liftIO (readSuccess P this retryResponse successContext)))))))"

definition summarize ::
    "'sig platform \<Rightarrow> 'w client \<Rightarrow> jstring \<Rightarrow> ('w, thrown, PaygateResponse) io" where
  "summarize P this text =
     request P this
       \<lparr>rq_method = js ''POST'', rq_path = js ''/api/ai/summarize'',
        rq_body = Some (JsonBody (obj_lit [(''text'', Some (JStr text))])), rq_headers = None\<rparr>"

section \<open>Outcomes of the checks on a successful answer\<close>

lemma readSuccess_Inr:
  assumes "readSuccess P c r ctx = Inr resp"
  obtains t where "r_text r = Inr t" "JSON_parse t = Some (pr_data resp)" "pr_status resp = r_status r"
    "pr_readReceipt (protocol c) r = Inr (pr_receipt resp)"
    "\<forall>v. pr_receipt resp = Some v \<longrightarrow> receiptMatchesPayload P v ctx t = Inr True"
    "pr_receiptVerified resp =
       (case pr_receipt resp of None \<Rightarrow> None | Some v \<Rightarrow> Some (trustedServerPublicKey c \<noteq> None))"
    "\<forall>v k. pr_receipt resp = Some v \<and> trustedServerPublicKey c = Some k \<longrightarrow> verifyReceipt P v (Some k)"
proof -
  obtain t data receipt where t: "r_text r = Inr t" "JSON_parse t = Some data"
    "pr_readReceipt (protocol c) r = Inr receipt"
    using assms by (auto simp: readSuccess_def bindR_Inr_iff parse_text_def catchR_def split: option.splits)
  show ?thesis
  proof (cases receipt)
    case None
    with assms t show ?thesis
      by (intro that [of t]) (auto simp: readSuccess_def parse_text_def)
  next
    case (Some v)
    with assms t show ?thesis
      by (intro that [of t])
        (auto simp: readSuccess_def parse_text_def bindR_Inr_iff Let_def split: if_splits option.splits)
  qed
qed

lemma receiptMatchesPayload_True:
  assumes "receiptMatchesPayload P v ctx t = Inr True"
  shows "str_of (field (field (field (Some v) ''receipt'') ''service'') ''endpoint'') = Some (sc_endpoint ctx)"
    "hashBody P (sc_requestBodyText ctx) =
       Inr (the (str_of (field (field (field (Some v) ''receipt'') ''service'') ''request_hash'')))"
    "hashBody P (Some t) =
       Inr (the (str_of (field (field (field (Some v) ''receipt'') ''service'') ''response_hash'')))"
  using assms by (auto simp: receiptMatchesPayload_def Let_def bindR_Inr_iff split: if_splits)

text \<open>What the caller learns from a receipt that was accepted, over the declared type.\<close>

lemma receiptMatchesPayload_record:
  assumes "receiptMatchesPayload P v ctx t = Inr True" "as_SignedReceipt (Some v) = Some s"
  shows "sd_endpoint (rc_service (sr_receipt s)) = sc_endpoint ctx"
    "hashBody P (sc_requestBodyText ctx) = Inr (sd_request_hash (rc_service (sr_receipt s)))"
    "hashBody P (Some t) = Inr (sd_response_hash (rc_service (sr_receipt s)))"
  using receiptMatchesPayload_True [OF assms(1)]
    as_ServiceDetails_fields [OF as_Receipt_service, OF as_SignedReceipt_fields(1), OF assms(2)]
  by simp_all

lemma request_Inr:
  assumes "request P c rq w = (Inr resp, w')"
  obtains r t where "serializeRequestBody (rq_body rq) = Inr t" "response_ok r"
    "readSuccess P c r \<lparr>sc_endpoint = buildReceiptEndpoint (rq_path rq), sc_requestBodyText = t\<rparr> = Inr resp"
  using assms that
  by (auto simp: request_def bindIO_Inr_iff liftIO_def throwIO_def Let_def split: if_splits)

section \<open>The course of a request\<close>

text \<open>
  The method as a tree of outcomes: which call is made in which world, and how each branch
  ends. \<open>first_init\<close> is the unpaid request and \<open>paid_init\<close> the retry; \<open>failed_answer\<close> is
  the error built from the text of an answer, or the failure to read that text.
\<close>

definition first_init :: "PaygateRequest \<Rightarrow> jstring option \<Rightarrow> request_init" where
  "first_init rq t = buildRequestInit rq [] t"

definition paid_init ::
    "'w client \<Rightarrow> PaygateRequest \<Rightarrow> jstring option \<Rightarrow> PaymentContext \<Rightarrow> jstring \<Rightarrow> request_init" where
  "paid_init c rq t ctx sig = buildRequestInit rq (pr_buildSignedHeaders (protocol c) ctx sig) t"

definition payload_context :: "PaygateRequest \<Rightarrow> jstring option \<Rightarrow> success_context" where
  "payload_context rq t =
     \<lparr>sc_endpoint = buildReceiptEndpoint (rq_path rq), sc_requestBodyText = t\<rparr>"

definition failed_answer :: "PaygateSdkErrorCode \<Rightarrow> string \<Rightarrow> response \<Rightarrow> thrown" where
  "failed_answer k m r =
     (case r_text r of
        Inl e \<Rightarrow> e
      | Inr t \<Rightarrow> new_PaygateSdkError k m
          (no_options\<lparr>opt_status := Some (r_status r), opt_bodyText := Some t\<rparr>))"

definition unreachable :: "thrown \<Rightarrow> thrown" where
  "unreachable e = new_PaygateSdkError network_error ''Network error while calling gateway''
     (no_options\<lparr>opt_cause := Some e\<rparr>)"

definition unsigned :: "thrown \<Rightarrow> thrown" where
  "unsigned e = new_PaygateSdkError payment_signature_failed ''Failed to sign payment context''
     (no_options\<lparr>opt_cause := Some e\<rparr>)"

lemma has_code_built [simp]:
  "has_code k (unreachable e) \<longleftrightarrow> k = network_error"
  "has_code k (unsigned e) \<longleftrightarrow> k = payment_signature_failed"
  "is_sdk_error (unreachable e)" "is_sdk_error (unsigned e)"
  by (auto simp: unreachable_def unsigned_def)

lemma failed_answer_readable: "r_text r = Inr t \<Longrightarrow> has_code k (failed_answer k m r)"
  by (simp add: failed_answer_def)

lemma fetchOrThrow_eq:
  "fetchOrThrow c url init w =
     (case fetcher c url (Some init) w of
        (Inl e, w') \<Rightarrow> (Inl (unreachable e), w') | (Inr r, w') \<Rightarrow> (Inr r, w'))"
  by (simp add: fetchOrThrow_def catchIO_def throwIO_def unreachable_def split: prod.split sum.split)

lemma request_eq:
  "request P c rq w =
     (case buildUrl c (rq_path rq) of Inl e \<Rightarrow> (Inl e, w) | Inr url \<Rightarrow>
      case serializeRequestBody (rq_body rq) of Inl e \<Rightarrow> (Inl e, w) | Inr t \<Rightarrow>
      case fetcher c url (Some (first_init rq t)) w of
        (Inl e, w1) \<Rightarrow> (Inl (unreachable e), w1)
      | (Inr r1, w1) \<Rightarrow>
          if r_status r1 \<noteq> 402 then
            if response_ok r1 then (readSuccess P c r1 (payload_context rq t), w1)
            else (Inl (failed_answer network_error ''Gateway request failed'' r1), w1)
          else
            case pr_readPaymentContext (protocol c) r1 w1 of
              (Inl e, w2) \<Rightarrow> (Inl e, w2)
            | (Inr ctx, w2) \<Rightarrow>
            case pr_signPaymentContext (protocol c) (signer c) ctx w2 of
              (Inl e, w3) \<Rightarrow> (Inl (unsigned e), w3)
            | (Inr sig, w3) \<Rightarrow>
            case fetcher c url (Some (paid_init c rq t ctx sig)) w3 of
              (Inl e, w4) \<Rightarrow> (Inl (unreachable e), w4)
            | (Inr r2, w4) \<Rightarrow>
                if response_ok r2 then (readSuccess P c r2 (payload_context rq t), w4)
                else (Inl (failed_answer signed_retry_failed ''Signed retry failed'' r2), w4))"
  by (simp add: request_def bindIO_def catchIO_def liftIO_def throwIO_def fetchOrThrow_eq Let_def
      first_init_def paid_init_def payload_context_def failed_answer_def unsigned_def
      split: prod.split sum.split)

section \<open>Errors, for every adapter\<close>

definition hashable :: "'sig platform \<Rightarrow> jstring option \<Rightarrow> bool" where
  "hashable P t = is_ok (case t of None \<Rightarrow> Inr [] | Some s \<Rightarrow> toUtf8Bytes P s)"

lemma hashBody_ok: "hashable P t \<Longrightarrow> \<exists>h. hashBody P t = Inr h"
  by (cases t; cases "toUtf8Bytes P (the t)") (auto simp: hashable_def hashBody_def Let_def)

lemma receiptMatchesPayload_ok:
  assumes "hashable P (sc_requestBodyText ctx)" "hashable P (Some t)"
  shows "\<exists>b. receiptMatchesPayload P v ctx t = Inr b"
  using hashBody_ok [OF assms(1)] hashBody_ok [OF assms(2)]
  by (auto simp: receiptMatchesPayload_def Let_def)

lemma has_code_is_sdk: "has_code k e \<Longrightarrow> is_sdk_error e"
  by (simp add: has_code_def)

context protocol_adapter
begin

lemma readSuccess_error:
  assumes "protocol c = adapter" "readSuccess P c r ctx = Inl e" "r_text r = Inr t"
    and "hashable P (sc_requestBodyText ctx)" "hashable P (Some t)"
  shows "has_code network_error e \<or> has_code receipt_decode_failed e \<or>
    has_code receipt_verification_failed e"
proof (cases "JSON_parse t")
  case None
  with assms show ?thesis by (auto simp: readSuccess_def parse_text_def)
next
  case (Some d)
  show ?thesis
  proof (cases "pr_readReceipt adapter r")
    case (Inl e')
    with Some assms receipt_error show ?thesis by (auto simp: readSuccess_def parse_text_def)
  next
    case (Inr receipt)
    then obtain v where "receipt = Some v"
      using Some assms by (cases receipt) (auto simp: readSuccess_def parse_text_def)
    moreover obtain b where "receiptMatchesPayload P v ctx t = Inr b"
      using receiptMatchesPayload_ok [OF assms(4, 5)] by blast
    ultimately show ?thesis
      using Inr Some assms
      by (auto simp: readSuccess_def parse_text_def Let_def split: if_splits)
  qed
qed

lemma request_error:
  assumes c: "protocol c = adapter" and err: "request P c rq w = (Inl e, w')"
    and readable: "\<And>url init w r w'. fetcher c url init w = (Inr r, w') \<Longrightarrow>
      \<exists>t. r_text r = Inr t \<and> hashable P (Some t)"
    and body: "\<And>t. serializeRequestBody (rq_body rq) = Inr t \<Longrightarrow> hashable P t"
  shows "is_sdk_error e"
proof -
  have read: "is_sdk_error e'"
    if "r_text r = Inr u" "hashable P (Some u)" "serializeRequestBody (rq_body rq) = Inr t"
      "readSuccess P c r (payload_context rq t) = Inl e'" for r u t e'
    using readSuccess_error [OF c that(4)] that body by (auto simp: payload_context_def dest: has_code_is_sdk)
  have ser: "is_sdk_error e'" if "serializeRequestBody b = Inl e'" for b e'
    using that by (auto simp: serializeRequestBody_def catchR_def split: option.splits sum.splits)
  have url: "is_sdk_error e'" if "buildUrl c p = Inl e'" for p e'
    using that by (auto simp: buildUrl_def split: if_splits)
  have ctx: "is_sdk_error e'"
    if "r_text r = Inr u" "pr_readPaymentContext adapter r v = (Inl e', v')" for r u v v' e'
    using context_error [OF that(2)] that(1) by (auto dest: has_code_is_sdk)
  show ?thesis
    using err c
    by (auto simp: request_eq split: sum.splits prod.splits if_splits dest!: readable
        dest: ser url ctx read failed_answer_readable [THEN has_code_is_sdk])
qed

end

section \<open>Requests a client sends, in order\<close>

text \<open>
  A world that remembers what was sent and what the signer was asked to sign.
\<close>

datatype event =
    Sent jstring request_init
  | Asked TypedDataDomain "(jstring \<times> TypedDataField list) list" PaymentValue

definition traced_fetch :: "'s fetcher \<Rightarrow> ('s \<times> event list) fetcher" where
  "traced_fetch f url init w =
     (case w of (s, tr) \<Rightarrow>
        (case f url init s of (r, s') \<Rightarrow> (r, s', tr @ map (Sent url) (case init of None \<Rightarrow> [] | Some i \<Rightarrow> [i]))))"

definition traced_signer :: "'s PaymentSigner \<Rightarrow> ('s \<times> event list) PaymentSigner" where
  "traced_signer g d ty v w =
     (case w of (s, tr) \<Rightarrow> (case g d ty v s of (r, s') \<Rightarrow> (r, s', tr @ [Asked d ty v])))"

definition asked :: "PaymentContext \<Rightarrow> event" where
  "asked ctx = (let td = buildPaymentTypedData ctx in Asked (td_domain td) (td_types td) (td_value td))"

lemma traced_signPaymentContext:
  "signPaymentContext (traced_signer g) ctx (s, tr) =
     (case signPaymentContext g ctx s of (r, s') \<Rightarrow> (r, s', tr @ [asked ctx]))"
  by (simp add: signPaymentContext_def traced_signer_def asked_def Let_def)

definition sample_client :: "jstring option \<Rightarrow> (script \<times> event list) client" where
  "sample_client key =
     new_PaygateClient sample_platform (traced_fetch scripted)
       \<lparr>co_gatewayUrl = js ''http://g/'', co_signer = traced_signer (\<lambda>d ty v s. (Inr (js ''0x5''), s)),
        co_fetch = None, co_protocol = None, co_trustedServerPublicKey = key\<rparr>"

definition sample_request :: PaygateRequest where
  "sample_request = \<lparr>rq_method = js ''GET'', rq_path = js ''x'', rq_body = None, rq_headers = None\<rparr>"

lemma microai_sel [simp]:
  "pr_readPaymentContext (MicroAIPaygateProtocol P) = microai_readPaymentContext"
  "pr_signPaymentContext (MicroAIPaygateProtocol P) = signPaymentContext"
  "pr_buildSignedHeaders (MicroAIPaygateProtocol P) = buildSignedHeaders"
  "pr_readReceipt (MicroAIPaygateProtocol P) = microai_readReceipt P"
  by (simp_all add: MicroAIPaygateProtocol_def)

text \<open>The challenge of an answer, without the world that reading it leaves as it was.\<close>

definition challenge_of :: "response \<Rightarrow> (thrown, PaymentContext) result" where
  "challenge_of r = fst (microai_readPaymentContext r ())"

lemma readPaymentContext_eq: "microai_readPaymentContext r w = (challenge_of r, w)"
  by (auto simp: challenge_of_def microai_readPaymentContext_def bindIO_def catchIO_def liftIO_def
      throwIO_def returnIO_def Let_def split: sum.split prod.split)

lemma challenge_valid: "challenge_of r = Inr ctx \<Longrightarrow> valid_context ctx"
  using microai.context_valid [of _ r "()" ctx "()"] by (simp add: readPaymentContext_eq)

text \<open>C2:
  The payment protocol of one request, call by call. Nothing is sent when the path or the
  body is refused. Otherwise one unpaid request is sent; the signer is asked at most once,
  only after a 402 answer whose context is valid, and for exactly the typed data of that
  context; and one paid retry follows, to the same address with the same method and body,
  only if the signer returned a signature.
\<close>

theorem request_protocol:
  assumes "fetcher c = traced_fetch f" "signer c = traced_signer g"
    and "protocol c = MicroAIPaygateProtocol P"
    and "request P c rq (s, []) = (res, s', tr)"
  shows "(tr = [] \<and> (\<exists>e. res = Inl e \<and> has_code network_error e)) \<or>
    (\<exists>url t. buildUrl c (rq_path rq) = Inr url \<and> serializeRequestBody (rq_body rq) = Inr t \<and>
      (tr = [Sent url (first_init rq t)] \<or>
       (\<exists>r1 s1 ctx. f url (Some (first_init rq t)) s = (Inr r1, s1) \<and> r_status r1 = 402 \<and>
          challenge_of r1 = Inr ctx \<and> valid_context ctx \<and>
          (tr = [Sent url (first_init rq t), asked ctx] \<and>
             (\<exists>e. res = Inl e \<and> has_code payment_signature_failed e) \<or>
           (\<exists>sig s2. signPaymentContext g ctx s1 = (Inr sig, s2) \<and>
              tr = [Sent url (first_init rq t), asked ctx,
                    Sent url (buildRequestInit rq (buildSignedHeaders ctx sig) t)])))))"
proof (cases "buildUrl c (rq_path rq)")
  case (Inl e)
  then show ?thesis using assms by (auto simp: request_eq buildUrl_def split: if_splits)
next
  case url: (Inr url)
  show ?thesis
  proof (cases "serializeRequestBody (rq_body rq)")
    case (Inl e)
    then show ?thesis
      using assms url
      by (auto simp: request_eq serializeRequestBody_def catchR_def split: option.splits sum.splits)
  next
    case t: (Inr t)
    obtain x1 s1 where f1: "f url (Some (first_init rq t)) s = (x1, s1)" by fastforce
    show ?thesis
    proof (cases "\<exists>r1 ctx. x1 = Inr r1 \<and> r_status r1 = 402 \<and> challenge_of r1 = Inr ctx")
      case False
      then have "tr = [Sent url (first_init rq t)]"
        using assms url t f1
        by (auto simp: request_eq traced_fetch_def readPaymentContext_eq
            split: if_splits prod.splits sum.splits)
      then show ?thesis using url t by blast
    next
      case True
      then show ?thesis
        using assms url t f1 challenge_valid
        by (auto simp: request_eq traced_fetch_def traced_signPaymentContext paid_init_def
            readPaymentContext_eq split: if_splits prod.splits sum.splits)
    qed
  qed
qed

definition sample_run :: "(thrown, PaygateResponse) result \<times> script \<times> event list" where
  "sample_run =
     request sample_platform (sample_client None) sample_request
       ([Inr sample_challenge, Inr (sample_response 200 ''0'')], [])"

lemma sample_client_sel [simp]:
  "gatewayUrl (sample_client k) = js ''http://g''"
  "fetcher (sample_client k) = traced_fetch scripted"
  "signer (sample_client k) = traced_signer (\<lambda>d ty v s. (Inr (js ''0x5''), s))"
  "protocol (sample_client k) = MicroAIPaygateProtocol sample_platform"
  "trustedServerPublicKey (sample_client k) = k"
  by (simp_all add: sample_client_def new_PaygateClient_def strip_slashes_def js_def)

lemma challenge_of_sample: "challenge_of sample_challenge = Inr sample_context"
  using read_challenge [of sample_context sample_challenge "js ''pay''" "()"]
  by (simp add: challenge_of_def sample_challenge_def)

lemma sample_paths: "buildUrl (sample_client k) (rq_path sample_request) = Inr (js ''http://g/x'')"
    "serializeRequestBody (rq_body sample_request) = Inr None"
  by (simp_all add: buildUrl_def sample_request_def has_scheme_def serializeRequestBody_def js_def
      startsWith_def)

lemma sample_challenge_status: "r_status sample_challenge = 402"
  by (simp add: sample_challenge_def)

lemma sample_run_length: "length (snd (snd sample_run)) = 3"
  by (simp add: sample_run_def request_eq sample_paths traced_fetch_def readPaymentContext_eq
      challenge_of_sample signPaymentContext_def traced_signer_def
      sample_challenge_status sample_response_def response_ok_def Let_def)

theorem request_protocol_witness:
  "\<exists>url t sig. snd (snd sample_run) =
     [Sent url (first_init sample_request t), asked sample_context,
      Sent url (buildRequestInit sample_request (buildSignedHeaders sample_context sig) t)]"
  using request_protocol [of "sample_client None" scripted "\<lambda>d ty v s. (Inr (js ''0x5''), s)"
      sample_platform sample_request "[Inr sample_challenge, Inr (sample_response 200 ''0'')]"
      "fst sample_run" "fst (snd sample_run)" "snd (snd sample_run)"] sample_run_length
  by (auto simp: challenge_of_sample simp flip: sample_run_def)

text \<open>An answer with a receipt that matches \<open>sample_request\<close>, and the response it gives.\<close>

definition sample_paid :: SignedReceipt where
  "sample_paid = sample_signed
     \<lparr>sr_receipt := (sr_receipt sample_signed)
        \<lparr>rc_service := \<lparr>sd_endpoint = js ''/x'', sd_request_hash = js ''sha256:0'',
          sd_response_hash = js ''sha256:1''\<rparr>\<rparr>\<rparr>"

definition sample_answer :: response where
  "sample_answer =
     \<lparr>r_status = 200,
      r_headers = [(js ''x-402-receipt'', b64_encode (utf8_encode (stringify (json_of_signed sample_paid))))],
      r_text = Inr (js ''0'')\<rparr>"

definition sample_result :: "jstring option \<Rightarrow> PaygateResponse" where
  "sample_result key =
     \<lparr>pr_data = JNum (num_of_int 0), pr_receipt = Some (json_of_signed sample_paid),
      pr_receiptVerified = Some (key \<noteq> None), pr_status = 200\<rparr>"

lemma wf_sample_paid: "wf_signed sample_paid"
  using wf_sample_signed
  by (simp add: sample_paid_def wf_signed_def wf_receipt_def wf_service_def startsWith_js)

lemma b64_encode_eq_Nil: "b64_encode bs = [] \<longleftrightarrow> bs = []"
  by (cases bs rule: sextets.cases) (auto simp: b64_encode_def)

lemma receipt_in_answer:
  assumes "wf_signed s"
    and "r_headers r = [(js ''x-402-receipt'', b64_encode (utf8_encode (stringify (json_of_signed s))))]"
  shows "microai_readReceipt sample_platform r = Inr (Some (json_of_signed s))"
proof -
  have "map ascii_lower MICROAI_RECEIPT_HEADER = js ''x-402-receipt''"
    by (simp add: MICROAI_RECEIPT_HEADER_def js_def ascii_lower_def word_le_nat_alt word_unat_eq_iff
        unat_word_ariths)
  then have "header_get r MICROAI_RECEIPT_HEADER =
      Some (b64_encode (utf8_encode (stringify (json_of_signed s))))"
    by (simp add: header_get_def assms(2))
  then show ?thesis
    using assms(1)
    by (simp add: microai_readReceipt_def decode_gateway_header sample_platform_def
        b64_encode_eq_Nil utf8_encode_eq_Nil stringify_not_Nil json_ok_json_of_signed)
qed

lemma sample_answer_receipt:
  "microai_readReceipt sample_platform sample_answer = Inr (Some (json_of_signed sample_paid))"
  by (rule receipt_in_answer [OF wf_sample_paid]) (simp add: sample_answer_def)

lemma sample_authentic: "authentic sample_platform sample_paid sample_key"
  by (simp add: authentic_def recovered_key_def sample_platform_def normalizePublicKey_def
      sample_paid_def sample_signed_def sample_key_def)

lemma sample_service:
  "field (field (Some (json_of_signed sample_paid)) ''receipt'') ''service'' =
     Some (JObj [(js ''endpoint'', JStr (js ''/x'')), (js ''request_hash'', JStr (js ''sha256:0'')),
       (js ''response_hash'', JStr (js ''sha256:1''))])"
  by (simp add: json_of_signed_def json_of_receipt_def sample_paid_def)

lemma sample_payload: "payload_context sample_request None = \<lparr>sc_endpoint = js ''/x'', sc_requestBodyText = None\<rparr>"
  by (simp add: payload_context_def buildReceiptEndpoint_def sample_request_def js_def startsWith_def)

lemma digit_cu: "digit 0 = cu CHR ''0''" "digit (Suc 0) = cu CHR ''1''"
  by (simp_all add: digit_def word_unat_eq_iff)

lemma sample_hashes:
  "hashBody sample_platform None = Inr (js ''sha256:0'')"
  "hashBody sample_platform (Some (js ''0'')) = Inr (js ''sha256:1'')"
  by (simp_all add: hashBody_def sample_platform_def utf8_encode_def utf8_bytes_def is_high_def is_low_def
      js_def dec_string.simps digit_cu)

lemma parse_zero: "parse_text (js ''0'') = Inr (JNum (num_of_int 0))"
proof -
  have "stringify (JNum (num_of_int 0)) = js ''0''"
    by (simp add: num_to_string_int int_string_def dec_string.simps digit_cu js_def max_safe_integer_def)
  then show ?thesis
    using parse_text_stringify [of "JNum (num_of_int 0)"] by (simp add: max_safe_integer_def)
qed

lemma sample_paid_run:
  assumes "key \<in> {None, Some sample_key}"
  shows "request sample_platform (sample_client key) sample_request ([Inr sample_answer], []) =
    (Inr (sample_result key), [], [Sent (js ''http://g/x'') (first_init sample_request None)])"
proof -
  have status: "r_status sample_answer = 200" "r_text sample_answer = Inr (js ''0'')"
    by (simp_all add: sample_answer_def)
  have "verifyReceipt sample_platform (json_of_signed sample_paid) (Some sample_key)"
    by (rule verifyReceipt_record [THEN iffD2, OF _ wf_sample_paid sample_authentic]) simp
  then show ?thesis
    using assms
    by (auto simp: request_eq sample_paths traced_fetch_def readSuccess_def status response_ok_def
        sample_answer_receipt parse_zero receiptMatchesPayload_def sample_service sample_payload
        sample_hashes sample_result_def Let_def)
qed

text \<open>What is known of an answer whose receipt is reported verified.\<close>

lemma verified_request_bound:
  assumes "request P c rq w = (Inr resp, w')" "pr_receiptVerified resp = Some True"
  shows "\<exists>v s key sent_body answer. pr_receipt resp = Some v \<and> as_SignedReceipt (Some v) = Some s \<and>
    trustedServerPublicKey c = Some key \<and> authentic P s key \<and>
    sd_endpoint (rc_service (sr_receipt s)) = buildReceiptEndpoint (rq_path rq) \<and>
    serializeRequestBody (rq_body rq) = Inr sent_body \<and>
    hashBody P sent_body = Inr (sd_request_hash (rc_service (sr_receipt s))) \<and>
    JSON_parse answer = Some (pr_data resp) \<and>
    hashBody P (Some answer) = Inr (sd_response_hash (rc_service (sr_receipt s)))"
proof -
  obtain r t where t: "serializeRequestBody (rq_body rq) = Inr t"
    and rs: "readSuccess P c r \<lparr>sc_endpoint = buildReceiptEndpoint (rq_path rq), sc_requestBodyText = t\<rparr> =
      Inr resp" using request_Inr [OF assms(1)] by metis
  from rs assms(2) obtain v key answer where v: "pr_receipt resp = Some v"
    "trustedServerPublicKey c = Some key" "verifyReceipt P v (Some key)"
    "JSON_parse answer = Some (pr_data resp)"
    "receiptMatchesPayload P v \<lparr>sc_endpoint = buildReceiptEndpoint (rq_path rq), sc_requestBodyText = t\<rparr>
       answer = Inr True"
    by (auto elim!: readSuccess_Inr split: option.splits)
  then obtain s where "as_SignedReceipt (Some v) = Some s" "authentic P s key"
    using verifyReceipt_iff by blast
  then show ?thesis using t v receiptMatchesPayload_record [OF v(5)] by fastforce
qed

text \<open>C1:
  A response whose receipt is reported verified is bound to this request: the caller had
  configured a trusted key, the receipt is authentic for that key, it names the path that
  was requested, its request hash is the hash of the body that was sent and its response
  hash is the hash of the text from which the returned data was parsed.
\<close>

theorem verified_receipt_binds_payload:
  assumes "request P c rq w = (Inr resp, w')" "pr_receiptVerified resp = Some True"
  shows "\<exists>v s key sent_body answer. pr_receipt resp = Some v \<and> as_SignedReceipt (Some v) = Some s \<and>
    trustedServerPublicKey c = Some key \<and> authentic P s key \<and>
    sd_endpoint (rc_service (sr_receipt s)) = buildReceiptEndpoint (rq_path rq) \<and>
    serializeRequestBody (rq_body rq) = Inr sent_body \<and>
    hashBody P sent_body = Inr (sd_request_hash (rc_service (sr_receipt s))) \<and>
    JSON_parse answer = Some (pr_data resp) \<and>
    hashBody P (Some answer) = Inr (sd_response_hash (rc_service (sr_receipt s)))"
  using assms by (rule verified_request_bound)

theorem verified_receipt_binds_payload_witness:
  "authentic sample_platform sample_paid sample_key"
  using verified_receipt_binds_payload [OF sample_paid_run [of "Some sample_key"]]
  by (auto simp: sample_result_def)

text \<open>C13:
  What the verification flag can be: absent exactly when the answer carried no receipt,
  false exactly when the client has no trusted key, and otherwise true; a client with a
  trusted key never returns data with a receipt that did not verify.
\<close>

theorem receiptVerified_flag:
  assumes "request P c rq w = (Inr resp, w')"
  shows "pr_receiptVerified resp = map_option (\<lambda>_. trustedServerPublicKey c \<noteq> None) (pr_receipt resp)"
proof -
  obtain r t where "readSuccess P c r \<lparr>sc_endpoint = buildReceiptEndpoint (rq_path rq), sc_requestBodyText = t\<rparr> =
      Inr resp" using request_Inr [OF assms] by metis
  then show ?thesis by (auto elim!: readSuccess_Inr split: option.splits)
qed

theorem receiptVerified_flag_witness:
  "pr_receiptVerified (sample_result None) = Some False \<and>
   pr_receiptVerified (sample_result (Some sample_key)) = Some True"
  using receiptVerified_flag [OF sample_paid_run [of None]]
    receiptVerified_flag [OF sample_paid_run [of "Some sample_key"]]
  by (simp add: sample_result_def)



section \<open>Addresses and headers\<close>

definition delimiter :: "cunit \<Rightarrow> bool" where
  "delimiter u \<longleftrightarrow> u \<in> {cu CHR ''?'', cu CHR ''#''}"

lemma path_split: "path = takeWhile (\<lambda>u. u \<notin> {cu CHR ''?'', cu CHR ''#''}) path @ dropWhile (\<lambda>u. \<not> delimiter u) path"
  by (simp add: delimiter_def)

text \<open>C31:
  A request never leaves the configured gateway and is checked against the path it asked
  for: an accepted path gives the address \<open>gatewayUrl\<close> (without trailing slashes), then the
  endpoint that the receipt must name, then nothing or a query or fragment; the endpoint
  starts with a slash and has no query or fragment. A path with a scheme is refused.
\<close>

theorem request_address:
  assumes "c = new_PaygateClient P globalFetch options"
  shows "case buildUrl c path of
      Inl e \<Rightarrow> has_scheme path \<and> has_code network_error e
    | Inr url \<Rightarrow> \<exists>rest. url = strip_slashes (co_gatewayUrl options) @ buildReceiptEndpoint path @ rest \<and>
        (rest = [] \<or> delimiter (hd rest)) \<and> startsWith (buildReceiptEndpoint path) (js ''/'') \<and>
        list_all (\<lambda>u. \<not> delimiter u) (buildReceiptEndpoint path)"
proof (cases "has_scheme path")
  case True
  then show ?thesis by (simp add: buildUrl_def)
next
  case False
  define p where "p = takeWhile (\<lambda>u. u \<notin> {cu CHR ''?'', cu CHR ''#''}) path"
  define rest where "rest = dropWhile (\<lambda>u. \<not> delimiter u) path"
  have path: "path = p @ rest" using path_split by (simp add: p_def rest_def)
  have rest: "rest = [] \<or> delimiter (hd rest)"
    using hd_dropWhile [of "\<lambda>u. \<not> delimiter u" path] by (auto simp: rest_def)
  have p: "list_all (\<lambda>u. \<not> delimiter u) p"
    using set_takeWhileD by (fastforce simp: p_def delimiter_def list_all_iff)
  have slash: "\<not> delimiter (cu CHR ''/'')" by (simp add: delimiter_def)
  have url: "(if startsWith path (js ''/'') then path else js ''/'' @ path) = buildReceiptEndpoint path @ rest"
    using rest slash path unfolding buildReceiptEndpoint_def p_def [symmetric] Let_def
    by (cases p; cases rest) (auto simp: startsWith_def js_def)
  have "startsWith (buildReceiptEndpoint path) (js ''/'') \<and> list_all (\<lambda>u. \<not> delimiter u) (buildReceiptEndpoint path)"
    using p slash unfolding buildReceiptEndpoint_def p_def [symmetric] Let_def
    by (auto simp: startsWith_def js_def)
  then show ?thesis
    using False rest url assms by (auto simp: buildUrl_def new_PaygateClient_def)
qed

theorem request_address_witness:
  "\<exists>rest. js ''http://g/x'' = strip_slashes (js ''http://g/'') @ buildReceiptEndpoint (js ''x'') @ rest"
  using request_address [OF sample_client_def [of None], of "js ''x''"] sample_paths(1) [of None]
  by (auto simp: sample_request_def)

lemma map_of_spread: "map_of (spread base extra) = map_of base ++ map_of (rev extra)"
  by (induction extra arbitrary: base) (auto simp: spread_def map_add_def fun_eq_iff split: option.splits)

text \<open>
  The paid retry carries the signature, nonce and timestamp of the challenge whatever
  headers the caller supplied, and every other header of the caller as it is; apart from
  the headers it is the unpaid request.
\<close>

lemma paid_headers:
  "let i = buildRequestInit rq (buildSignedHeaders ctx sig) t; h = map_of (i_headers i) in
     h (js ''X-402-Signature'') = Some sig \<and>
     h (js ''X-402-Nonce'') = Some (ctx_nonce ctx) \<and>
     h (js ''X-402-Timestamp'') = Some (num_to_string (ctx_timestamp ctx)) \<and>
     (\<forall>k. k = js ''X-402-Signature'' \<or> k = js ''X-402-Nonce'' \<or> k = js ''X-402-Timestamp'' \<or>
        h k = map_of (i_headers (buildRequestInit rq [] t)) k) \<and>
     i_method i = rq_method rq \<and> i_body i = i_body (buildRequestInit rq [] t)"
  by (auto simp: buildRequestInit_def buildSignedHeaders_def map_of_spread map_add_def Let_def
      split: option.splits)

end
