(* ===== verification/SdkExamples.thy ===== *)
theory SdkExamples
  imports PaygateClient WebReceipts
begin

text \<open>
  The example programs of the SDK: \<^verbatim>\<open>sdk/typescript/examples/summarize.ts\<close> and
  \<^verbatim>\<open>sdk/typescript/examples/verify-receipt.ts\<close>.

  They are the documented way to use the client, so what they promise their user is stated
  here on top of the client's own properties. Constructing a wallet from a private key is a
  function of \<^verbatim>\<open>ethers\<close>, a parameter.
\<close>

section \<open>Environment and output\<close>

record 'w example_env =
  ex_gatewayUrl :: "jstring option"
  ex_privateKey :: "jstring option"
  ex_serverPublicKey :: "jstring option"
  ex_argv :: "jstring list"
  ex_Wallet :: "jstring \<Rightarrow> (thrown, 'w PaymentSigner) result"
  ex_fetch :: "'w fetcher"

datatype printed = Log string "json option" | Warn string | ErrorLine string

fun join_args :: "jstring list \<Rightarrow> jstring" where
  "join_args [] = []"
| "join_args [s] = s"
| "join_args (s # t # ss) = s @ js '' '' @ join_args (t # ss)"

definition example_text :: "jstring list \<Rightarrow> jstring" where
  "example_text argv =
     (let s = join_args (drop 2 argv) in
      if s = [] then js ''Summarize MicroAI Paygate in one sentence.'' else s)"

definition missing_key :: thrown where
  "missing_key = JsError (js ''Set EVM_PRIVATE_KEY to an unfunded local or test wallet private key.'')"

definition example_client ::
    "'sig platform \<Rightarrow> 'w example_env \<Rightarrow> 'w PaymentSigner \<Rightarrow> jstring option \<Rightarrow> 'w client" where
  "example_client P E wallet key =
     new_PaygateClient P (ex_fetch E)
       \<lparr>co_gatewayUrl = (case ex_gatewayUrl E of None \<Rightarrow> js ''http://localhost:3000'' | Some u \<Rightarrow> u),
        co_signer = wallet, co_fetch = None, co_protocol = None, co_trustedServerPublicKey = key\<rparr>"

text \<open>\<^verbatim>\<open>response.receipt?.receipt.id ?? "none"\<close>\<close>

definition receipt_id :: "json option \<Rightarrow> json option" where
  "receipt_id r = field (field r ''receipt'') ''id''"

section \<open>\<^verbatim>\<open>summarize.ts\<close>\<close>

definition summarize_example ::
    "'sig platform \<Rightarrow> 'w example_env \<Rightarrow> ('w, thrown, printed list) io" where
  "summarize_example P E =
     (case ex_privateKey E of
        None \<Rightarrow> throwIO missing_key
      | Some privateKey \<Rightarrow>
          if privateKey = [] then throwIO missing_key
          else
            bindIO (liftIO (ex_Wallet E privateKey)) (\<lambda>wallet.
            bindIO (summarize P (example_client P E wallet (ex_serverPublicKey E)) (example_text (ex_argv E)))
              (\<lambda>response.
            bindIO (liftIO (prop_of (Some (pr_data response)) ''result'')) (\<lambda>res.
            returnIO
              [Log ''Summary:'' res,
               Log ''Receipt ID:''
                 (if nullish (receipt_id (pr_receipt response)) then Some (JStr (js ''none''))
                  else receipt_id (pr_receipt response)),
               Log ''Receipt verified:'' (map_option JBool (pr_receiptVerified response))]))))"

section \<open>\<^verbatim>\<open>verify-receipt.ts\<close>\<close>

definition placeholder_key :: jstring where
  "placeholder_key = js ''0xYOUR_GATEWAY_PUBLIC_KEY''"

text \<open>The body of the \<^verbatim>\<open>try\<close>; the number is \<^verbatim>\<open>process.exitCode\<close>.\<close>

definition verified_output ::
    "'sig platform \<Rightarrow> 'w client \<Rightarrow> jstring \<Rightarrow> ('w, thrown, nat \<times> printed list) io" where
  "verified_output P client text =
     bindIO (summarize P client text) (\<lambda>response.
     if pr_receipt response = None
     then returnIO (1, [Warn ''No receipt returned; treat the response as untrusted.''])
     else if pr_receiptVerified response \<noteq> Some True
     then returnIO (1, [Warn ''Receipt was present but did not verify; discard the response.''])
     else
       bindIO (liftIO (prop_of (Some (pr_data response)) ''result'')) (\<lambda>res.
       returnIO
         (0, [Log ''Summary:'' res, Log ''Verified receipt ID:'' (receipt_id (pr_receipt response))])))"

definition receipt_error :: "thrown \<Rightarrow> bool" where
  "receipt_error e = (has_code receipt_verification_failed e \<or> has_code receipt_decode_failed e)"

definition verify_receipt_example ::
    "'sig platform \<Rightarrow> 'w example_env \<Rightarrow> ('w, thrown, nat \<times> printed list) io" where
  "verify_receipt_example P E =
     (let trustedServerPublicKey =
            (case ex_serverPublicKey E of None \<Rightarrow> placeholder_key | Some k \<Rightarrow> k);
          privateKey = (case ex_privateKey E of None \<Rightarrow> [] | Some k \<Rightarrow> k)
      in
      if privateKey = [] then throwIO missing_key
      else if trustedServerPublicKey = placeholder_key
      then throwIO (JsError (js ''Set PAYGATE_SERVER_PUBLIC_KEY to the trusted gateway public key.''))
      else
        bindIO (liftIO (ex_Wallet E privateKey)) (\<lambda>wallet.
        catchIO
          (verified_output P (example_client P E wallet (Some trustedServerPublicKey)) (example_text (ex_argv E)))
          (\<lambda>error.
            if receipt_error error
            then returnIO (1, [ErrorLine ''Receipt verification failed; treat the response as untrusted.''])
            else throwIO error)))"

section \<open>Properties\<close>

lemma example_client_key [simp]: "trustedServerPublicKey (example_client P E wallet key) = key"
  by (simp add: example_client_def new_PaygateClient_def)

lemma verified_output_zero:
  assumes "verified_output P c txt w = (Inr (n, out), w')"
  shows "if n = 0
    then \<exists>resp res. summarize P c txt w = (Inr resp, w') \<and> pr_receiptVerified resp = Some True \<and>
      prop_of (Some (pr_data resp)) ''result'' = Inr res \<and>
      out = [Log ''Summary:'' res, Log ''Verified receipt ID:'' (receipt_id (pr_receipt resp))]
    else n = 1 \<and> (\<exists>l. out = [Warn l])"
  using assms
  by (auto simp: verified_output_def bindIO_Inr_iff returnIO_def liftIO_def split: if_splits)

text \<open>C5:
  The verifying example shows a summary only if it can be trusted: when it ends normally,
  either it exits with 1 and prints a single warning and nothing of the answer, or it exits
  with 0 and prints the result of an answer whose receipt is authentic for the configured
  key, names the summarize path, and carries the hashes of the text sent and of the text the
  result was parsed from.
\<close>

theorem example_prints_only_verified:
  assumes "verify_receipt_example P E w = (Inr (n, out), w')"
  shows "if n = 0
    then \<exists>s key answer sent_body data res.
      ex_serverPublicKey E = Some key \<and> authentic P s key \<and>
      sd_endpoint (rc_service (sr_receipt s)) = js ''/api/ai/summarize'' \<and>
      serializeRequestBody
        (Some (JsonBody (obj_lit [(''text'', Some (JStr (example_text (ex_argv E))))]))) = Inr sent_body \<and>
      hashBody P sent_body = Inr (sd_request_hash (rc_service (sr_receipt s))) \<and>
      JSON_parse answer = Some data \<and>
      hashBody P (Some answer) = Inr (sd_response_hash (rc_service (sr_receipt s))) \<and>
      prop_of (Some data) ''result'' = Inr res \<and>
      out = [Log ''Summary:'' res, Log ''Verified receipt ID:'' (Some (JStr (rc_id (sr_receipt s))))]
    else n = 1 \<and> (\<exists>l. out = [Warn l] \<or> out = [ErrorLine l])"
proof -
  obtain key wallet w1 where key: "ex_serverPublicKey E = Some key"
    and run: "(\<exists>e. out = [ErrorLine e] \<and> n = 1) \<or>
      verified_output P (example_client P E wallet (Some key)) (example_text (ex_argv E)) w1 = (Inr (n, out), w')"
    using assms
    by (auto simp: verify_receipt_example_def bindIO_Inr_iff throwIO_def returnIO_def catchIO_def Let_def
        split: if_splits option.splits prod.splits sum.splits)
  show ?thesis
  proof (cases "n = 0")
    case False
    then show ?thesis using run verified_output_zero by (metis (no_types, lifting))
  next
    case True
    let ?c = "example_client P E wallet (Some key)"
    have "verified_output P ?c (example_text (ex_argv E)) w1 = (Inr (0, out), w')" using run True by auto
    from verified_output_zero [OF this]
    obtain resp res where resp: "summarize P ?c (example_text (ex_argv E)) w1 = (Inr resp, w')"
      "pr_receiptVerified resp = Some True" "prop_of (Some (pr_data resp)) ''result'' = Inr res"
      "out = [Log ''Summary:'' res, Log ''Verified receipt ID:'' (receipt_id (pr_receipt resp))]"
      by auto
    from verified_request_bound [OF resp(1) [unfolded summarize_def] resp(2)]
    obtain v s sent_body answer where v: "pr_receipt resp = Some v" "as_SignedReceipt (Some v) = Some s"
      "authentic P s key" "sd_endpoint (rc_service (sr_receipt s)) = buildReceiptEndpoint (js ''/api/ai/summarize'')"
      "serializeRequestBody
        (Some (JsonBody (obj_lit [(''text'', Some (JStr (example_text (ex_argv E))))]))) = Inr sent_body"
      "hashBody P sent_body = Inr (sd_request_hash (rc_service (sr_receipt s)))"
      "JSON_parse answer = Some (pr_data resp)"
      "hashBody P (Some answer) = Inr (sd_response_hash (rc_service (sr_receipt s)))"
      by auto
    have "buildReceiptEndpoint (js ''/api/ai/summarize'') = js ''/api/ai/summarize''"
      by (simp add: buildReceiptEndpoint_def js_def startsWith_def Let_def)
    moreover have "receipt_id (pr_receipt resp) = Some (JStr (rc_id (sr_receipt s)))"
      using as_Receipt_fields(1) [OF as_SignedReceipt_fields(1) [OF v(2)]]
      by (simp add: receipt_id_def v(1) str_of_Some_iff)
    ultimately show ?thesis using True key v resp(3, 4) by auto
  qed
qed

section \<open>A run of the verifying example\<close>

definition sent_json :: json where
  "sent_json = JObj [(js ''text'', JStr (js ''hi''))]"

definition answer_json :: json where
  "answer_json = JObj [(js ''result'', JStr (js ''ok''))]"

definition hash_of :: "json \<Rightarrow> jstring" where
  "hash_of v = js ''sha256:'' @ dec_string (length (utf8_encode (stringify v)))"

definition example_paid :: SignedReceipt where
  "example_paid = sample_signed
     \<lparr>sr_receipt := (sr_receipt sample_signed)
        \<lparr>rc_service := \<lparr>sd_endpoint = js ''/api/ai/summarize'', sd_request_hash = hash_of sent_json,
          sd_response_hash = hash_of answer_json\<rparr>\<rparr>\<rparr>"

definition example_answer :: response where
  "example_answer =
     \<lparr>r_status = 200,
      r_headers = [(js ''x-402-receipt'', b64_encode (utf8_encode (stringify (json_of_signed example_paid))))],
      r_text = Inr (stringify answer_json)\<rparr>"

definition sample_example :: "script example_env" where
  "sample_example =
     \<lparr>ex_gatewayUrl = None, ex_privateKey = Some (js ''k''), ex_serverPublicKey = Some sample_key,
      ex_argv = [[], [], js ''hi''], ex_Wallet = (\<lambda>_. Inr (\<lambda>d ty v w. (Inr (js ''0x5''), w))),
      ex_fetch = scripted\<rparr>"

lemma wf_example_paid: "wf_signed example_paid"
  using wf_sample_signed
  by (simp add: example_paid_def wf_signed_def wf_receipt_def wf_service_def hash_of_def)

lemma example_service:
  "field (field (Some (json_of_signed example_paid)) ''receipt'') ''service'' =
     Some (JObj [(js ''endpoint'', JStr (js ''/api/ai/summarize'')), (js ''request_hash'', JStr (hash_of sent_json)),
       (js ''response_hash'', JStr (hash_of answer_json))])"
  "receipt_id (Some (json_of_signed example_paid)) = Some (JStr (rc_id (sr_receipt sample_signed)))"
  by (simp_all add: json_of_signed_def json_of_receipt_def example_paid_def receipt_id_def)

lemma hash_example: "hashBody sample_platform (Some (stringify v)) = Inr (hash_of v)"
  by (simp add: hashBody_def hash_of_def sample_platform_def js_def)

lemma example_verifies: "verifyReceipt sample_platform (json_of_signed example_paid) (Some sample_key)"
  by (rule verifyReceipt_record [THEN iffD2, OF as_json_of_signed wf_example_paid])
    (simp add: authentic_def recovered_key_def sample_platform_def normalizePublicKey_def
      example_paid_def sample_signed_def sample_key_def)

lemma example_json_ok: "json_ok sent_json" "json_ok answer_json"
  by (simp_all add: sent_json_def answer_json_def canonical_named named_key)

definition example_result :: PaygateResponse where
  "example_result =
     \<lparr>pr_data = answer_json, pr_receipt = Some (json_of_signed example_paid),
      pr_receiptVerified = Some True, pr_status = 200\<rparr>"

lemma example_success:
  "readSuccess sample_platform (example_client sample_platform sample_example wal (Some sample_key)) example_answer
     \<lparr>sc_endpoint = js ''/api/ai/summarize'', sc_requestBodyText = Some (stringify sent_json)\<rparr> =
   Inr example_result"
proof -
  have "microai_readReceipt sample_platform example_answer = Inr (Some (json_of_signed example_paid))"
    by (rule receipt_in_answer [OF wf_example_paid]) (simp add: example_answer_def)
  then have "pr_readReceipt (protocol (example_client sample_platform sample_example wal (Some sample_key)))
      example_answer = Inr (Some (json_of_signed example_paid))"
    by (simp add: example_client_def new_PaygateClient_def)
  moreover have "receiptMatchesPayload sample_platform (json_of_signed example_paid)
      \<lparr>sc_endpoint = js ''/api/ai/summarize'', sc_requestBodyText = Some (stringify sent_json)\<rparr>
      (stringify answer_json) = Inr True"
    by (simp add: receiptMatchesPayload_def example_service hash_example Let_def)
  moreover have "r_text example_answer = Inr (stringify answer_json)" "r_status example_answer = 200"
    by (simp_all add: example_answer_def)
  ultimately show ?thesis
    using example_verifies example_json_ok(2) by (simp add: readSuccess_def example_result_def Let_def)
qed

lemma example_summarize:
  "summarize sample_platform (example_client sample_platform sample_example wal (Some sample_key)) (js ''hi'')
     [Inr example_answer] = (Inr example_result, [])"
proof -
  let ?c = "example_client sample_platform sample_example wal (Some sample_key)"
  let ?rq = "\<lparr>rq_method = js ''POST'', rq_path = js ''/api/ai/summarize'',
        rq_body = Some (JsonBody (obj_lit [(''text'', Some (JStr (js ''hi'')))])), rq_headers = None\<rparr>"
  have url: "\<exists>url. buildUrl ?c (js ''/api/ai/summarize'') = Inr url"
    by (simp add: buildUrl_def has_scheme_def scheme_start_def js_def ascii_lower_def word_le_nat_alt)
  have body: "serializeRequestBody (rq_body ?rq) = Inr (Some (stringify sent_json))"
    using example_json_ok(1)
    by (simp add: serializeRequestBody_def JSON_stringify_def sent_json_def obj_lit_def map_filter_simps)
  have ctx: "payload_context ?rq t = \<lparr>sc_endpoint = js ''/api/ai/summarize'', sc_requestBodyText = t\<rparr>" for t
    by (simp add: payload_context_def buildReceiptEndpoint_def js_def startsWith_def)
  have f: "fetcher ?c = scripted" by (simp add: example_client_def new_PaygateClient_def sample_example_def)
  have status: "r_status example_answer = 200" by (simp add: example_answer_def)
  show ?thesis
    using url body ctx example_success
    by (auto simp: summarize_def request_eq f status response_ok_def)
qed

lemma sample_example_run:
  "verify_receipt_example sample_platform sample_example [Inr example_answer] =
     (Inr (0, [Log ''Summary:'' (Some (JStr (js ''ok''))),
        Log ''Verified receipt ID:'' (Some (JStr (rc_id (sr_receipt sample_signed))))]), [])"
proof -
  have key: "sample_key \<noteq> placeholder_key" by (simp add: sample_key_def placeholder_key_def)
  have said: "example_text (ex_argv sample_example) = js ''hi''"
    by (simp add: example_text_def sample_example_def)
  have sel: "ex_privateKey sample_example = Some (js ''k'')" "ex_serverPublicKey sample_example = Some sample_key"
    "ex_Wallet sample_example k = Inr (\<lambda>d ty v w. (Inr (js ''0x5''), w))" for k
    by (simp_all add: sample_example_def)
  show ?thesis
    using key
    by (simp add: sel verify_receipt_example_def bindIO_def liftIO_def catchIO_def returnIO_def verified_output_def
        said example_summarize example_result_def example_service answer_json_def)
qed

theorem example_prints_only_verified_witness:
  "\<exists>s. authentic sample_platform s sample_key \<and>
     sd_endpoint (rc_service (sr_receipt s)) = js ''/api/ai/summarize'' \<and>
     rc_id (sr_receipt s) = rc_id (sr_receipt sample_signed)"
  using example_prints_only_verified [OF sample_example_run] by (auto simp: sample_example_def)

end
