(* ===== verification/SmokeTest.thy ===== *)
theory SmokeTest
  imports WebReceipts
begin

text \<open>
  The smoke test of a deployment: \<^verbatim>\<open>web/scripts/deployed-smoke-test.ts\<close>.

  The script runs over a world \<open>'w\<close> (the network, the clock) and its own state, the failure
  counter and the printed checks. The wallet, \<^verbatim>\<open>ethers.getAddress\<close> and the clock are
  parameters. The property says what its exit code means.
\<close>

section \<open>Environment and state\<close>

record 'w smoke_env =
  GATEWAY :: jstring
  VERIFIER :: jstring
  ORIGIN :: jstring
  se_fetch :: "'w fetcher"
  se_address :: jstring
  se_signer :: "'w JsonRpcSigner"
  se_getAddress :: "json option \<Rightarrow> (thrown, jstring) result"
  se_now :: "'w \<Rightarrow> int \<times> 'w"

definition target :: "jstring option \<Rightarrow> string \<Rightarrow> jstring" where
  "target env fallback = (case env of Some u \<Rightarrow> u | None \<Rightarrow> js fallback)"

definition smoke_env ::
    "jstring option \<Rightarrow> jstring option \<Rightarrow> jstring option \<Rightarrow> 'w fetcher \<Rightarrow> jstring \<Rightarrow> 'w JsonRpcSigner \<Rightarrow>
       (json option \<Rightarrow> (thrown, jstring) result) \<Rightarrow> ('w \<Rightarrow> int \<times> 'w) \<Rightarrow> 'w smoke_env" where
  "smoke_env gateway verifier origin fetch address signer getAddress now =
     \<lparr>GATEWAY = target gateway ''https://microai-gateway.onrender.com'',
      VERIFIER = target verifier ''https://microai-paygate.onrender.com'',
      ORIGIN = target origin ''https://microai-paygate.vercel.app'',
      se_fetch = fetch, se_address = address, se_signer = signer, se_getAddress = getAddress,
      se_now = now\<rparr>"

record check =
  ck_label :: string
  ck_ok :: bool
  ck_line :: jstring

record smoke =
  failures :: nat
  checks :: "check list"

type_synonym ('w, 'a) script_io = "('w \<times> smoke, thrown, 'a) io"

definition lift_world :: "('w, thrown, 'a) io \<Rightarrow> ('w, 'a) script_io" where
  "lift_world m ws = (case m (fst ws) of (r, w') \<Rightarrow> (r, w', snd ws))"

section \<open>Helpers of the script\<close>

definition padEnd45 :: "jstring \<Rightarrow> jstring" where
  "padEnd45 s = s @ replicate (45 - length s) (cu (CHR '' ''))"

text \<open>The line is built, and may fail, before the counter changes.\<close>

definition rec :: "string \<Rightarrow> bool \<Rightarrow> json option \<Rightarrow> ('w, unit) script_io" where
  "rec label ok detail ws =
     (case String_of detail of
        Inl e \<Rightarrow> (Inl e, ws)
      | Inr d \<Rightarrow>
          (Inr (),
           fst ws,
           (snd ws)\<lparr>failures := failures (snd ws) + (if \<not> ok then 1 else 0),
             checks := checks (snd ws) @
               [\<lparr>ck_label = label, ck_ok = ok,
                 ck_line = js ''  '' @ js (if ok then ''PASS'' else ''FAIL'') @ js ''  '' @
                   padEnd45 (js label) @ js '' '' @ d\<rparr>]\<rparr>))"

definition timedFetch :: "'w smoke_env \<Rightarrow> jstring \<Rightarrow> request_init option \<Rightarrow> ('w, response) script_io" where
  "timedFetch E url init = lift_world (se_fetch E url init)"

definition post_init :: "(string \<times> jstring) list \<Rightarrow> jstring \<Rightarrow> request_init" where
  "post_init headers body =
     \<lparr>i_method = js ''POST'', i_headers = map (\<lambda>(k, v). (js k, v)) headers, i_body = Some body\<rparr>"

text \<open>The answer's \<^verbatim>\<open>paymentContext\<close> is not checked: \<open>None\<close> is \<^verbatim>\<open>undefined\<close>.\<close>

definition getChallenge :: "'w smoke_env \<Rightarrow> jstring \<Rightarrow> ('w, json option) script_io" where
  "getChallenge E text =
     bindIO (timedFetch E (GATEWAY E @ js ''/api/ai/summarize'')
       (Some (post_init [(''Content-Type'', js ''application/json''), (''Origin'', ORIGIN E)]
         (stringify (obj_lit [(''text'', Some (JStr text))]))))) (\<lambda>r.
     bindIO (liftIO (response_json r)) (\<lambda>data.
     liftIO (prop_of (Some data) ''paymentContext'')))"

definition signCtx ::
    "'w smoke_env \<Rightarrow> json option \<Rightarrow> json option \<Rightarrow> ('w, jstring) script_io" where
  "signCtx E ctx chainIdOverride =
     bindIO (liftIO (prop_of ctx ''chainId'')) (\<lambda>chainId.
     lift_world (se_signer E
       \<lparr>wd_name = js ''MicroAI Paygate'', wd_version = js ''1'',
        wd_chainId = (if nullish chainIdOverride then chainId else chainIdOverride),
        wd_verifyingContract = ZeroAddress\<rparr>
       [(js ''Payment'',
         [\<lparr>tf_name = js ''recipient'', tf_type = js ''address''\<rparr>,
          \<lparr>tf_name = js ''token'', tf_type = js ''string''\<rparr>,
          \<lparr>tf_name = js ''amount'', tf_type = js ''string''\<rparr>,
          \<lparr>tf_name = js ''nonce'', tf_type = js ''string''\<rparr>,
          \<lparr>tf_name = js ''timestamp'', tf_type = js ''uint256''\<rparr>])]
       \<lparr>wv_recipient = field ctx ''recipient'', wv_token = field ctx ''token'',
        wv_amount = field ctx ''amount'', wv_nonce = field ctx ''nonce'',
        wv_timestamp = field ctx ''timestamp''\<rparr>))"

record posted =
  po_status :: int
  po_body :: jstring
  po_response :: response

definition postSigned :: "'w smoke_env \<Rightarrow> json option \<Rightarrow> jstring \<Rightarrow> ('w, posted) script_io" where
  "postSigned E ctx sig =
     bindIO (liftIO (prop_of ctx ''nonce'')) (\<lambda>nonce.
     bindIO (liftIO (String_of (field ctx ''timestamp''))) (\<lambda>timestamp.
     bindIO (liftIO (String_of nonce)) (\<lambda>nonce_text.
     bindIO (timedFetch E (GATEWAY E @ js ''/api/ai/summarize'')
       (Some (post_init
         [(''Content-Type'', js ''application/json''), (''Origin'', ORIGIN E), (''X-402-Signature'', sig),
          (''X-402-Nonce'', nonce_text), (''X-402-Timestamp'', timestamp)]
         (stringify (obj_lit [(''text'', Some (JStr (js ''smoke test summarize'')))]))))) (\<lambda>r.
     bindIO (liftIO (r_text r)) (\<lambda>body.
     returnIO \<lparr>po_status = r_status r, po_body = body, po_response = r\<rparr>)))))"

text \<open>\<^verbatim>\<open>expiredCtx.timestamp = n\<close>; an array with such a property has none of the others read here.\<close>

definition set_timestamp :: "json option \<Rightarrow> int \<Rightarrow> (thrown, json option) result" where
  "set_timestamp ctx n =
     (case ctx of
        Some (JObj kvs) \<Rightarrow> Inr (Some (JObj (put (js ''timestamp'') (JNum (num_of_int n)) kvs)))
      | Some (JArr vs) \<Rightarrow> Inr (Some (JObj [(js ''timestamp'', JNum (num_of_int n))]))
      | _ \<Rightarrow> Inl (NativeError TypeError))"

text \<open>\<^verbatim>\<open>Math.floor(Date.now() / 1000) - 3600\<close>\<close>

definition hour_ago :: "int \<Rightarrow> int" where
  "hour_ago now = (case to_double (of_int now / 1000) of Fin r \<Rightarrow> \<lfloor>r\<rfloor> | _ \<Rightarrow> 0) - 3600"

definition http :: "int \<Rightarrow> json option" where
  "http n = Some (JStr (js ''HTTP '' @ int_string n))"

text \<open>\<^verbatim>\<open>v ?? d\<close>\<close>

definition or_else :: "json option \<Rightarrow> jstring \<Rightarrow> json option" where
  "or_else v d = (if nullish v then Some (JStr d) else v)"

section \<open>The run\<close>

definition canonical_recipient :: "'w smoke_env \<Rightarrow> json option \<Rightarrow> bool" where
  "canonical_recipient E ctx =
     (case bindR (prop_of ctx ''recipient'') (\<lambda>a.
           bindR (se_getAddress E a) (\<lambda>c. Inr (a = Some (JStr c))))
      of Inr b \<Rightarrow> b | Inl _ \<Rightarrow> False)"

text \<open>\<^verbatim>\<open>r?.payment?.payer?.toLowerCase() === wallet.address.toLowerCase()\<close>\<close>

definition payer_matches :: "'sig platform \<Rightarrow> json option \<Rightarrow> jstring \<Rightarrow> (thrown, bool) result" where
  "payer_matches P payer address =
     (if nullish payer then Inr False
      else bindR (call_toLowerCase P payer) (\<lambda>p. Inr (p = lower P address)))"

definition check_receipt ::
    "'sig platform \<Rightarrow> 'w smoke_env \<Rightarrow> jstring \<Rightarrow> ('w, json option) script_io" where
  "check_receipt P E receiptHeader =
     bindIO (liftIO (case atob receiptHeader of
         None \<Rightarrow> Inl (NativeError InvalidCharacterError) | Some t \<Rightarrow> parse_text t)) (\<lambda>decoded.
     bindIO (liftIO (prop_of (Some decoded) ''receipt'')) (\<lambda>r.
     let rid = field r ''id''; payer = field (field r ''payment'') ''payer'' in
     bindIO (rec ''receipt has id + signature'' (truthy rid \<and> truthy (field (Some decoded) ''signature''))
       (or_else rid (js ''?''))) (\<lambda>_.
     bindIO (liftIO (payer_matches P payer (se_address E))) (\<lambda>same.
     bindIO (rec ''receipt.payment.payer matches signer'' same (or_else payer (js ''(missing)''))) (\<lambda>_.
     returnIO rid)))))"

definition happy_path ::
    "'sig platform \<Rightarrow> 'w smoke_env \<Rightarrow> ('w, json option \<times> jstring \<times> json option) script_io" where
  "happy_path P E =
     bindIO (getChallenge E (js ''smoke'')) (\<lambda>ctx.
     bindIO (liftIO (prop_of ctx ''recipient'')) (\<lambda>recipient.
     bindIO (rec ''recipient is EIP-55 canonical'' (canonical_recipient E ctx) recipient) (\<lambda>_.
     bindIO (signCtx E ctx None) (\<lambda>sig.
     bindIO (postSigned E ctx sig) (\<lambda>ok.
     bindIO (rec ''signed flow returns 200'' (po_status ok = 200) (http (po_status ok))) (\<lambda>_.
     let receiptHeader =
           (case header_get (po_response ok) (js ''x-402-receipt'') of None \<Rightarrow> [] | Some h \<Rightarrow> h) in
     bindIO (rec ''X-402-Receipt header present'' (receiptHeader \<noteq> [])
       (Some (JStr (js (if receiptHeader \<noteq> [] then ''yes'' else ''missing''))))) (\<lambda>_.
     bindIO (if receiptHeader \<noteq> [] then check_receipt P E receiptHeader else returnIO None) (\<lambda>receiptId.
     returnIO (ctx, sig, receiptId)))))))))"

definition negative_cases :: "'w smoke_env \<Rightarrow> json option \<Rightarrow> jstring \<Rightarrow> ('w, unit) script_io" where
  "negative_cases E ctx sig =
     bindIO (postSigned E ctx sig) (\<lambda>replay.
     bindIO (rec ''replay rejected with 409'' (po_status replay = 409) (http (po_status replay))) (\<lambda>_.
     bindIO (getChallenge E (js ''smoke'')) (\<lambda>fresh.
     bindIO (lift_world (\<lambda>w. case se_now E w of (n, w') \<Rightarrow> (Inr n, w'))) (\<lambda>now.
     bindIO (liftIO (set_timestamp fresh (hour_ago now))) (\<lambda>expiredCtx.
     bindIO (signCtx E expiredCtx None) (\<lambda>expiredSig.
     bindIO (postSigned E expiredCtx expiredSig) (\<lambda>expired_answer.
     bindIO (rec ''expired timestamp rejected with 400'' (po_status expired_answer = 400)
       (http (po_status expired_answer))) (\<lambda>_.
     bindIO (timedFetch E (GATEWAY E @ js ''/api/ai/summarize'')
       (Some \<lparr>i_method = js ''OPTIONS'',
              i_headers = [(js ''Origin'', js ''https://evil.example.com''),
                (js ''Access-Control-Request-Method'', js ''POST'')],
              i_body = None\<rparr>)) (\<lambda>wrongOrigin.
     let wrongAllowOrigin = header_get wrongOrigin (js ''access-control-allow-origin'') in
     bindIO (rec ''CORS preflight from wrong origin omits allow-origin'' (wrongAllowOrigin = None)
       (Some (JStr (case wrongAllowOrigin of
          Some o' \<Rightarrow> o' | None \<Rightarrow> js ''(no allow-origin) HTTP '' @ int_string (r_status wrongOrigin))))) (\<lambda>_.
     bindIO (timedFetch E (VERIFIER E @ js ''/verify'')
       (Some (post_init [(''Content-Type'', js ''application/json'')] (js ''{\"foo\":\"bar\"}'')))) (\<lambda>garbage.
     rec ''verifier rejects garbage with 400'' (r_status garbage = 400) (http (r_status garbage)))))))))))))"

definition receipt_persistence :: "'w smoke_env \<Rightarrow> json option \<Rightarrow> ('w, unit) script_io" where
  "receipt_persistence E receiptId =
     (if truthy receiptId then
        bindIO (liftIO (String_of receiptId)) (\<lambda>rid.
        bindIO (timedFetch E (GATEWAY E @ js ''/api/receipts/'' @ rid) None) (\<lambda>lookup.
        rec ''receipt lookup returns 200'' (r_status lookup = 200) (http (r_status lookup))))
      else
        rec ''receipt lookup'' False (Some (JStr (js ''skipped '' @ [0x2014] @ js '' no receipt id''))))"

definition main :: "'sig platform \<Rightarrow> 'w smoke_env \<Rightarrow> ('w, nat) script_io" where
  "main P E =
     bindIO (happy_path P E) (\<lambda>(ctx, sig, receiptId).
     bindIO (negative_cases E ctx sig) (\<lambda>_.
     bindIO (receipt_persistence E receiptId) (\<lambda>_ ws.
       (Inr (if failures (snd ws) = 0 then 0 else 1), ws))))"

text \<open>The exit code of the process, with the checks it printed.\<close>

definition smoke_test :: "'sig platform \<Rightarrow> 'w smoke_env \<Rightarrow> 'w \<Rightarrow> nat \<times> smoke" where
  "smoke_test P E w =
     (case main P E (w, \<lparr>failures = 0, checks = []\<rparr>) of
        (Inr c, ws) \<Rightarrow> (c, snd ws)
      | (Inl e, ws) \<Rightarrow> (2, snd ws))"

section \<open>Calls that record nothing\<close>

definition quiet :: "('w, 'a) script_io \<Rightarrow> bool" where
  "quiet m \<longleftrightarrow> (\<forall>ws. snd (snd (m ws)) = snd ws)"

lemma quietD: "quiet m \<Longrightarrow> m ws = (r, ws') \<Longrightarrow> snd ws' = snd ws"
  unfolding quiet_def by (metis snd_conv)

lemma quiet_base [simp]: "quiet (liftIO r)" "quiet (returnIO x)" "quiet (lift_world m)"
  by (simp_all add: quiet_def liftIO_def returnIO_def lift_world_def split: prod.split)

lemma quiet_bind [intro!]: "quiet m \<Longrightarrow> (\<And>x. quiet (f x)) \<Longrightarrow> quiet (bindIO m f)"
  unfolding quiet_def bindIO_def by (auto split: prod.split sum.split) (metis snd_conv)+

lemma quiet_calls [simp]:
  "quiet (timedFetch E url init)" "quiet (getChallenge E t)" "quiet (signCtx E ctx o')" "quiet (postSigned E ctx sig)"
  by (auto simp: timedFetch_def getChallenge_def signCtx_def postSigned_def)

section \<open>What the phases record\<close>

definition verdicts :: "smoke \<Rightarrow> (string \<times> bool) list" where
  "verdicts s = map (\<lambda>c. (ck_label c, ck_ok c)) (checks s)"

definition counted :: "smoke \<Rightarrow> bool" where
  "counted s \<longleftrightarrow> failures s = length (filter (\<lambda>c. \<not> ck_ok c) (checks s))"

definition recorded :: "smoke \<Rightarrow> (string \<times> bool) list \<Rightarrow> smoke \<Rightarrow> bool" where
  "recorded s vs s' \<longleftrightarrow> verdicts s' = verdicts s @ vs \<and> (counted s \<longrightarrow> counted s')"

text \<open>If \<open>m\<close> returns a value, the verdicts it has recorded are as \<open>R\<close> says.\<close>

definition emits :: "('w, 'a) script_io \<Rightarrow> ('a \<Rightarrow> (string \<times> bool) list \<Rightarrow> bool) \<Rightarrow> bool" where
  "emits m R \<longleftrightarrow>
     (\<forall>ws x ws'. m ws = (Inr x, ws') \<longrightarrow> (\<exists>vs. recorded (snd ws) vs (snd ws') \<and> R x vs))"

lemma recorded_refl: "recorded s [] s"
  by (simp add: recorded_def)

lemma recorded_trans: "recorded s vs t \<Longrightarrow> recorded t us u \<Longrightarrow> recorded s (vs @ us) u"
  by (simp add: recorded_def)

lemma emits_rec: "R () [(l, ok)] \<Longrightarrow> emits (rec l ok d) R"
  by (auto simp: emits_def rec_def recorded_def verdicts_def counted_def split: sum.splits
      intro!: exI [of _ "[(l, ok)]"])

lemma emits_return: "R x [] \<Longrightarrow> emits (returnIO x) R"
  by (auto simp: emits_def returnIO_def intro: recorded_refl)

lemma emits_bind:
  assumes "emits m Q" "\<And>x vs. Q x vs \<Longrightarrow> emits (f x) (\<lambda>y us. R y (vs @ us))"
  shows "emits (bindIO m f) R"
  unfolding emits_def
proof (intro allI impI)
  fix ws y ws''
  assume "bindIO m f ws = (Inr y, ws'')"
  then obtain x ws' where m: "m ws = (Inr x, ws')" and f: "f x ws' = (Inr y, ws'')"
    by (auto simp: bindIO_Inr_iff)
  from assms(1) m obtain vs where vs: "recorded (snd ws) vs (snd ws')" "Q x vs"
    unfolding emits_def by blast
  from assms(2) [OF vs(2)] f obtain us where "recorded (snd ws') us (snd ws'')" "R y (vs @ us)"
    unfolding emits_def by blast
  then show "\<exists>vs. recorded (snd ws) vs (snd ws'') \<and> R y vs" using recorded_trans [OF vs(1)] by blast
qed

lemma emits_quiet: "quiet m \<Longrightarrow> emits m (\<lambda>_ vs. vs = [])"
  unfolding emits_def using quietD recorded_refl by metis

lemma emits_bind_quiet: "quiet m \<Longrightarrow> (\<And>x. emits (f x) R) \<Longrightarrow> emits (bindIO m f) R"
  by (rule emits_bind [OF emits_quiet]) simp_all

lemma emits_bind_rec: "emits (f ()) (\<lambda>y us. R y ((l, ok) # us)) \<Longrightarrow> emits (bindIO (rec l ok d) f) R"
  by (rule emits_bind [where Q = "\<lambda>_ vs. vs = [(l, ok)]"]) (auto intro: emits_rec)

lemmas emits_binds = emits_bind_rec emits_bind_quiet [OF quiet_base(1)] emits_bind_quiet [OF quiet_base(2)]
  emits_bind_quiet [OF quiet_base(3)] emits_bind_quiet [OF quiet_calls(1)] emits_bind_quiet [OF quiet_calls(2)]
  emits_bind_quiet [OF quiet_calls(3)] emits_bind_quiet [OF quiet_calls(4)]

lemmas emits_rules = emits_binds emits_return emits_rec

lemma check_receipt_emits:
  "emits (check_receipt P E h) (\<lambda>_ vs. map fst vs =
     [''receipt has id + signature'', ''receipt.payment.payer matches signer''])"
  unfolding check_receipt_def Let_def by (intro emits_rules) simp_all

lemma negative_cases_emits:
  "emits (negative_cases E ctx sig) (\<lambda>_ vs. map fst vs =
     [''replay rejected with 409'', ''expired timestamp rejected with 400'',
      ''CORS preflight from wrong origin omits allow-origin'', ''verifier rejects garbage with 400''])"
  unfolding negative_cases_def Let_def by (intro emits_rules) simp_all

lemma receipt_persistence_emits:
  "emits (receipt_persistence E rid) (\<lambda>_ vs.
     map fst vs = [''receipt lookup returns 200''] \<or> vs = [(''receipt lookup'', False)])"
  unfolding receipt_persistence_def by (simp split: if_split) (intro conjI impI emits_rules; simp)

definition happy_verdicts :: "(string \<times> bool) list \<Rightarrow> bool" where
  "happy_verdicts vs \<longleftrightarrow>
     map fst vs =
       [''recipient is EIP-55 canonical'', ''signed flow returns 200'', ''X-402-Receipt header present'',
        ''receipt has id + signature'', ''receipt.payment.payer matches signer''] \<or>
     (\<exists>a b. vs = [(''recipient is EIP-55 canonical'', a), (''signed flow returns 200'', b),
        (''X-402-Receipt header present'', False)])"

lemma happy_path_emits: "emits (happy_path P E) (\<lambda>_. happy_verdicts)"
proof -
  have "emits (bindIO (if h \<noteq> [] then check_receipt P E h else returnIO None) (\<lambda>rid. returnIO (ctx, sig, rid)))
      (\<lambda>_ us. happy_verdicts ((''recipient is EIP-55 canonical'', a) # (''signed flow returns 200'', b) #
         (''X-402-Receipt header present'', h \<noteq> []) # us))" for h ctx sig a b
  proof (cases "h = []")
    case True
    then show ?thesis by (simp, intro emits_rules) (simp_all add: happy_verdicts_def)
  next
    case False
    then show ?thesis
      by simp (rule emits_bind [OF check_receipt_emits], rule emits_return, simp add: happy_verdicts_def)
  qed
  then show ?thesis unfolding happy_path_def Let_def by (intro emits_binds)
qed

section \<open>Properties\<close>

definition smoke_labels :: "string list" where
  "smoke_labels =
     [''recipient is EIP-55 canonical'', ''signed flow returns 200'', ''X-402-Receipt header present'',
      ''receipt has id + signature'', ''receipt.payment.payer matches signer'',
      ''replay rejected with 409'', ''expired timestamp rejected with 400'',
      ''CORS preflight from wrong origin omits allow-origin'', ''verifier rejects garbage with 400'',
      ''receipt lookup returns 200'']"

lemma main_verdicts:
  assumes "main P E ws = (Inr c, ws')"
  shows "\<exists>vs. recorded (snd ws) vs (snd ws') \<and> c = (if failures (snd ws') = 0 then 0 else 1) \<and>
    ((\<forall>v \<in> set vs. snd v) \<longrightarrow> map fst vs = smoke_labels)"
proof -
  obtain ctx sig rid ws1 u1 ws2 u2 where
    p1: "happy_path P E ws = (Inr (ctx, sig, rid), ws1)" and
    p2: "negative_cases E ctx sig ws1 = (Inr u1, ws2)" and
    p3: "receipt_persistence E rid ws2 = (Inr u2, ws')" and
    c: "c = (if failures (snd ws') = 0 then 0 else 1)"
    using assms by (auto simp: main_def bindIO_Inr_iff)
  obtain v1 where v1: "recorded (snd ws) v1 (snd ws1)" "happy_verdicts v1"
    using happy_path_emits [of P E] p1 unfolding emits_def by metis
  obtain v2 where v2: "recorded (snd ws1) v2 (snd ws2)" "map fst v2 =
      [''replay rejected with 409'', ''expired timestamp rejected with 400'',
       ''CORS preflight from wrong origin omits allow-origin'', ''verifier rejects garbage with 400'']"
    using negative_cases_emits [of E ctx sig] p2 unfolding emits_def by metis
  obtain v3 where v3: "recorded (snd ws2) v3 (snd ws')"
    "map fst v3 = [''receipt lookup returns 200''] \<or> v3 = [(''receipt lookup'', False)]"
    using receipt_persistence_emits [of E rid] p3 unfolding emits_def by metis
  have "map fst (v1 @ v2 @ v3) = smoke_labels" if "\<forall>v \<in> set (v1 @ v2 @ v3). snd v"
    using that v1(2) v2(2) v3(2) by (auto simp: happy_verdicts_def smoke_labels_def)
  then show ?thesis
    using c recorded_trans [OF v1(1) recorded_trans [OF v2(1) v3(1)]] by blast
qed


end
