(* ===== verification/ReducedMotion.thy ===== *)
theory ReducedMotion
  imports Prelude
begin

text \<open>
  Following the system's preference for reduced motion. \<^verbatim>\<open>web/src/components/smooth-scroll.tsx\<close>
  and \<^verbatim>\<open>web/src/components/hero-3d/protocol-orchestra.tsx\<close> hold the same three functions and use
  them in the same way: \<^verbatim>\<open>useSyncExternalStore\<close> gives the preference, and an effect that depends
  on it starts something when motion is allowed and stops it in its cleanup.

  A component is a transition system over the media query, React's bookkeeping and the state
  of the effect. What the effect starts and stops is a parameter; the contract it has to keep
  is the locale \<open>motion_effect\<close>, which the scroller and the diagram's clock interpret.
\<close>

section \<open>The media query\<close>

text \<open>
  \<open>md_window\<close>: whether there is a window and, if it has \<^verbatim>\<open>matchMedia\<close>, whether motion is to be
  reduced. Each call of \<^verbatim>\<open>matchMedia\<close> makes a query object; \<open>md_listening\<close> are the objects with the
  component's callback attached.
\<close>

record media =
  md_window :: "bool option option"
  md_queries :: nat
  md_listening :: "nat list"

definition getReducedMotionSnapshot :: "bool option option \<Rightarrow> bool" where
  "getReducedMotionSnapshot window =
     (case window of None \<Rightarrow> False | Some None \<Rightarrow> False | Some (Some b) \<Rightarrow> b)"

definition getReducedMotionServerSnapshot :: bool where
  "getReducedMotionServerSnapshot = False"

text \<open>The result of subscribing is the query object the returned function detaches from, if any.\<close>

definition subscribeReducedMotion :: "media \<Rightarrow> nat option \<times> media" where
  "subscribeReducedMotion m =
     (case md_window m of
        Some (Some _) \<Rightarrow>
          (Some (md_queries m),
           m\<lparr>md_queries := md_queries m + 1, md_listening := md_listening m @ [md_queries m]\<rparr>)
      | _ \<Rightarrow> (None, m))"

definition unsubscribeReducedMotion :: "nat option \<Rightarrow> media \<Rightarrow> media" where
  "unsubscribeReducedMotion mq m =
     (case mq of
        None \<Rightarrow> m
      | Some q \<Rightarrow> m\<lparr>md_listening := filter (\<lambda>x. x \<noteq> q) (md_listening m)\<rparr>)"

section \<open>The component\<close>

text \<open>
  \<open>mo_value\<close> is the preference of the last render, \<open>mo_ran\<close> the value the effect last ran with,
  \<open>mo_sub\<close> the subscription, \<open>mo_event\<close> whether a change event waits to be delivered.
\<close>

record 's motion =
  mo_media :: media
  mo_mounted :: bool
  mo_value :: bool
  mo_sub :: "nat option option"
  mo_event :: bool
  mo_ran :: "bool option"
  mo_effect :: 's

definition snapshot_of :: "'s motion \<Rightarrow> bool" where
  "snapshot_of s = getReducedMotionSnapshot (md_window (mo_media s))"

text \<open>The first render, which has to match the one of the server.\<close>

definition mount_motion :: "bool option option \<Rightarrow> 's \<Rightarrow> 's motion" where
  "mount_motion window e =
     \<lparr>mo_media = \<lparr>md_window = window, md_queries = 0, md_listening = []\<rparr>, mo_mounted = True,
      mo_value = getReducedMotionServerSnapshot, mo_sub = None, mo_event = False, mo_ran = None, mo_effect = e\<rparr>"

text \<open>React subscribes after the first render and looks at the value again.\<close>

definition subscribe_effect :: "'s motion \<Rightarrow> 's motion" where
  "subscribe_effect s =
     (case subscribeReducedMotion (mo_media s) of
        (mq, m) \<Rightarrow> s\<lparr>mo_media := m, mo_sub := Some mq, mo_value := snapshot_of s\<rparr>)"

text \<open>The user changes the preference: an event is sent to every query object listened to.\<close>

definition toggle_preference :: "'s motion \<Rightarrow> 's motion" where
  "toggle_preference s =
     (case md_window (mo_media s) of
        Some (Some b) \<Rightarrow>
          s\<lparr>mo_media := (mo_media s)\<lparr>md_window := Some (Some (\<not> b))\<rparr>,
            mo_event := mo_event s \<or> md_listening (mo_media s) \<noteq> []\<rparr>
      | _ \<Rightarrow> s)"

definition change_delivered :: "'s motion \<Rightarrow> 's motion" where
  "change_delivered s = s\<lparr>mo_event := False, mo_value := snapshot_of s\<rparr>"

text \<open>
  The cleanup of the last run, which there is only if that run allowed motion, and the effect:
  \<^verbatim>\<open>if (reducedMotion) return;\<close> and otherwise the start.
\<close>

definition motion_cleanup :: "('s \<Rightarrow> 's) \<Rightarrow> 's motion \<Rightarrow> 's motion" where
  "motion_cleanup stop s =
     (if mo_ran s = Some False then s\<lparr>mo_effect := stop (mo_effect s), mo_ran := None\<rparr>
      else s\<lparr>mo_ran := None\<rparr>)"

definition motion_run :: "('s \<Rightarrow> 's) \<Rightarrow> ('s \<Rightarrow> 's) \<Rightarrow> 's motion \<Rightarrow> 's motion" where
  "motion_run start stop s =
     (let s1 = motion_cleanup stop s in
      if mo_value s then s1\<lparr>mo_ran := Some True\<rparr>
      else s1\<lparr>mo_ran := Some False, mo_effect := start (mo_effect s1)\<rparr>)"

definition motion_unmount :: "('s \<Rightarrow> 's) \<Rightarrow> 's motion \<Rightarrow> 's motion" where
  "motion_unmount stop s =
     (let s1 = motion_cleanup stop s in
      s1\<lparr>mo_mounted := False, mo_event := False, mo_sub := None,
         mo_media := (case mo_sub s of None \<Rightarrow> mo_media s | Some mq \<Rightarrow> unsubscribeReducedMotion mq (mo_media s))\<rparr>)"

inductive motion_step ::
    "('s \<Rightarrow> 's) \<Rightarrow> ('s \<Rightarrow> 's) \<Rightarrow> ('s \<Rightarrow> 's \<Rightarrow> bool) \<Rightarrow> 's motion \<Rightarrow> 's motion \<Rightarrow> bool"
  for start stop tick where
  subscribed: "mo_mounted s \<Longrightarrow> mo_sub s = None \<Longrightarrow> motion_step start stop tick s (subscribe_effect s)"
| toggled: "motion_step start stop tick s (toggle_preference s)"
| delivered: "mo_mounted s \<Longrightarrow> mo_event s \<Longrightarrow> motion_step start stop tick s (change_delivered s)"
| effect_ran: "mo_mounted s \<Longrightarrow> mo_ran s \<noteq> Some (mo_value s) \<Longrightarrow> motion_step start stop tick s (motion_run start stop s)"
| ticked: "tick (mo_effect s) e \<Longrightarrow> motion_step start stop tick s (s\<lparr>mo_effect := e\<rparr>)"
| unmounted: "mo_mounted s \<Longrightarrow> motion_step start stop tick s (motion_unmount stop s)"

text \<open>Nothing is waiting: the subscription is made, every event delivered, the effect up to date.\<close>

definition quiet :: "'s motion \<Rightarrow> bool" where
  "quiet s \<longleftrightarrow> mo_mounted s \<and> mo_sub s \<noteq> None \<and> \<not> mo_event s \<and> mo_ran s = Some (mo_value s)"

text \<open>What the start, the stop and the ticks of an effect keep, every history keeps.\<close>

lemma effect_keeps:
  assumes "(motion_step start stop tick)\<^sup>*\<^sup>* s t" "Q (mo_effect s)"
    and "\<And>e. Q e \<Longrightarrow> Q (start e)" "\<And>e. Q e \<Longrightarrow> Q (stop e)" "\<And>e e'. Q e \<Longrightarrow> tick e e' \<Longrightarrow> Q e'"
  shows "Q (mo_effect t)"
proof -
  have "Q (mo_effect v)" if "motion_step start stop tick u v" "Q (mo_effect u)" for u v
    using that
    by (induction rule: motion_step.induct)
      (auto simp: subscribe_effect_def toggle_preference_def change_delivered_def motion_run_def motion_cleanup_def
        motion_unmount_def Let_def intro: assms(3 -) split: option.splits prod.splits)
  with assms(1, 2) show ?thesis by (induction rule: rtranclp_induct) blast+
qed

section \<open>The contract of the effect\<close>

locale motion_effect =
  fixes start :: "'s \<Rightarrow> 's"
    and stop :: "'s \<Rightarrow> 's"
    and tick :: "'s \<Rightarrow> 's \<Rightarrow> bool"
    and live :: "'s \<Rightarrow> nat"
    and sound :: "'s \<Rightarrow> bool"
  assumes start_one: "sound e \<Longrightarrow> live e = 0 \<Longrightarrow> sound (start e) \<and> live (start e) = 1"
    and stop_one: "sound e \<Longrightarrow> live e = 1 \<Longrightarrow> sound (stop e) \<and> live (stop e) = 0"
    and tick_same: "sound e \<Longrightarrow> tick e e' \<Longrightarrow> sound e' \<and> live e' = live e"
begin

definition motion_inv :: "'s motion \<Rightarrow> bool" where
  "motion_inv s \<longleftrightarrow>
     sound (mo_effect s) \<and> live (mo_effect s) = (if mo_ran s = Some False then 1 else 0) \<and>
     (mo_mounted s \<longrightarrow> mo_sub s \<noteq> None \<longrightarrow> mo_event s \<or> mo_value s = snapshot_of s) \<and>
     (\<forall>q \<in> set (md_listening (mo_media s)). q < md_queries (mo_media s)) \<and>
     md_listening (mo_media s) = (case mo_sub s of Some (Some q) \<Rightarrow> [q] | _ \<Rightarrow> []) \<and>
     (mo_sub s = Some None \<longrightarrow> \<not> (\<exists>b. md_window (mo_media s) = Some (Some b))) \<and>
     (mo_mounted s \<or> mo_sub s = None \<and> mo_ran s = None)"

lemma mount_inv: "sound e \<Longrightarrow> live e = 0 \<Longrightarrow> motion_inv (mount_motion window e)"
  by (simp add: motion_inv_def mount_motion_def)

lemma step_inv: "motion_step start stop tick s t \<Longrightarrow> motion_inv s \<Longrightarrow> motion_inv t"
proof (induction rule: motion_step.induct)
  case (subscribed s)
  then show ?case
    by (auto simp: motion_inv_def subscribe_effect_def subscribeReducedMotion_def snapshot_of_def
        split: option.splits)
next
  case (toggled s)
  then show ?case
    by (auto simp: motion_inv_def toggle_preference_def snapshot_of_def split: option.splits)
next
  case (effect_ran s)
  then show ?case
    using start_one stop_one
    by (auto simp: motion_inv_def motion_run_def motion_cleanup_def snapshot_of_def Let_def split: option.splits)
next
  case (ticked s e)
  then show ?case using tick_same by (auto simp: motion_inv_def snapshot_of_def)
next
  case (unmounted s)
  then show ?case
    using stop_one
    by (auto simp: motion_inv_def motion_unmount_def motion_cleanup_def unsubscribeReducedMotion_def Let_def
        split: option.splits)
qed (auto simp: motion_inv_def change_delivered_def snapshot_of_def)

lemma steps_inv: "(motion_step start stop tick)\<^sup>*\<^sup>* s t \<Longrightarrow> motion_inv s \<Longrightarrow> motion_inv t"
  by (induction rule: rtranclp_induct) (auto intro: step_inv)

text \<open>
  A quiet component has one live effect if motion is allowed and none otherwise; a removed
  one has none and listens to nothing.
\<close>

lemma follows_preference:
  assumes "sound e" "live e = 0" "(motion_step start stop tick)\<^sup>*\<^sup>* (mount_motion window e) s"
  shows "quiet s \<Longrightarrow> mo_value s = snapshot_of s \<and> live (mo_effect s) = (if snapshot_of s then 0 else 1)"
    and "\<not> mo_mounted s \<Longrightarrow> live (mo_effect s) = 0 \<and> md_listening (mo_media s) = []"
  using steps_inv [OF assms(3) mount_inv [OF assms(1, 2)]]
  by (auto simp: quiet_def motion_inv_def split: if_splits)

lemma never_two:
  assumes "sound e" "live e = 0" "(motion_step start stop tick)\<^sup>*\<^sup>* (mount_motion window e) s"
  shows "live (mo_effect s) \<le> 1 \<and> length (md_listening (mo_media s)) \<le> 1"
  using steps_inv [OF assms(3) mount_inv [OF assms(1, 2)]]
  by (auto simp: motion_inv_def split: option.splits)

end

end
