(* ===== verification/Jsx.thy ===== *)
theory Jsx
  imports JsString
begin

text \<open>
  What the components of the web application render, and the two elements they share:
  \<^verbatim>\<open>web/src/components/ui/badge.tsx\<close> and \<^verbatim>\<open>web/src/components/ui/button.tsx\<close>.

  A rendered component is a list of nodes: none for \<^verbatim>\<open>null\<close> or \<^verbatim>\<open>false\<close>, several for a
  fragment. An attribute is kept if it decides what a user or a screen reader gets (role,
  label, link, disabled, handler, a class that depends on the state); fixed style classes
  are left out. A handler is its name; what it does is modelled with its component. An
  inline style is the list of its declarations.
\<close>

section \<open>Nodes\<close>

datatype attr = AStr jstring | AFlag bool | AFun string | AStyle "(string \<times> jstring) list"

datatype vnode = Txt jstring | El string "(string \<times> attr) list" "vnode list"

definition only :: "bool \<Rightarrow> vnode \<Rightarrow> vnode list" where
  "only b v = (if b then [v] else [])"

fun text_of :: "vnode \<Rightarrow> jstring" where
  "text_of (Txt s) = s"
| "text_of (El tag attrs cs) = concat (map text_of cs)"

definition texts_of :: "vnode list \<Rightarrow> jstring" where
  "texts_of vs = concat (map text_of vs)"

fun nodes :: "vnode \<Rightarrow> vnode list" where
  "nodes (Txt s) = [Txt s]"
| "nodes (El tag attrs cs) = El tag attrs cs # concat (map nodes cs)"

definition attr_of :: "string \<Rightarrow> vnode \<Rightarrow> attr option" where
  "attr_of k v = (case v of Txt _ \<Rightarrow> None | El _ attrs _ \<Rightarrow> map_of attrs k)"

text \<open>The nodes of a kind, in the order of the document.\<close>

definition pick :: "(vnode \<Rightarrow> bool) \<Rightarrow> vnode list \<Rightarrow> vnode list" where
  "pick p vs = filter p (concat (map nodes vs))"

text \<open>The handlers a rendered tree offers to the user: those of enabled elements.\<close>

definition enabled :: "vnode \<Rightarrow> bool" where
  "enabled v \<longleftrightarrow> attr_of ''disabled'' v \<noteq> Some (AFlag True)"

definition handlers :: "vnode list \<Rightarrow> string set" where
  "handlers vs =
     {f. \<exists>v \<in> set (concat (map nodes vs)). enabled v \<and> attr_of ''onClick'' v = Some (AFun f)}"

text \<open>\<^verbatim>\<open>[...].filter(Boolean).join(" ")\<close>\<close>

fun join_spaces :: "jstring list \<Rightarrow> jstring" where
  "join_spaces [] = []"
| "join_spaces [s] = s"
| "join_spaces (s # t # ss) = s @ js '' '' @ join_spaces (t # ss)"

definition class_names :: "jstring list \<Rightarrow> jstring" where
  "class_names cs = join_spaces (filter (\<lambda>c. c \<noteq> []) cs)"

text \<open>\<^verbatim>\<open>cond && "..."\<close> in a list of class names\<close>

definition class_if :: "bool \<Rightarrow> string \<Rightarrow> jstring" where
  "class_if b c = (if b then js c else [])"

section \<open>Badge and button\<close>

datatype Tone = T_default | T_accent | T_ok | T_alert | T_muted | T_ink

primrec TONES :: "Tone \<Rightarrow> string" where
  "TONES T_default = ''border-ink bg-paper text-ink''"
| "TONES T_accent = ''border-accent bg-accent-soft text-accent''"
| "TONES T_ok = ''border-ok bg-ok-soft text-ok''"
| "TONES T_alert = ''border-alert bg-alert-soft text-alert''"
| "TONES T_muted = ''border-ink-faint bg-paper text-ink-soft''"
| "TONES T_ink = ''border-ink bg-ink text-paper''"

definition Badge :: "Tone \<Rightarrow> vnode list \<Rightarrow> jstring \<Rightarrow> vnode" where
  "Badge tone children className =
     El ''span''
       [(''className'',
         AStr (class_names
           [js ''inline-flex items-center gap-1.5 border px-2 py-0.5 font-mono text-[10px] uppercase tracking-[0.12em] tnum'',
            js (TONES tone), className]))]
       children"

datatype Variant = B_primary | B_secondary | B_ghost | B_danger

datatype Size = SZ_md | SZ_sm

definition BASE :: string where
  "BASE =
     ''group inline-flex items-center justify-center gap-2 select-none whitespace-nowrap font-sans font-medium uppercase tracking-[0.08em] transition-all duration-150 disabled:opacity-40 disabled:cursor-not-allowed focus-visible:outline-2 focus-visible:outline-offset-2 focus-visible:outline-accent''"

primrec VARIANTS :: "Variant \<Rightarrow> string" where
  "VARIANTS B_primary =
     ''border border-ink bg-ink text-paper shadow-[6px_6px_0_0_var(--accent)] hover:shadow-[8px_8px_0_0_var(--accent)] active:translate-x-[2px] active:translate-y-[2px] active:shadow-[2px_2px_0_0_var(--accent)] disabled:shadow-[6px_6px_0_0_var(--ink-faint)]''"
| "VARIANTS B_secondary =
     ''border border-ink bg-paper text-ink shadow-[4px_4px_0_0_var(--ink)] hover:bg-ink hover:text-paper hover:shadow-[6px_6px_0_0_var(--accent)] active:translate-x-[2px] active:translate-y-[2px] active:shadow-[1px_1px_0_0_var(--ink)] disabled:shadow-[4px_4px_0_0_var(--ink-faint)]''"
| "VARIANTS B_ghost = ''text-ink underline-offset-[6px] decoration-[1.5px] hover:underline''"
| "VARIANTS B_danger =
     ''border border-alert bg-alert text-paper shadow-[4px_4px_0_0_var(--ink)] hover:shadow-[6px_6px_0_0_var(--ink)] active:translate-x-[2px] active:translate-y-[2px] active:shadow-[1px_1px_0_0_var(--ink)]''"

primrec SIZES :: "Size \<Rightarrow> string" where
  "SIZES SZ_md = ''px-6 py-3 text-[13px]''"
| "SIZES SZ_sm = ''px-3 py-1.5 text-[11px]''"

text \<open>The remaining properties are passed on after the class.\<close>

definition Button :: "Variant \<Rightarrow> Size \<Rightarrow> jstring \<Rightarrow> (string \<times> attr) list \<Rightarrow> vnode list \<Rightarrow> vnode" where
  "Button variant sz className rest children =
     El ''button''
       ((''className'', AStr (class_names [js BASE, js (VARIANTS variant), js (SIZES sz), className])) # rest)
       children"

section \<open>Facts\<close>

lemma only_simps [simp]: "only True v = [v]" "only False v = []"
  by (simp_all add: only_def)

lemma texts_simps [simp]:
  "texts_of [] = []" "texts_of (v # vs) = text_of v @ texts_of vs"
  "texts_of (vs @ ws) = texts_of vs @ texts_of ws"
  by (simp_all add: texts_of_def)

lemma text_El: "text_of (El tag attrs cs) = texts_of cs"
  by (simp add: texts_of_def)

declare text_of.simps(2) [simp del]
declare text_El [simp]

lemma text_Badge [simp]: "text_of (Badge tone cs c) = texts_of cs"
  by (simp add: Badge_def)

lemma text_Button [simp]: "text_of (Button variant sz c rest cs) = texts_of cs"
  by (simp add: Button_def)

lemma handlers_simps [simp]:
  "handlers [] = {}" "handlers (Txt s # vs) = handlers vs"
  "handlers (vs @ ws) = handlers vs \<union> handlers ws"
  "handlers (El tag attrs cs # vs) =
     (case map_of attrs ''onClick'' of
        Some (AFun f) \<Rightarrow> if map_of attrs ''disabled'' = Some (AFlag True) then {} else {f}
      | _ \<Rightarrow> {}) \<union> handlers cs \<union> handlers vs"
  by (auto simp: handlers_def enabled_def attr_of_def split: option.split attr.split)

lemma pick_simps [simp]:
  "pick p [] = []" "pick p (Txt t # vs) = (if p (Txt t) then [Txt t] else []) @ pick p vs"
  "pick p (vs @ ws) = pick p vs @ pick p ws"
  "pick p (El tag attrs cs # vs) = (if p (El tag attrs cs) then [El tag attrs cs] else []) @ pick p cs @ pick p vs"
  by (simp_all add: pick_def)

lemma pick_Cons: "pick p (v # vs) = pick p [v] @ pick p vs"
  by (simp add: pick_def)

lemma pick_none: "(\<And>v. v \<in> set vs \<Longrightarrow> pick p [v] = []) \<Longrightarrow> pick p vs = []"
  by (auto simp: pick_def filter_empty_conv)

lemma pick_only [simp]: "pick p (only b v) = (if b then pick p [v] else [])"
  by (simp add: only_def)

lemma handlers_Badge [simp]: "handlers (Badge tone cs c # vs) = handlers cs \<union> handlers vs"
  by (simp add: Badge_def)

lemma handlers_only [simp]: "handlers (only b v) = (if b then handlers [v] else {})"
  by (simp add: only_def)

lemma join_spaces_Cons: "ss \<noteq> [] \<Longrightarrow> join_spaces (s # ss) = s @ js '' '' @ join_spaces ss"
  by (cases ss) simp_all

end
