(* ===== verification/Css.thy ===== *)
theory Css
  imports Jsx
begin

text \<open>
  Style sheets, as far as \<^verbatim>\<open>web/src/components/hero-3d/protocol-orchestra.tsx\<close> needs them to say what
  moves: rules whose selectors are single classes, some of them inside the media query for
  reduced motion, key frames, and the cascade. Selectors of one class have the same
  specificity, so of two declarations of a kind the later one counts; \<^verbatim>\<open>!important\<close> wins over an
  inline style, and an inline style over the rest.
\<close>

section \<open>Sheets\<close>

text \<open>A declaration is a value and whether it is marked \<^verbatim>\<open>!important\<close>.\<close>

record css_rule =
  cr_reduce :: bool
  cr_classes :: "string list"
  cr_decls :: "(string \<times> jstring \<times> bool) list"

record keyframes =
  kf_name :: string
  kf_frames :: "(string list \<times> (string \<times> string) list) list"

record sheet =
  sh_rules :: "css_rule list"
  sh_keyframes :: "keyframes list"

abbreviation normal :: "(string \<times> string) list \<Rightarrow> (string \<times> jstring \<times> bool) list" where
  "normal ds \<equiv> map (\<lambda>(k, v). (k, js v, False)) ds"

section \<open>The cascade\<close>

definition classes_of :: "(string \<times> attr) list \<Rightarrow> jstring list" where
  "classes_of attrs = (case map_of attrs ''className'' of Some (AStr c) \<Rightarrow> split_spaces c | _ \<Rightarrow> [])"

definition inline_of :: "string \<Rightarrow> (string \<times> attr) list \<Rightarrow> jstring option" where
  "inline_of k attrs = (case map_of attrs ''style'' of Some (AStyle ds) \<Rightarrow> map_of ds k | _ \<Rightarrow> None)"

definition applies :: "bool \<Rightarrow> jstring list \<Rightarrow> css_rule \<Rightarrow> bool" where
  "applies reduced cs r \<longleftrightarrow> (cr_reduce r \<longrightarrow> reduced) \<and> list_ex (\<lambda>c. js c \<in> set cs) (cr_classes r)"

definition declared :: "bool \<Rightarrow> sheet \<Rightarrow> jstring list \<Rightarrow> string \<Rightarrow> (jstring \<times> bool) list" where
  "declared reduced css cs k =
     concat (map (\<lambda>r. if applies reduced cs r then map snd (filter (\<lambda>d. fst d = k) (cr_decls r)) else [])
       (sh_rules css))"

definition latest :: "'a list \<Rightarrow> 'a option" where
  "latest xs = (if xs = [] then None else Some (last xs))"

definition computed :: "bool \<Rightarrow> sheet \<Rightarrow> string \<Rightarrow> (string \<times> attr) list \<Rightarrow> jstring option" where
  "computed reduced css k attrs =
     (let ds = declared reduced css (classes_of attrs) k in
      case latest (filter snd ds) of
        Some d \<Rightarrow> Some (fst d)
      | None \<Rightarrow>
          (case inline_of k attrs of
             Some v \<Rightarrow> Some v
           | None \<Rightarrow> map_option fst (latest (filter (\<lambda>d. \<not> snd d) ds))))"

section \<open>What moves\<close>

text \<open>An element moves by an animation element of SVG or by the style it gets.\<close>

definition styled_animation :: "bool \<Rightarrow> sheet \<Rightarrow> (string \<times> attr) list \<Rightarrow> jstring option" where
  "styled_animation reduced css attrs =
     (case computed reduced css ''animation'' attrs of
        Some a \<Rightarrow> if a = js ''none'' then None else Some a
      | None \<Rightarrow> None)"

definition moves :: "bool \<Rightarrow> sheet \<Rightarrow> vnode \<Rightarrow> bool" where
  "moves reduced css v =
     (case v of
        Txt _ \<Rightarrow> False
      | El tag attrs _ \<Rightarrow>
          tag = ''animate'' \<or> tag = ''animateMotion'' \<or> styled_animation reduced css attrs \<noteq> None)"

definition loops :: "bool \<Rightarrow> sheet \<Rightarrow> vnode \<Rightarrow> bool" where
  "loops reduced css v =
     (case v of
        Txt _ \<Rightarrow> False
      | El tag attrs _ \<Rightarrow>
          (tag = ''animate'' \<or> tag = ''animateMotion'') \<and>
            map_of attrs ''repeatCount'' = Some (AStr (js ''indefinite'')) \<or>
          (case styled_animation reduced css attrs of
             None \<Rightarrow> False
           | Some a \<Rightarrow> js ''infinite'' \<in> set (split_spaces a)))"

text \<open>The name of the key frames an animation uses: in this sheet, the first word.\<close>

definition animation_name :: "jstring \<Rightarrow> jstring" where
  "animation_name a = hd (split_spaces a)"

section \<open>Words of a literal\<close>

text \<open>The words of a literal whose white space is single spaces; evaluating them is cheap.\<close>

primrec words_from :: "string \<Rightarrow> string \<Rightarrow> string list" where
  "words_from w [] = [rev w]"
| "words_from w (c # s) = (if c = CHR '' '' then rev w # words_from [] s else words_from (c # w) s)"

abbreviation literal_words :: "string \<Rightarrow> string list" where
  "literal_words \<equiv> words_from []"

definition visible_char :: "char \<Rightarrow> bool" where
  "visible_char c \<longleftrightarrow>
     c \<noteq> CHR 0x09 \<and> c \<noteq> CHR 0x0A \<and> c \<noteq> CHR 0x0B \<and> c \<noteq> CHR 0x0C \<and> c \<noteq> CHR 0x0D \<and> c \<noteq> CHR '' '' \<and> c \<noteq> CHR 0xA0"

fun single_spaced :: "string \<Rightarrow> bool" where
  "single_spaced [] \<longleftrightarrow> True"
| "single_spaced (c # s) \<longleftrightarrow>
     (if c = CHR '' '' then take 1 s \<noteq> '' '' else visible_char c) \<and> single_spaced s"

lemma split_spaces_cons:
  "\<not> is_space u \<Longrightarrow> split_spaces (u # s) = (u # hd (split_spaces s)) # tl (split_spaces s)"
  by (subst (1 2 3) split_spaces.simps) (simp add: Let_def)

lemma split_spaces_space: "is_space u \<Longrightarrow> take 1 s = [] \<or> \<not> is_space (hd s) \<Longrightarrow> split_spaces (u # s) = [] # split_spaces s"
  by (subst split_spaces.simps) (cases s; simp add: Let_def)

lemma is_space_blank: "is_space (cu (CHR '' ''))"
  by (simp add: is_space_def cu_def)

lemma visible_not_space: "visible_char c \<Longrightarrow> \<not> is_space (cu c)"
proof -
  assume v: "visible_char c"
  have "(of_char c :: nat) \<noteq> of_char d" if "c \<noteq> d" for d using that by simp
  from v [unfolded visible_char_def] this [of "CHR 0x09"] this [of "CHR 0x0A"] this [of "CHR 0x0B"] this [of "CHR 0x0C"]
    this [of "CHR 0x0D"] this [of "CHR '' ''"] this [of "CHR 0xA0"]
  have "(of_char c :: nat) \<notin> {9, 10, 11, 12, 13, 32, 160}"
    by (simp del: of_char_eq_iff)
  moreover obtain n where "(of_char c :: nat) = n" "n < 256" using nat_of_char_less_256 by blast
  ultimately show ?thesis by (auto simp: is_space_def word_le_nat_alt word_unat_eq_iff)
qed

lemma split_spaces_prefix:
  "\<forall>u \<in> set p. \<not> is_space u \<Longrightarrow> split_spaces (p @ s) = (p @ hd (split_spaces s)) # tl (split_spaces s)"
  by (induction p) (simp_all add: split_spaces_cons)

lemma split_spaces_from:
  "single_spaced s \<Longrightarrow> list_all visible_char w \<Longrightarrow> split_spaces (js (rev w) @ js s) = map js (words_from w s)"
proof (induction s arbitrary: w)
  case Nil
  have "split_spaces (js []) = [[]]" by (subst split_spaces.simps) (simp add: js_def Let_def)
  then show ?case
    using Nil visible_not_space split_spaces_prefix [of "js (rev w)" "js []"] by (auto simp: js_def list_all_iff)
next
  case (Cons c s)
  have w: "\<forall>u \<in> set (js (rev w)). \<not> is_space u"
    using Cons.prems visible_not_space by (auto simp: js_def list_all_iff)
  show ?case
  proof (cases "c = CHR '' ''")
    case True
    then have "take 1 (js s) = [] \<or> \<not> is_space (hd (js s))"
      using Cons.prems visible_not_space by (cases s) (auto simp: js_Cons js_def split: if_splits)
    then show ?thesis
      using split_spaces_prefix [OF w, of "js (c # s)"] split_spaces_space [OF is_space_blank, of "js s"] True
        Cons.IH [of "[]"] Cons.prems
      by (simp add: js_Cons js_def [of "[]"])
  next
    case False
    then show ?thesis using Cons.IH [of "c # w"] Cons.prems by (simp add: js_Cons js_append js_def [of "[]"])
  qed
qed

lemma split_spaces_literal: "single_spaced s \<Longrightarrow> split_spaces (js s) = map js (literal_words s)"
  using split_spaces_from [of s "[]"] by (simp add: js_def)

section \<open>Facts\<close>

lemma moves_Txt [simp]: "\<not> moves reduced css (Txt t)" "\<not> loops reduced css (Txt t)"
  by (simp_all add: moves_def loops_def)

lemma loops_moves: "loops reduced css v \<Longrightarrow> moves reduced css v"
  by (auto simp: moves_def loops_def split: vnode.splits option.splits)

text \<open>An element with no class of the sheet and no inline style keeps still.\<close>

definition untouched :: "sheet \<Rightarrow> (string \<times> attr) list \<Rightarrow> bool" where
  "untouched css attrs \<longleftrightarrow>
     inline_of ''animation'' attrs = None \<and>
     list_all (\<lambda>r. list_all (\<lambda>c. js c \<notin> set (classes_of attrs)) (cr_classes r)) (sh_rules css)"

lemma untouched_declared: "untouched css attrs \<Longrightarrow> declared reduced css (classes_of attrs) k = []"
  by (auto simp: untouched_def declared_def applies_def list_all_iff list_ex_iff)

lemma untouched_still: "untouched css attrs \<Longrightarrow> styled_animation reduced css attrs = None"
  using untouched_declared [of css attrs reduced "''animation''"]
  by (simp add: untouched_def styled_animation_def computed_def latest_def)

lemma no_classes [simp]: "map_of attrs ''className'' = None \<Longrightarrow> classes_of attrs = []"
  by (simp add: classes_of_def)

lemma one_class: "map_of attrs ''className'' = Some (AStr c) \<Longrightarrow> classes_of attrs = split_spaces c"
  by (simp add: classes_of_def)

end
