(* ===== verification/ProtocolDiagram.thy ===== *)
theory ProtocolDiagram
  imports ReducedMotion Platform Css
begin

text \<open>
  The animated diagram of the protocol, \<^verbatim>\<open>web/src/components/hero-3d/protocol-orchestra.tsx\<close>: the
  geometry, the drawing, and the clock behind the caption and the counter, which runs only
  while motion is allowed. \<^verbatim>\<open>Math.cos\<close> and \<^verbatim>\<open>Math.sin\<close>, whose results the language leaves to the
  implementation, are parameters. The drawing keeps every attribute, and the style sheet of
  the component is the value \<open>diagram_sheet\<close>; what it makes move is computed by the cascade.
\<close>

section \<open>Steps and geometry\<close>

record diagram_step =
  ds_n :: string
  ds_name :: string
  ds_verb :: string

definition STEPS :: "diagram_step list" where
  "STEPS =
     [\<lparr>ds_n = ''01'', ds_name = ''Request'', ds_verb = ''sending request''\<rparr>,
      \<lparr>ds_n = ''02'', ds_name = ''Challenge'', ds_verb = ''issuing 402 challenge''\<rparr>,
      \<lparr>ds_n = ''03'', ds_name = ''Sign'', ds_verb = ''signing EIP-712 typed data''\<rparr>,
      \<lparr>ds_n = ''04'', ds_name = ''Verify'', ds_verb = ''verifying signature''\<rparr>,
      \<lparr>ds_n = ''05'', ds_name = ''Generate'', ds_verb = ''running AI provider''\<rparr>,
      \<lparr>ds_n = ''06'', ds_name = ''Receipt'', ds_verb = ''signing receipt''\<rparr>]"

definition CX :: int where "CX = 200"
definition CY :: int where "CY = 200"
definition RADIUS :: int where "RADIUS = 152"
definition NODE_W :: int where "NODE_W = 72"
definition NODE_H :: int where "NODE_H = 44"
definition CYCLE_SEC :: int where "CYCLE_SEC = 6"

text \<open>The double nearest to pi, and the rounding of the result of one operation.\<close>

definition Math_PI :: rat where
  "Math_PI = 884279719003555 / 281474976710656"

definition rnd :: "rat \<Rightarrow> rat" where
  "rnd r = (case to_double r of Fin x \<Rightarrow> x | _ \<Rightarrow> r)"

record node =
  nd_step :: diagram_step
  nd_angle :: rat
  nd_x :: rat
  nd_y :: rat

definition node_angle :: "nat \<Rightarrow> rat" where
  "node_angle i = rnd (rnd (- Math_PI / 2) + rnd (rnd (rnd (of_nat i * Math_PI) * 2) / 6))"

definition NODES :: "(rat \<Rightarrow> rat) \<Rightarrow> (rat \<Rightarrow> rat) \<Rightarrow> node list" where
  "NODES cosf sinf =
     map (\<lambda>(i, s).
        \<lparr>nd_step = s, nd_angle = node_angle i,
         nd_x = rnd (of_int CX + rnd (cosf (node_angle i) * of_int RADIUS)),
         nd_y = rnd (of_int CY + rnd (sinf (node_angle i) * of_int RADIUS))\<rparr>)
       (enumerate 0 STEPS)"

definition ARCS :: "node list \<Rightarrow> (node \<times> node) list" where
  "ARCS ns = map (\<lambda>(i, n). (n, ns ! ((i + 1) mod length ns))) (enumerate 0 ns)"

text \<open>\<^verbatim>\<open>x.toFixed(2)\<close> for a magnitude below \<open>10 ^ 21\<close>: of two nearest hundredths, the larger one\<close>

definition pos_toFixed2 :: "rat \<Rightarrow> jstring" where
  "pos_toFixed2 x =
     (let n = nat \<lfloor>x * 100 + 1 / 2\<rfloor> in
      dec_string (n div 100) @ js ''.'' @ dec_string (n mod 100 div 10) @ dec_string (n mod 10))"

definition toFixed2 :: "rat \<Rightarrow> jstring" where
  "toFixed2 x = (if x < 0 then js ''-'' @ pos_toFixed2 (- x) else pos_toFixed2 x)"

definition PATH_D :: "node list \<Rightarrow> jstring" where
  "PATH_D ns =
     join_spaces (map (\<lambda>(i, n). js (if i = 0 then ''M'' else ''L'') @ js '' '' @ toFixed2 (nd_x n) @ js '' '' @
        toFixed2 (nd_y n)) (enumerate 0 ns)) @ js '' Z''"

definition CHEVRON_D :: string where
  "CHEVRON_D = ''M -9 -7 Q -4 0 -9 7 L 12 0 Z''"

section \<open>The clock\<close>

text \<open>
  The state of the component, the time \<^verbatim>\<open>Date.now()\<close> gives, and the intervals that are set; an
  interval holds the variables of the effect that set it. \<open>dg_captured\<close> is the interval the
  cleanup of the last run clears.
\<close>

record interval =
  iv_id :: nat
  iv_start :: int
  iv_lastCycle :: int

record diagram =
  dg_stepIdx :: int
  dg_txCount :: nat
  dg_now :: int
  dg_intervals :: "interval list"
  dg_made :: nat
  dg_captured :: nat

definition fresh_diagram :: "int \<Rightarrow> diagram" where
  "fresh_diagram now =
     \<lparr>dg_stepIdx = 0, dg_txCount = 42, dg_now = now, dg_intervals = [], dg_made = 0, dg_captured = 0\<rparr>"

definition clock_start :: "diagram \<Rightarrow> diagram" where
  "clock_start e =
     e\<lparr>dg_intervals := dg_intervals e @ [\<lparr>iv_id = dg_made e, iv_start = dg_now e, iv_lastCycle = 0\<rparr>],
       dg_made := dg_made e + 1, dg_captured := dg_made e\<rparr>"

definition clock_stop :: "diagram \<Rightarrow> diagram" where
  "clock_stop e = e\<lparr>dg_intervals := filter (\<lambda>iv. iv_id iv \<noteq> dg_captured e) (dg_intervals e)\<rparr>"

text \<open>\<^verbatim>\<open>t % k\<close> has the sign of \<^verbatim>\<open>t\<close>.\<close>

definition js_mod :: "rat \<Rightarrow> rat \<Rightarrow> rat" where
  "js_mod t k = (if 0 \<le> t then t - k * of_int \<lfloor>t / k\<rfloor> else - (- t - k * of_int \<lfloor>- t / k\<rfloor>))"

definition interval_fires :: "interval \<Rightarrow> diagram \<Rightarrow> diagram" where
  "interval_fires iv e =
     (let t = rnd (of_int (dg_now e - iv_start iv) / 1000);
          cycleT = js_mod t (of_int CYCLE_SEC);
          idx = min (int (length STEPS) - 1) \<lfloor>cycleT\<rfloor>;
          cycle = \<lfloor>rnd (t / of_int CYCLE_SEC)\<rfloor>;
          e1 = e\<lparr>dg_stepIdx := idx\<rparr>
      in if cycle \<noteq> iv_lastCycle iv then
           e1\<lparr>dg_intervals :=
                map (\<lambda>j. if iv_id j = iv_id iv then j\<lparr>iv_lastCycle := cycle\<rparr> else j) (dg_intervals e1),
              dg_txCount := dg_txCount e1 + 1\<rparr>
         else e1)"

text \<open>Time passes, backwards only if the system clock is set back, and intervals fire.\<close>

inductive clock_step :: "bool \<Rightarrow> diagram \<Rightarrow> diagram \<Rightarrow> bool" for set_back where
  time: "set_back \<or> dg_now e \<le> t \<Longrightarrow> clock_step set_back e (e\<lparr>dg_now := t\<rparr>)"
| fires: "iv \<in> set (dg_intervals e) \<Longrightarrow> clock_step set_back e (interval_fires iv e)"

section \<open>The drawing\<close>

definition num_attr :: "rat \<Rightarrow> attr" where
  "num_attr x = AStr (num_to_string (Fin x))"

definition int_attr :: "int \<Rightarrow> attr" where
  "int_attr n = AStr (int_string n)"

abbreviation attrs_of :: "(string \<times> string) list \<Rightarrow> (string \<times> attr) list" where
  "attrs_of ps \<equiv> map (\<lambda>(k, v). (k, AStr (js v))) ps"

abbreviation class_attr :: "string \<Rightarrow> string \<times> attr" where
  "class_attr c \<equiv> (''className'', AStr (js c))"

definition delayed :: "nat \<Rightarrow> string \<times> attr" where
  "delayed i = (''style'', AStyle [(''animationDelay'', dec_string i @ js ''s'')])"

definition diagram_defs :: "node list \<Rightarrow> vnode" where
  "diagram_defs ns =
     El ''defs'' []
       [El ''path'' [(''id'', AStr (js ''hex-path'')), (''d'', AStr (PATH_D ns)), (''fill'', AStr (js ''none'')),
          (''stroke'', AStr (js ''none''))] [],
        El ''filter''
          (attrs_of [(''id'', ''cobalt-bloom''), (''x'', ''-50%''), (''y'', ''-50%''), (''width'', ''200%''), (''height'', ''200%'')])
          [El ''feGaussianBlur'' (attrs_of [(''stdDeviation'', ''2''), (''result'', ''blur'')]) [],
           El ''feMerge'' []
             [El ''feMergeNode'' (attrs_of [(''in'', ''blur'')]) [],
              El ''feMergeNode'' (attrs_of [(''in'', ''SourceGraphic'')]) []]]]"

definition skeleton :: "node list \<Rightarrow> vnode" where
  "skeleton ns =
     El ''path''
       ((''d'', AStr (PATH_D ns)) #
        attrs_of [(''fill'', ''none''), (''stroke'', ''var(--ink)''), (''strokeWidth'', ''1''), (''strokeLinecap'', ''square''),
          (''opacity'', ''0.18'')]) []"

definition arc_fill :: "nat \<Rightarrow> node \<times> node \<Rightarrow> vnode" where
  "arc_fill i a =
     El ''line''
       [(''x1'', num_attr (nd_x (fst a))), (''y1'', num_attr (nd_y (fst a))),
        (''x2'', num_attr (nd_x (snd a))), (''y2'', num_attr (nd_y (snd a))),
        (''stroke'', AStr (js ''var(--accent)'')), (''strokeWidth'', AStr (js ''3'')),
        (''strokeLinecap'', AStr (js ''round'')), (''pathLength'', int_attr 1),
        (''strokeDasharray'', AStr (js ''1 1'')), class_attr ''arc-fill'', delayed i] []"

definition spoke :: "nat \<Rightarrow> node \<Rightarrow> vnode" where
  "spoke i n =
     El ''line''
       [(''x1'', num_attr (nd_x n)), (''y1'', num_attr (nd_y n)), (''x2'', int_attr CX), (''y2'', int_attr CY),
        (''stroke'', AStr (js ''var(--accent)'')), (''strokeWidth'', AStr (js ''1.5'')),
        (''strokeLinecap'', AStr (js ''round'')), (''pathLength'', int_attr 1),
        (''strokeDasharray'', AStr (js ''1 1'')), class_attr ''spoke'', delayed i] []"

definition pulse_animate :: "nat \<Rightarrow> string \<Rightarrow> string \<Rightarrow> string \<Rightarrow> vnode" where
  "pulse_animate begin_at name from_v to_v =
     El ''animate''
       [(''attributeName'', AStr (js name)), (''from'', AStr (js from_v)), (''to'', AStr (js to_v)),
        (''dur'', AStr (js ''6s'')), (''begin'', AStr (dec_string begin_at @ js ''s'')),
        (''repeatCount'', AStr (js ''indefinite''))] []"

definition pulse_ring :: "nat \<Rightarrow> vnode" where
  "pulse_ring d =
     El ''circle''
       ([(''cx'', int_attr CX), (''cy'', int_attr CY)] @
        attrs_of [(''r'', ''38''), (''fill'', ''none''), (''stroke'', ''var(--accent)''), (''strokeWidth'', ''1.8'')])
       [pulse_animate d ''r'' ''38'' ''118'', pulse_animate d ''opacity'' ''0.55'' ''0'',
        pulse_animate d ''stroke-width'' ''1.8'' ''0.4'']"

definition pulse_rings :: vnode where
  "pulse_rings = El ''g'' (attrs_of [(''pointerEvents'', ''none'')]) (map pulse_ring [0, 3])"

definition center_marker :: "vnode list" where
  "center_marker =
     [El ''circle'' [(''cx'', int_attr (CX + 4)), (''cy'', int_attr (CY + 4)), (''r'', AStr (js ''38'')),
        (''fill'', AStr (js ''var(--ink)''))] [],
      El ''g'' [(''transform'', AStr (js ''translate('' @ int_string CX @ js '' '' @ int_string CY @ js '')''))]
        [El ''circle''
           (attrs_of [(''r'', ''38''), (''fill'', ''var(--paper)''), (''stroke'', ''var(--ink)''), (''strokeWidth'', ''1.5'')]) [],
         El ''text''
           (attrs_of [(''y'', ''-4''), (''fontSize'', ''9''), (''fontFamily'', ''var(--font-mono)''),
              (''fill'', ''var(--ink-soft)''), (''textAnchor'', ''middle'')] @
            [(''style'', AStyle [(''letterSpacing'', js ''0.16em''), (''textTransform'', js ''uppercase'')])])
           [Txt (js ''gateway'')],
         El ''text''
           (attrs_of [(''y'', ''14''), (''fontSize'', ''16''), (''fontFamily'', ''var(--font-display)''),
              (''fontStyle'', ''italic''), (''fill'', ''var(--accent)''), (''textAnchor'', ''middle'')])
           [Txt (js ''x402'')]]]"

definition chevron :: vnode where
  "chevron =
     El ''path''
       (attrs_of [(''d'', CHEVRON_D), (''fill'', ''var(--accent)''), (''stroke'', ''var(--accent)''), (''strokeWidth'', ''1''),
          (''strokeLinejoin'', ''round''), (''filter'', ''url(#cobalt-bloom)'')])
       [El ''animateMotion''
          [(''dur'', AStr (int_string CYCLE_SEC @ js ''s'')), (''repeatCount'', AStr (js ''indefinite'')),
           (''rotate'', AStr (js ''auto''))]
          [El ''mpath'' (attrs_of [(''href'', ''#hex-path'')]) []]]"

definition tile_rect :: "int \<Rightarrow> (string \<times> attr) list \<Rightarrow> vnode" where
  "tile_rect offset extra =
     El ''rect''
       ([(''x'', int_attr (- (NODE_W div 2) + offset)), (''y'', int_attr (- (NODE_H div 2) + offset)),
         (''width'', int_attr NODE_W), (''height'', int_attr NODE_H)] @ extra) []"

definition node_tile :: "nat \<Rightarrow> node \<Rightarrow> vnode" where
  "node_tile i n =
     El ''g''
       [(''transform'', AStr (js ''translate('' @ num_to_string (Fin (nd_x n)) @ js '' '' @
           num_to_string (Fin (nd_y n)) @ js '')''))]
       [tile_rect 4 (attrs_of [(''fill'', ''var(--ink)'')]),
        tile_rect 0 (attrs_of [(''fill'', ''var(--paper)''), (''stroke'', ''var(--ink)''), (''strokeWidth'', ''1.5'')]),
        tile_rect 0 [(''fill'', AStr (js ''var(--accent)'')), class_attr ''node-flash'', delayed i],
        tile_rect 0
          [(''fill'', AStr (js ''none'')), (''stroke'', AStr (js ''var(--accent)'')), (''strokeWidth'', AStr (js ''2.5'')),
           class_attr ''node-outline'', delayed i],
        El ''text''
          ([(''x'', int_attr (- (NODE_W div 2) + 5)), (''y'', int_attr (- (NODE_H div 2) + 11))] @
           attrs_of [(''fontSize'', ''8''), (''fontFamily'', ''var(--font-mono)''), (''fill'', ''var(--ink-soft)'')] @
           [(''style'', AStyle [(''letterSpacing'', js ''0.16em'')])])
          [Txt (js (ds_n (nd_step n)))],
        El ''text''
          ([(''x'', AStr (js ''0'')), (''y'', int_attr (NODE_H div 2 - 14))] @
           attrs_of [(''fontSize'', ''12''), (''fontFamily'', ''var(--font-sans)'')] @ [(''fontWeight'', int_attr 500)] @
           attrs_of [(''fill'', ''var(--ink)''), (''textAnchor'', ''middle'')])
          [Txt (js (ds_name (nd_step n)))]]"

definition diagram_svg :: "bool \<Rightarrow> node list \<Rightarrow> vnode" where
  "diagram_svg prefersReduced ns =
     El ''svg''
       (attrs_of [(''viewBox'', ''0 0 400 400''), (''className'', ''block w-full max-w-[520px]''),
          (''aria-label'', ''x402-style protocol orchestra'')])
       ([diagram_defs ns, skeleton ns] @
        map (\<lambda>(i, a). arc_fill i a) (enumerate 0 (ARCS ns)) @
        map (\<lambda>(i, n). spoke i n) (enumerate 0 ns) @
        only (\<not> prefersReduced) pulse_rings @
        center_marker @
        only (\<not> prefersReduced) chevron @
        map (\<lambda>(i, n). node_tile i n) (enumerate 0 ns))"

text \<open>\<^verbatim>\<open>String(txCount).padStart(4, "0")\<close>\<close>

definition padStart4 :: "nat \<Rightarrow> jstring" where
  "padStart4 n = replicate (4 - length (dec_string n)) (cu (CHR ''0'')) @ dec_string n"

definition diagram_caption :: "diagram_step \<Rightarrow> vnode list" where
  "diagram_caption current =
     [El ''span'' [class_attr ''sr-only'']
        [Txt (js ''Live x402-style protocol diagram showing six steps '' @ [0x2014] @
           js '' request, challenge, sign, verify, generate, receipt '' @ [0x2014] @ js '' cycling continuously.'')],
      El ''div'' [class_attr ''flex w-full items-baseline justify-center gap-3'', (''aria-hidden'', AFlag True)]
        [El ''span'' [class_attr ''font-mono text-[10px] uppercase tracking-[0.22em] text-ink-soft'']
           [Txt (js ''now '' @ [0xB7])],
         El ''span''
           [class_attr ''font-display italic text-ink caption-fade text-balance'',
            (''style'', AStyle [(''fontSize'', js ''clamp(15px, 1.7vw, 22px)'')])]
           [Txt (js (ds_verb current)), El ''span'' [class_attr ''text-accent''] [Txt (js ''.'')]]]]"

definition live_counter :: "bool \<Rightarrow> nat \<Rightarrow> vnode" where
  "live_counter prefersReduced txCount =
     El ''div''
       [class_attr ''pointer-events-none absolute right-3 top-3 z-20 flex items-center gap-1.5 border border-ink bg-paper px-2 py-1'']
       [El ''span''
          ([(''aria-hidden'', AFlag True), class_attr ''inline-block size-1.5 bg-accent''] @
           (if prefersReduced then []
            else [(''style'', AStyle [(''animation'', js ''live-blink 1.6s ease-in-out infinite'')])])) [],
        El ''span'' [class_attr ''font-mono text-[10px] uppercase tracking-[0.18em] tnum text-ink'']
          [Txt (js ''TX '' @ padStart4 txCount @ js '' '' @ [0xB7] @ js '' LIVE'')]]"

text \<open>Reading the fields of a step that does not exist throws.\<close>

definition ProtocolOrchestra3D ::
    "(rat \<Rightarrow> rat) \<Rightarrow> (rat \<Rightarrow> rat) \<Rightarrow> bool \<Rightarrow> diagram \<Rightarrow> (thrown, vnode) result" where
  "ProtocolOrchestra3D cosf sinf prefersReduced d =
     (if 0 \<le> dg_stepIdx d \<and> dg_stepIdx d < int (length STEPS) then
        Inr (El ''div''
          [class_attr ''relative flex h-full min-h-[380px] w-full flex-col items-center justify-center gap-2 px-3 pb-3 pt-3'']
          ([El ''div'' [class_attr ''flex-1 flex items-center justify-center w-full'']
              [El ''div'' [class_attr ''flat-stage''] [diagram_svg prefersReduced (NODES cosf sinf)]]] @
           diagram_caption (STEPS ! nat (dg_stepIdx d)) @
           [El ''div''
              [class_attr ''pointer-events-none absolute left-3 top-3 z-20 font-mono text-[10px] uppercase tracking-[0.22em] text-ink-soft'']
              [Txt (js ''Plate '' @ [0xA7] @ js '' 06'')],
            live_counter prefersReduced (dg_txCount d)]))
      else Inl (NativeError TypeError))"

section \<open>The style sheet\<close>

definition cycle_animation :: "string \<Rightarrow> string \<times> jstring \<times> bool" where
  "cycle_animation name =
     (''animation'', js name @ js '' '' @ int_string CYCLE_SEC @ js ''s linear infinite both'', False)"

definition diagram_rules :: "css_rule list" where
  "diagram_rules =
     [\<lparr>cr_reduce = False, cr_classes = [''flat-stage''],
       cr_decls = normal [(''width'', ''100%''), (''display'', ''flex''), (''justify-content'', ''center''), (''align-items'', ''center'')]\<rparr>,
      \<lparr>cr_reduce = False, cr_classes = [''arc-fill''], cr_decls = [cycle_animation ''arc-fill-cycle'']\<rparr>,
      \<lparr>cr_reduce = False, cr_classes = [''spoke''], cr_decls = cycle_animation ''spoke-pulse'' # normal [(''opacity'', ''0'')]\<rparr>,
      \<lparr>cr_reduce = False, cr_classes = [''node-flash''],
       cr_decls = normal [(''opacity'', ''0''), (''pointer-events'', ''none'')] @ [cycle_animation ''flash-pulse'']\<rparr>,
      \<lparr>cr_reduce = False, cr_classes = [''node-outline''],
       cr_decls = normal [(''opacity'', ''0''), (''pointer-events'', ''none'')] @ [cycle_animation ''outline-pulse'']\<rparr>,
      \<lparr>cr_reduce = True, cr_classes = [''arc-fill'', ''spoke'', ''node-flash'', ''node-outline''],
       cr_decls = [(''animation'', js ''none'', True)]\<rparr>,
      \<lparr>cr_reduce = False, cr_classes = [''caption-fade''],
       cr_decls = normal [(''animation'', ''caption-in 480ms cubic-bezier(0.2, 0.7, 0.2, 1)'')]\<rparr>]"

definition diagram_keyframes :: "keyframes list" where
  "diagram_keyframes =
     [\<lparr>kf_name = ''arc-fill-cycle'', kf_frames =
        [([''0%''], [(''stroke-dashoffset'', ''1'')]), ([''17%''], [(''stroke-dashoffset'', ''0'')]),
         ([''83%''], [(''stroke-dashoffset'', ''0'')]), ([''100%''], [(''stroke-dashoffset'', ''-1'')])]\<rparr>,
      \<lparr>kf_name = ''spoke-pulse'', kf_frames =
        [([''0%''], [(''stroke-dashoffset'', ''1''), (''opacity'', ''0'')]), ([''0.5%''], [(''opacity'', ''0.95'')]),
         ([''10%''], [(''stroke-dashoffset'', ''0''), (''opacity'', ''0.95'')]),
         ([''16%''], [(''stroke-dashoffset'', ''0''), (''opacity'', ''0.5'')]),
         ([''25%''], [(''stroke-dashoffset'', ''-1''), (''opacity'', ''0'')]),
         ([''100%''], [(''stroke-dashoffset'', ''-1''), (''opacity'', ''0'')])]\<rparr>,
      \<lparr>kf_name = ''flash-pulse'', kf_frames =
        [([''0%'', ''100%''], [(''opacity'', ''0'')]), ([''0.4%''], [(''opacity'', ''0.55'')]),
         ([''5%''], [(''opacity'', ''0.18'')]), ([''11%''], [(''opacity'', ''0'')])]\<rparr>,
      \<lparr>kf_name = ''outline-pulse'', kf_frames =
        [([''0%'', ''100%''], [(''opacity'', ''0'')]), ([''0.4%''], [(''opacity'', ''1'')]), ([''7%''], [(''opacity'', ''0'')])]\<rparr>,
      \<lparr>kf_name = ''caption-in'', kf_frames =
        [([''from''], [(''opacity'', ''0''), (''transform'', ''translateY(4px)'')]),
         ([''to''], [(''opacity'', ''1''), (''transform'', ''translateY(0)'')])]\<rparr>,
      \<lparr>kf_name = ''live-blink'', kf_frames =
        [([''0%'', ''100%''], [(''opacity'', ''1'')]), ([''50%''], [(''opacity'', ''0.35'')])]\<rparr>]"

definition diagram_sheet :: sheet where
  "diagram_sheet = \<lparr>sh_rules = diagram_rules, sh_keyframes = diagram_keyframes\<rparr>"

section \<open>What moves\<close>

abbreviation looping :: "bool \<Rightarrow> vnode list \<Rightarrow> vnode list" where
  "looping reduced \<equiv> pick (loops reduced diagram_sheet)"

abbreviation moving :: "bool \<Rightarrow> vnode list \<Rightarrow> vnode list" where
  "moving reduced \<equiv> pick (moves reduced diagram_sheet)"

lemma cycle_value: "cycle_animation name = (''animation'', js (name @ '' 6s linear infinite both''), False)"
proof -
  have "int_string CYCLE_SEC = js ''6''"
    by (simp add: CYCLE_SEC_def int_string_def dec_string.simps js_Cons cu_def digit_def unit_of_def)
  then show ?thesis by (simp add: cycle_animation_def flip: js_append)
qed

lemma sheet_animation:
  "declared reduced diagram_sheet cs ''animation'' =
     (if js ''arc-fill'' \<in> set cs then [(js ''arc-fill-cycle 6s linear infinite both'', False)] else []) @
     (if js ''spoke'' \<in> set cs then [(js ''spoke-pulse 6s linear infinite both'', False)] else []) @
     (if js ''node-flash'' \<in> set cs then [(js ''flash-pulse 6s linear infinite both'', False)] else []) @
     (if js ''node-outline'' \<in> set cs then [(js ''outline-pulse 6s linear infinite both'', False)] else []) @
     (if reduced \<and> (js ''arc-fill'' \<in> set cs \<or> js ''spoke'' \<in> set cs \<or> js ''node-flash'' \<in> set cs \<or> js ''node-outline'' \<in> set cs)
      then [(js ''none'', True)] else []) @
     (if js ''caption-fade'' \<in> set cs then [(js ''caption-in 480ms cubic-bezier(0.2, 0.7, 0.2, 1)'', False)] else [])"
  by (simp add: declared_def diagram_sheet_def diagram_rules_def applies_def cycle_value)

text \<open>The class attribute of a literal, and the style it gets.\<close>

definition sheet_classes :: "string list" where
  "sheet_classes = concat (map cr_classes diagram_rules)"

definition plain_class :: "string \<Rightarrow> bool" where
  "plain_class c \<longleftrightarrow> single_spaced c \<and> list_all (\<lambda>w. w \<notin> set sheet_classes) (literal_words c)"

lemma plain_class_still:
  assumes "map_of attrs ''className'' = Some (AStr (js c))" "plain_class c"
  shows "styled_animation reduced diagram_sheet attrs =
    (case inline_of ''animation'' attrs of Some a \<Rightarrow> if a = js ''none'' then None else Some a | None \<Rightarrow> None)"
proof -
  have "js w \<notin> set (classes_of attrs)" if "w \<in> set sheet_classes" for w
    using assms that by (auto simp: classes_of_def plain_class_def split_spaces_literal list_all_iff)
  then have "declared reduced diagram_sheet (classes_of attrs) ''animation'' = []"
    by (simp add: sheet_animation sheet_classes_def diagram_rules_def)
  then show ?thesis by (simp add: styled_animation_def computed_def latest_def split: option.split)
qed

lemma unclassed_still:
  assumes "map_of attrs ''className'' = None" "inline_of ''animation'' attrs = None"
  shows "styled_animation reduced diagram_sheet attrs = None"
  using assms by (simp add: styled_animation_def computed_def latest_def sheet_animation)

lemma sheet_words:
  "split_spaces (js ''arc-fill'') = [js ''arc-fill'']" "split_spaces (js ''spoke'') = [js ''spoke'']"
  "split_spaces (js ''node-flash'') = [js ''node-flash'']" "split_spaces (js ''node-outline'') = [js ''node-outline'']"
  "js ''infinite'' \<in> set (split_spaces (js ''arc-fill-cycle 6s linear infinite both''))"
  "js ''infinite'' \<in> set (split_spaces (js ''spoke-pulse 6s linear infinite both''))"
  "js ''infinite'' \<in> set (split_spaces (js ''flash-pulse 6s linear infinite both''))"
  "js ''infinite'' \<in> set (split_spaces (js ''outline-pulse 6s linear infinite both''))"
  "js ''infinite'' \<in> set (split_spaces (js ''live-blink 1.6s ease-in-out infinite''))"
  "js ''infinite'' \<notin> set (split_spaces (js ''caption-in 480ms cubic-bezier(0.2, 0.7, 0.2, 1)''))"
  by (subst split_spaces_literal, code_simp, simp)+

text \<open>Every animation of the sheet uses key frames that the sheet defines.\<close>

lemma animations_defined:
  assumes "r \<in> set (sh_rules diagram_sheet)" "(''animation'', a, imp) \<in> set (cr_decls r)" "a \<noteq> js ''none''"
  shows "animation_name a \<in> set (map (\<lambda>k. js (kf_name k)) (sh_keyframes diagram_sheet))"
proof -
  have names: "animation_name (js ''arc-fill-cycle 6s linear infinite both'') = js ''arc-fill-cycle''"
    "animation_name (js ''spoke-pulse 6s linear infinite both'') = js ''spoke-pulse''"
    "animation_name (js ''flash-pulse 6s linear infinite both'') = js ''flash-pulse''"
    "animation_name (js ''outline-pulse 6s linear infinite both'') = js ''outline-pulse''"
    "animation_name (js ''caption-in 480ms cubic-bezier(0.2, 0.7, 0.2, 1)'') = js ''caption-in''"
    unfolding animation_name_def by (subst split_spaces_literal, code_simp, simp)+
  show ?thesis
    using assms by (auto simp: diagram_sheet_def diagram_rules_def cycle_value names diagram_keyframes_def)
qed

lemma sheet_class_moves:
  assumes "map_of attrs ''className'' = Some (AStr (js c))" "inline_of ''animation'' attrs = None"
    and "c \<in> {''arc-fill'', ''spoke'', ''node-flash'', ''node-outline''}"
  shows "moves reduced diagram_sheet (El tag attrs cs) \<longleftrightarrow> tag = ''animate'' \<or> tag = ''animateMotion'' \<or> \<not> reduced"
    and "tag \<noteq> ''animate'' \<Longrightarrow> tag \<noteq> ''animateMotion'' \<Longrightarrow> loops reduced diagram_sheet (El tag attrs cs) \<longleftrightarrow> \<not> reduced"
proof -
  have "split_spaces (js c) = [js c]" using assms(3) sheet_words by auto
  then have cs: "classes_of attrs = [js c]" using assms(1) by (simp add: classes_of_def)
  have look: "styled_animation reduced diagram_sheet attrs =
      (if reduced then None else Some (fst (hd (declared False diagram_sheet [js c] ''animation''))))"
    using assms(2, 3) by (auto simp: styled_animation_def computed_def cs sheet_animation latest_def)
  show "moves reduced diagram_sheet (El tag attrs cs) \<longleftrightarrow> tag = ''animate'' \<or> tag = ''animateMotion'' \<or> \<not> reduced"
    by (simp add: moves_def look)
  have "js ''infinite'' \<in> set (split_spaces (fst (hd (declared False diagram_sheet [js c] ''animation''))))"
    using assms(3) by (auto simp: sheet_animation sheet_words)
  then show "tag \<noteq> ''animate'' \<Longrightarrow> tag \<noteq> ''animateMotion'' \<Longrightarrow> loops reduced diagram_sheet (El tag attrs cs) \<longleftrightarrow> \<not> reduced"
    by (simp add: loops_def look)
qed

lemma plain_classes [simp]:
  "plain_class ''block w-full max-w-[520px]''" "plain_class ''sr-only''" "plain_class ''text-accent''"
  "plain_class ''flex w-full items-baseline justify-center gap-3''"
  "plain_class ''font-mono text-[10px] uppercase tracking-[0.22em] text-ink-soft''"
  "plain_class ''font-mono text-[10px] uppercase tracking-[0.18em] tnum text-ink''"
  "plain_class ''inline-block size-1.5 bg-accent''"
  "plain_class ''flex-1 flex items-center justify-center w-full''"
  "plain_class ''pointer-events-none absolute right-3 top-3 z-20 flex items-center gap-1.5 border border-ink bg-paper px-2 py-1''"
  "plain_class ''relative flex h-full min-h-[380px] w-full flex-col items-center justify-center gap-2 px-3 pb-3 pt-3''"
  "plain_class ''pointer-events-none absolute left-3 top-3 z-20 font-mono text-[10px] uppercase tracking-[0.22em] text-ink-soft''"
  by code_simp+

lemma still_El:
  assumes "tag \<noteq> ''animate''" "tag \<noteq> ''animateMotion''" "styled_animation reduced diagram_sheet attrs = None"
  shows "\<not> moves reduced diagram_sheet (El tag attrs cs)" "\<not> loops reduced diagram_sheet (El tag attrs cs)"
  using assms by (simp_all add: moves_def loops_def)

lemmas keeps_still = still_El unclassed_still plain_class_still inline_of_def delayed_def

lemma parts_keep_still:
  "moving reduced [diagram_defs ns] = []" "moving reduced [skeleton ns] = []" "moving reduced center_marker = []"
  by (simp_all add: diagram_defs_def skeleton_def center_marker_def keeps_still)

lemma looping_none: "moving reduced vs = [] \<Longrightarrow> looping reduced vs = []"
  using loops_moves by (fastforce simp: pick_def filter_empty_conv)

lemma moving_parts:
  "length (moving reduced [arc_fill i a]) = (if reduced then 0 else 1)"
  "length (looping reduced [arc_fill i a]) = (if reduced then 0 else 1)"
  "length (moving reduced [spoke i n]) = (if reduced then 0 else 1)"
  "length (looping reduced [spoke i n]) = (if reduced then 0 else 1)"
  "length (moving reduced [node_tile i n]) = (if reduced then 0 else 2)"
  "length (looping reduced [node_tile i n]) = (if reduced then 0 else 2)"
  by (simp_all add: arc_fill_def spoke_def node_tile_def tile_rect_def sheet_class_moves keeps_still)

lemma svg_animations:
  "length (looping reduced [pulse_rings]) = 6" "length (moving reduced [pulse_rings]) = 6"
  "length (looping reduced [chevron]) = 1" "length (moving reduced [chevron]) = 1"
  by (simp_all add: pulse_rings_def pulse_ring_def chevron_def pulse_animate_def keeps_still)
    (simp_all add: moves_def loops_def unclassed_still inline_of_def)

lemma pick_map_length:
  "(\<And>i x. (i, x) \<in> set ps \<Longrightarrow> length (pick p [f i x]) = k) \<Longrightarrow> length (pick p (map (\<lambda>(i, x). f i x) ps)) = k * length ps"
proof (induction ps)
  case (Cons ix ps)
  obtain i x where ix: "ix = (i, x)" by (cases ix)
  have "length (pick p [f i x]) = k" "length (pick p (map (\<lambda>(i, x). f i x) ps)) = k * length ps"
    using Cons ix by auto
  then show ?case by (simp add: ix pick_Cons [of p "f i x" "map _ _"])
qed simp

lemma sizes: "length (NODES cosf sinf) = 6" "length (ARCS ns) = length ns"
  by (simp_all add: NODES_def STEPS_def ARCS_def)

lemma svg_length:
  assumes "length ns = 6"
  shows "length (looping reduced [diagram_svg prefersReduced ns]) = (if prefersReduced then 0 else 7) + (if reduced then 0 else 24)"
    and "length (moving reduced [diagram_svg prefersReduced ns]) = (if prefersReduced then 0 else 7) + (if reduced then 0 else 24)"
proof -
  note still = parts_keep_still parts_keep_still [THEN looping_none]
  have maps: "length (pick q (map (\<lambda>(i, a). arc_fill i a) (enumerate 0 (ARCS ns)))) =
        (if reduced then 0 else 1) * length (enumerate 0 (ARCS ns))"
    "length (pick q (map (\<lambda>(i, n). spoke i n) (enumerate 0 ns))) = (if reduced then 0 else 1) * length (enumerate 0 ns)"
    "length (pick q (map (\<lambda>(i, n). node_tile i n) (enumerate 0 ns))) = (if reduced then 0 else 2) * length (enumerate 0 ns)"
    if "q = loops reduced diagram_sheet \<or> q = moves reduced diagram_sheet" for q
    by (rule pick_map_length, use that in \<open>elim disjE; simp only: moving_parts\<close>)+
  have svg: "length (pick q [diagram_svg prefersReduced ns]) = (if prefersReduced then 0 else 7) + (if reduced then 0 else 24)"
    if q: "q = loops reduced diagram_sheet \<or> q = moves reduced diagram_sheet" for q
  proof -
    have "\<not> q (El ''svg'' attrs cs)" if "styled_animation reduced diagram_sheet attrs = None" for attrs cs
      using q that by (elim disjE) (simp_all add: still_El)
    then have "length (pick q [diagram_svg prefersReduced ns]) =
        length (pick q [diagram_defs ns]) + length (pick q [skeleton ns]) +
        length (pick q (map (\<lambda>(i, a). arc_fill i a) (enumerate 0 (ARCS ns)))) +
        length (pick q (map (\<lambda>(i, n). spoke i n) (enumerate 0 ns))) +
        (if prefersReduced then 0 else length (pick q [pulse_rings])) + length (pick q center_marker) +
        (if prefersReduced then 0 else length (pick q [chevron])) +
        length (pick q (map (\<lambda>(i, n). node_tile i n) (enumerate 0 ns)))"
      by (simp add: diagram_svg_def pick_Cons [of q "diagram_defs ns" "v # vs" for v vs]
          pick_Cons [of q "skeleton ns" "vs @ ws" for vs ws] keeps_still)
    moreover have "length (pick q [diagram_defs ns]) = 0" "length (pick q [skeleton ns]) = 0" "length (pick q center_marker) = 0"
      "length (pick q [pulse_rings]) = 6" "length (pick q [chevron]) = 1"
      using q by (elim disjE; simp add: still svg_animations)+
    ultimately show ?thesis unfolding maps [OF q] by (simp add: sizes assms)
  qed
  from svg [of "loops reduced diagram_sheet"] svg [of "moves reduced diagram_sheet"]
  show "length (looping reduced [diagram_svg prefersReduced ns]) = (if prefersReduced then 0 else 7) + (if reduced then 0 else 24)"
    and "length (moving reduced [diagram_svg prefersReduced ns]) = (if prefersReduced then 0 else 7) + (if reduced then 0 else 24)"
    by simp_all
qed

lemma caption_style:
  assumes "map_of attrs ''className'' = Some (AStr (js ''font-display italic text-ink caption-fade text-balance''))"
    and "inline_of ''animation'' attrs = None"
  shows "moves reduced diagram_sheet (El ''span'' attrs cs)" "\<not> loops reduced diagram_sheet (El ''span'' attrs cs)"
proof -
  have "split_spaces (js ''font-display italic text-ink caption-fade text-balance'') =
      map js [''font-display'', ''italic'', ''text-ink'', ''caption-fade'', ''text-balance'']"
    by (subst split_spaces_literal, code_simp, simp)
  then have "styled_animation reduced diagram_sheet attrs = Some (js ''caption-in 480ms cubic-bezier(0.2, 0.7, 0.2, 1)'')"
    using assms by (simp add: styled_animation_def computed_def classes_of_def sheet_animation latest_def)
  then show "moves reduced diagram_sheet (El ''span'' attrs cs)" "\<not> loops reduced diagram_sheet (El ''span'' attrs cs)"
    using sheet_words by (simp_all add: moves_def loops_def)
qed

lemma stage_still: "map_of attrs ''className'' = Some (AStr (js ''flat-stage'')) \<Longrightarrow> inline_of ''animation'' attrs = None \<Longrightarrow>
    styled_animation reduced diagram_sheet attrs = None"
proof -
  assume a: "map_of attrs ''className'' = Some (AStr (js ''flat-stage''))" "inline_of ''animation'' attrs = None"
  have "split_spaces (js ''flat-stage'') = [js ''flat-stage'']" by (subst split_spaces_literal, code_simp, simp)
  with a show ?thesis by (simp add: styled_animation_def computed_def classes_of_def sheet_animation latest_def)
qed

lemma counter_animations:
  "length (looping reduced [live_counter prefersReduced n]) = (if prefersReduced then 0 else 1)"
  "length (moving reduced [live_counter prefersReduced n]) = (if prefersReduced then 0 else 1)"
proof -
  have "styled_animation reduced diagram_sheet
      [(''aria-hidden'', AFlag True), class_attr ''inline-block size-1.5 bg-accent'',
       (''style'', AStyle [(''animation'', js ''live-blink 1.6s ease-in-out infinite'')])] =
      Some (js ''live-blink 1.6s ease-in-out infinite'')"
    by (simp add: keeps_still)
  note blink = moves_def [of reduced diagram_sheet "El ''span'' (_ # _ # [_]) []"]
    loops_def [of reduced diagram_sheet "El ''span'' (_ # _ # [_]) []"] this
  show "length (looping reduced [live_counter prefersReduced n]) = (if prefersReduced then 0 else 1)"
    and "length (moving reduced [live_counter prefersReduced n]) = (if prefersReduced then 0 else 1)"
    using sheet_words by (simp_all add: live_counter_def keeps_still blink)
qed

lemma diagram_animations:
  assumes "ProtocolOrchestra3D cosf sinf prefersReduced d = Inr v"
  shows "length (looping reduced [v]) = (if prefersReduced then 0 else 8) + (if reduced then 0 else 24)"
    and "length (moving reduced [v]) = 1 + length (looping reduced [v])"
proof -
  have caption: "length (looping reduced (diagram_caption st)) = 0" "length (moving reduced (diagram_caption st)) = 1" for st
    by (simp_all add: diagram_caption_def keeps_still caption_style)
  have "v = El ''div''
      [class_attr ''relative flex h-full min-h-[380px] w-full flex-col items-center justify-center gap-2 px-3 pb-3 pt-3'']
      ([El ''div'' [class_attr ''flex-1 flex items-center justify-center w-full'']
          [El ''div'' [class_attr ''flat-stage''] [diagram_svg prefersReduced (NODES cosf sinf)]]] @
       diagram_caption (STEPS ! nat (dg_stepIdx d)) @
       [El ''div''
          [class_attr ''pointer-events-none absolute left-3 top-3 z-20 font-mono text-[10px] uppercase tracking-[0.22em] text-ink-soft'']
          [Txt (js ''Plate '' @ [0xA7] @ js '' 06'')],
        live_counter prefersReduced (dg_txCount d)])"
    using assms by (simp add: ProtocolOrchestra3D_def split: if_splits)
  then have "length (looping reduced [v]) = length (looping reduced [diagram_svg prefersReduced (NODES cosf sinf)]) +
        length (looping reduced (diagram_caption (STEPS ! nat (dg_stepIdx d)))) +
        length (looping reduced [live_counter prefersReduced (dg_txCount d)])"
    "length (moving reduced [v]) = length (moving reduced [diagram_svg prefersReduced (NODES cosf sinf)]) +
        length (moving reduced (diagram_caption (STEPS ! nat (dg_stepIdx d)))) +
        length (moving reduced [live_counter prefersReduced (dg_txCount d)])"
    by (simp_all add: keeps_still stage_still)
  then show "length (looping reduced [v]) = (if prefersReduced then 0 else 8) + (if reduced then 0 else 24)"
    and "length (moving reduced [v]) = 1 + length (looping reduced [v])"
    unfolding svg_length [OF sizes(1)] caption counter_animations by simp_all
qed

section \<open>The clock follows the preference\<close>

definition clock_sound :: "diagram \<Rightarrow> bool" where
  "clock_sound e =
     (case dg_intervals e of
        [] \<Rightarrow> True
      | [iv] \<Rightarrow> iv_id iv = dg_captured e
      | _ \<Rightarrow> False)"

lemma clock_step_sound:
  "clock_step set_back e e' \<Longrightarrow> clock_sound e \<Longrightarrow>
     clock_sound e' \<and> length (dg_intervals e') = length (dg_intervals e)"
  by (induction rule: clock_step.induct)
    (auto simp: clock_sound_def interval_fires_def Let_def split: list.splits)

interpretation diagram_clock: motion_effect clock_start clock_stop "clock_step set_back"
    "\<lambda>e. length (dg_intervals e)" clock_sound for set_back
proof
  fix e
  assume "clock_sound e" "length (dg_intervals e) = 0"
  then show "clock_sound (clock_start e) \<and> length (dg_intervals (clock_start e)) = 1"
    by (simp add: clock_sound_def clock_start_def)
next
  fix e
  assume "clock_sound e" "length (dg_intervals e) = 1"
  then show "clock_sound (clock_stop e) \<and> length (dg_intervals (clock_stop e)) = 0"
    by (auto simp: clock_sound_def clock_stop_def length_Suc_conv)
qed (rule clock_step_sound [rotated])

section \<open>The caption exists\<close>

lemma js_mod_range: "0 \<le> t \<Longrightarrow> 0 < k \<Longrightarrow> 0 \<le> js_mod t k \<and> js_mod t k < k"
proof -
  assume a: "0 \<le> t" "0 < k"
  have "k * of_int \<lfloor>t / k\<rfloor> \<le> k * (t / k)" "k * (t / k) < k * (of_int \<lfloor>t / k\<rfloor> + 1)"
    using a by (intro mult_left_mono mult_strict_left_mono; linarith)+
  then have "k * of_int \<lfloor>t / k\<rfloor> \<le> t" "t < k * (of_int \<lfloor>t / k\<rfloor> + 1)" using a by simp_all
  then show ?thesis using a by (simp add: js_mod_def algebra_simps)
qed

lemma to_double_nonneg: "0 \<le> r \<Longrightarrow> to_double r = Fin t \<Longrightarrow> 0 \<le> t"
proof -
  assume r: "0 \<le> r" and t: "to_double r = Fin t"
  have "0 \<le> round_half_even q" if "0 \<le> q" for q :: rat
    using that by (auto simp: round_half_even_def Let_def)
  then have "0 \<le> (of_int (round_half_even (\<bar>r\<bar> / 2 powi p)) :: rat) * 2 powi p" for p
    by (simp add: mult_nonneg_nonneg)
  then show ?thesis using r t by (auto simp: to_double_def Let_def split: if_splits)
qed

lemma rnd_nonneg: "0 \<le> r \<Longrightarrow> 0 \<le> rnd r"
  using to_double_nonneg by (cases "to_double r") (auto simp: rnd_def)

definition on_time :: "diagram \<Rightarrow> bool" where
  "on_time e \<longleftrightarrow>
     0 \<le> dg_stepIdx e \<and> dg_stepIdx e < int (length STEPS) \<and> (\<forall>iv \<in> set (dg_intervals e). iv_start iv \<le> dg_now e)"

lemma length_STEPS: "length STEPS = 6"
  by (simp add: STEPS_def)

lemma interval_fires_on_time:
  assumes "on_time e" "iv \<in> set (dg_intervals e)"
  shows "on_time (interval_fires iv e)"
proof -
  have "0 \<le> rnd (of_int (dg_now e - iv_start iv) / 1000)"
    using assms by (intro rnd_nonneg) (auto simp: on_time_def)
  then have "0 \<le> js_mod (rnd (of_int (dg_now e - iv_start iv) / 1000)) 6" using js_mod_range by simp
  then show ?thesis
    using assms(1) by (auto simp: on_time_def interval_fires_def Let_def length_STEPS CYCLE_SEC_def)
qed

lemma clock_step_on_time: "clock_step False e e' \<Longrightarrow> on_time e \<Longrightarrow> on_time e'"
proof (induction rule: clock_step.induct)
  case (time e t)
  then show ?case by (force simp: on_time_def)
qed (rule interval_fires_on_time)

lemma diagram_on_time:
  assumes "(motion_step clock_start clock_stop (clock_step False))\<^sup>*\<^sup>* (mount_motion window (fresh_diagram now)) s"
  shows "on_time (mo_effect s)"
  using assms
proof (rule effect_keeps)
  show "on_time (mo_effect (mount_motion window (fresh_diagram now)))"
    by (simp add: mount_motion_def fresh_diagram_def on_time_def length_STEPS)
qed (auto simp: clock_step_on_time, auto simp: on_time_def clock_start_def clock_stop_def)

section \<open>Properties\<close>


definition still_diagram :: "diagram motion" where
  "still_diagram =
     motion_run clock_start clock_stop (subscribe_effect (mount_motion (Some (Some True)) (fresh_diagram 0)))"

lemma reach_still_diagram:
  "(motion_step clock_start clock_stop (clock_step False))\<^sup>*\<^sup>* (mount_motion (Some (Some True)) (fresh_diagram 0)) still_diagram"
proof -
  let ?m = "mount_motion (Some (Some True)) (fresh_diagram 0)"
  have "motion_step clock_start clock_stop (clock_step False) ?m (subscribe_effect ?m)"
    by (rule subscribed) (simp_all add: mount_motion_def)
  moreover have "motion_step clock_start clock_stop (clock_step False) (subscribe_effect ?m) still_diagram"
    unfolding still_diagram_def
    by (rule effect_ran)
      (simp_all add: mount_motion_def subscribe_effect_def subscribeReducedMotion_def)
  ultimately show ?thesis by (rule rtranclp.rtrancl_into_rtrancl [OF r_into_rtranclp])
qed


text \<open>
  \<^verbatim>\<open>Date.now()\<close> may go back, for example when the system clock is adjusted: then the index is
  negative and the component throws while it renders.
\<close>

lemma caption_missing_after_clock_step:
  assumes "iv_start iv = dg_now e + 1000"
  shows "ProtocolOrchestra3D cosf sinf b (interval_fires iv e) = Inl (NativeError TypeError)"
proof -
  have "to_double (of_int (- 1000) / 1000) = Fin (- 1)"
    using to_double_int [of "- 1"] by (simp add: max_safe_integer_def num_of_int_def)
  then have "rnd (of_int (dg_now e - iv_start iv) / 1000) = - 1" by (simp add: rnd_def assms)
  moreover have "\<lfloor>js_mod (- 1) 6\<rfloor> = - 1"
  proof -
    have "\<lfloor>1 / (6 :: rat)\<rfloor> = 0" by (simp add: floor_eq_iff)
    then have "js_mod (- 1) 6 = of_int (- 1)" by (simp add: js_mod_def)
    then show ?thesis by (simp only: floor_of_int)
  qed
  ultimately have "dg_stepIdx (interval_fires iv e) = - 1"
    by (simp add: interval_fires_def Let_def length_STEPS CYCLE_SEC_def)
  then show ?thesis by (simp add: ProtocolOrchestra3D_def)
qed

end
