(* ===== verification/CopyButton.thy ===== *)
theory CopyButton
  imports Analytics Jsx
begin

text \<open>
  The copy buttons: \<^verbatim>\<open>web/src/components/copy-button.tsx\<close> and the button of
  \<^verbatim>\<open>web/src/components/docs/copy-code-block.tsx\<close>.

  A click writes to the clipboard, which takes time and may be refused; a successful write
  shows the copied label until a timer fires. Clicks, answers of the clipboard, the timer and
  the removal of the component interleave. The two buttons differ in what a successful write
  does: locale \<open>copy_control\<close> holds what they have in common, and is interpreted for both.
\<close>

section \<open>State\<close>

text \<open>
  \<open>in_flight\<close> are the values of clicks whose clipboard write has not been answered, \<open>timers\<close>
  the timers of the window that have not fired, \<open>written\<close> the values the clipboard took.
\<close>

record copy_state =
  copied :: bool
  timerRef :: "nat option"
  timers :: "nat list"
  next_timer :: nat
  in_flight :: "jstring list"
  written :: "jstring list"
  mounted :: bool

record counted_copy_state = copy_state +
  captured :: "(AnalyticsEvent \<times> props) list"

definition fresh_copy_state :: copy_state where
  "fresh_copy_state =
     \<lparr>copied = False, timerRef = None, timers = [], next_timer = 0, in_flight = [], written = [],
      mounted = True\<rparr>"

definition fresh_counted_state :: counted_copy_state where
  "fresh_counted_state = copy_state.extend fresh_copy_state (counted_copy_state.fields [])"

section \<open>Operations\<close>

text \<open>Setting state of a component that has been removed does nothing.\<close>

definition setCopied :: "bool \<Rightarrow> 'x copy_state_scheme \<Rightarrow> 'x copy_state_scheme" where
  "setCopied b s = (if mounted s then s\<lparr>copied := b\<rparr> else s)"

definition clear_timer :: "'x copy_state_scheme \<Rightarrow> 'x copy_state_scheme" where
  "clear_timer s =
     (case timerRef s of
        None \<Rightarrow> s
      | Some t \<Rightarrow> s\<lparr>timers := filter (\<lambda>u. u \<noteq> t) (timers s)\<rparr>)"

definition set_timer :: "'x copy_state_scheme \<Rightarrow> 'x copy_state_scheme" where
  "set_timer s =
     s\<lparr>timerRef := Some (next_timer s), timers := timers s @ [next_timer s],
       next_timer := next_timer s + 1\<rparr>"

text \<open>\<^verbatim>\<open>onClick\<close> of \<^verbatim>\<open>CodeCopyButton\<close> after a successful write\<close>

definition code_copy_written :: "copy_state \<Rightarrow> copy_state" where
  "code_copy_written s = set_timer (clear_timer (setCopied True s))"

text \<open>\<^verbatim>\<open>onClick\<close> of \<^verbatim>\<open>CopyButton\<close> after a successful write\<close>

definition copy_button_written ::
    "(AnalyticsEvent \<times> props) option \<Rightarrow> counted_copy_state \<Rightarrow> counted_copy_state" where
  "copy_button_written analytics s =
     (let s1 = (case analytics of None \<Rightarrow> s | Some ev \<Rightarrow> s\<lparr>captured := captured s @ [ev]\<rparr>)
      in set_timer (clear_timer (setCopied True s1)))"

definition unmount :: "'x copy_state_scheme \<Rightarrow> 'x copy_state_scheme" where
  "unmount s = clear_timer (s\<lparr>mounted := False\<rparr>)"

inductive copy_step ::
    "('x copy_state_scheme \<Rightarrow> 'x copy_state_scheme) \<Rightarrow> 'x copy_state_scheme \<Rightarrow> 'x copy_state_scheme \<Rightarrow> bool"
  for after_write where
  clicked: "mounted s \<Longrightarrow> copy_step after_write s (s\<lparr>in_flight := in_flight s @ [v]\<rparr>)"
| wrote: "in_flight s = xs @ v # ys \<Longrightarrow>
    copy_step after_write s (after_write (s\<lparr>in_flight := xs @ ys, written := written s @ [v]\<rparr>))"
| blocked: "in_flight s = xs @ v # ys \<Longrightarrow> copy_step after_write s (s\<lparr>in_flight := xs @ ys\<rparr>)"
| fired: "t \<in> set (timers s) \<Longrightarrow>
    copy_step after_write s (setCopied False (s\<lparr>timers := filter (\<lambda>u. u \<noteq> t) (timers s)\<rparr>))"
| removed: "mounted s \<Longrightarrow> copy_step after_write s (unmount s)"

section \<open>Rendering\<close>

definition CopyIcon :: vnode where
  "CopyIcon = El ''svg'' [(''aria-hidden'', AFlag True)]
     [El ''rect'' [(''x'', AStr (js ''4'')), (''y'', AStr (js ''4'')), (''width'', AStr (js ''9'')),
       (''height'', AStr (js ''9''))] [],
      El ''path'' [(''d'', AStr (js ''M3 11V3h8''))] []]"

definition CheckIcon :: vnode where
  "CheckIcon = El ''svg'' [(''aria-hidden'', AFlag True)]
     [El ''path'' [(''d'', AStr (js ''M3 8.5L6.5 12L13 4.5''))] []]"

definition CopyButton ::
    "jstring \<Rightarrow> jstring \<Rightarrow> jstring \<Rightarrow> jstring option \<Rightarrow> 'x copy_state_scheme \<Rightarrow> vnode" where
  "CopyButton value label copiedLabel ariaLabel s =
     El ''button''
       [(''type'', AStr (js ''button'')), (''onClick'', AFun ''onClick''),
        (''aria-label'',
         AStr (case ariaLabel of Some a \<Rightarrow> a | None \<Rightarrow> label @ js '' '' @ take 24 value))]
       [if copied s then CheckIcon else CopyIcon,
        El ''span'' (if copied s then [(''className'', AStr (js ''copied-pop''))] else [])
          [Txt (if copied s then copiedLabel else label)]]"

definition CodeCopyButton :: "'sig platform \<Rightarrow> jstring \<Rightarrow> copy_state \<Rightarrow> vnode" where
  "CodeCopyButton P label s =
     El ''button''
       [(''type'', AStr (js ''button'')), (''onClick'', AFun ''onClick''),
        (''aria-label'', AStr (js ''Copy '' @ lower P label @ js '' block''))]
       [Txt (if copied s then js ''Copied'' else js ''Copy'')]"

section \<open>The contract of a copy control\<close>

definition copy_inv :: "'x copy_state_scheme \<Rightarrow> bool" where
  "copy_inv s \<longleftrightarrow>
     set (timers s) \<subseteq> set_option (timerRef s) \<and> distinct (timers s) \<and>
     (\<forall>t \<in> set_option (timerRef s). t < next_timer s) \<and>
     (mounted s \<longrightarrow> (copied s \<longleftrightarrow> timers s \<noteq> [])) \<and>
     (copied s \<longrightarrow> written s \<noteq> [])"

text \<open>Once removed with nothing in flight, no timer is left.\<close>

definition gone :: "'x copy_state_scheme \<Rightarrow> bool" where
  "gone s \<longleftrightarrow> \<not> mounted s \<and> in_flight s = [] \<and> timers s = []"

lemmas copy_ops = setCopied_def clear_timer_def set_timer_def unmount_def

lemma show_copied_inv:
  assumes "copy_inv s" "written s \<noteq> []"
  shows "copy_inv (set_timer (clear_timer (setCopied True s)))"
  using assms by (auto simp: copy_inv_def copy_ops filter_empty_conv split: option.splits)

lemma empty_filter_timers:
  "copy_inv s \<Longrightarrow> t \<in> set (timers s) \<Longrightarrow> filter (\<lambda>u. u \<noteq> t) (timers s) = []"
  by (cases "timerRef s") (auto simp: copy_inv_def filter_empty_conv)

lemma clear_timer_all: "copy_inv s \<Longrightarrow> timers (clear_timer s) = []"
  by (cases "timerRef s") (auto simp: copy_inv_def clear_timer_def filter_empty_conv)

lemma clear_timer_keeps [simp]:
  "in_flight (clear_timer s) = in_flight s" "mounted (clear_timer s) = mounted s"
  by (simp_all add: clear_timer_def split: option.split)

lemma copy_inv_captured [simp]: "copy_inv (s\<lparr>captured := c\<rparr>) = copy_inv s"
  by (simp add: copy_inv_def)

locale copy_control =
  fixes after_write :: "'x copy_state_scheme \<Rightarrow> 'x copy_state_scheme"
  assumes keeps_inv: "copy_inv s \<Longrightarrow> written s \<noteq> [] \<Longrightarrow> copy_inv (after_write s)"
begin

lemma step_inv: "copy_step after_write s t \<Longrightarrow> copy_inv s \<Longrightarrow> copy_inv t"
proof (induction rule: copy_step.induct)
  case (wrote s xs v ys)
  then show ?case by (intro keeps_inv) (auto simp: copy_inv_def)
next
  case (fired t s)
  then show ?case using empty_filter_timers [OF fired(2, 1)] by (auto simp: copy_inv_def setCopied_def)
next
  case (removed s)
  then show ?case by (auto simp: copy_inv_def copy_ops split: option.splits)
qed (auto simp: copy_inv_def)

lemma steps_inv: "(copy_step after_write)\<^sup>*\<^sup>* s t \<Longrightarrow> copy_inv s \<Longrightarrow> copy_inv t"
  by (induction rule: rtranclp_induct) (auto intro: step_inv)

lemma gone_step: "copy_step after_write s t \<Longrightarrow> gone s \<Longrightarrow> False"
  by (induction rule: copy_step.induct) (auto simp: gone_def)

lemma unmount_gone: "copy_inv s \<Longrightarrow> in_flight s = [] \<Longrightarrow> gone (unmount s)"
proof -
  assume "copy_inv s" "in_flight s = []"
  moreover have "copy_inv (s\<lparr>mounted := False\<rparr>)" using \<open>copy_inv s\<close> by (simp add: copy_inv_def)
  ultimately show ?thesis using clear_timer_all [of "s\<lparr>mounted := False\<rparr>"] by (simp add: gone_def unmount_def)
qed

end

interpretation code_copy: copy_control code_copy_written
  by unfold_locales (simp add: code_copy_written_def show_copied_inv)

interpretation copy_button: copy_control "copy_button_written analytics" for analytics
proof
  fix s :: counted_copy_state
  assume "copy_inv s" "written s \<noteq> []"
  then show "copy_inv (copy_button_written analytics s)"
    by (cases analytics) (simp_all add: copy_button_written_def show_copied_inv)
qed

lemma fresh_inv: "copy_inv fresh_copy_state" "copy_inv fresh_counted_state"
  by (simp_all add: copy_inv_def fresh_counted_state_def fresh_copy_state_def copy_state.defs)

section \<open>One event per copy\<close>

definition events_for :: "'e option \<Rightarrow> nat \<Rightarrow> 'e list" where
  "events_for analytics n = (case analytics of None \<Rightarrow> [] | Some ev \<Rightarrow> replicate n ev)"

lemma op_counts [simp]:
  "captured (setCopied b s) = captured s" "written (setCopied b s) = written s"
  "captured (clear_timer s) = captured s" "written (clear_timer s) = written s"
  "captured (set_timer s) = captured s" "written (set_timer s) = written s"
  "captured (unmount s) = captured s" "written (unmount s) = written s"
  by (simp_all add: copy_ops split: option.split)

lemma copy_button_counts:
  "captured (copy_button_written a s) = captured s @ (case a of None \<Rightarrow> [] | Some ev \<Rightarrow> [ev])"
  "written (copy_button_written a s) = written s"
  by (simp_all add: copy_button_written_def Let_def split: option.split)

lemma events_for_Suc: "events_for a n @ (case a of None \<Rightarrow> [] | Some ev \<Rightarrow> [ev]) = events_for a (Suc n)"
  by (cases a) (simp_all add: events_for_def replicate_append_same)

lemma copy_events_step:
  "copy_step (copy_button_written a) s t \<Longrightarrow> captured s = events_for a (length (written s)) \<Longrightarrow>
     captured t = events_for a (length (written t))"
  by (induction rule: copy_step.induct)
    (simp_all add: copy_button_counts events_for_Suc)

lemma copy_events:
  assumes "(copy_step (copy_button_written a))\<^sup>*\<^sup>* fresh_counted_state s"
  shows "captured s = events_for a (length (written s))"
  using assms
proof (induction rule: rtranclp_induct)
  case base
  show ?case
    by (cases a) (simp_all add: events_for_def fresh_counted_state_def fresh_copy_state_def
        copy_state.defs counted_copy_state.defs)
qed (rule copy_events_step)

section \<open>Properties\<close>

text \<open>C40:
  A copy button tells the truth, whatever the order of clicks, clipboard answers, timer and
  removal: it shows the copied label exactly while its one timer is pending, and only after
  a write succeeded; it records one analytics event per successful write; and once it is
  removed while no write is in flight, nothing of it ever runs again.
\<close>

theorem copy_button_truthful:
  assumes "(copy_step (copy_button_written analytics))\<^sup>*\<^sup>* fresh_counted_state s"
  shows "captured s = events_for analytics (length (written s)) \<and>
    (mounted s \<longrightarrow>
       length (timers s) \<le> 1 \<and>
       text_of (CopyButton v label copiedLabel aria s) = (if timers s = [] then label else copiedLabel) \<and>
       (timers s \<noteq> [] \<longrightarrow> written s \<noteq> [])) \<and>
    (in_flight s = [] \<longrightarrow> \<not> copy_step (copy_button_written analytics) (unmount s) t)"
proof -
  have inv: "copy_inv s" using copy_button.steps_inv [OF assms] fresh_inv(2) .
  have one: "length (timers s) \<le> 1"
    using inv by (cases "timerRef s"; cases "timers s"; cases "tl (timers s)") (auto simp: copy_inv_def)
  have "\<not> copy_step (copy_button_written analytics) (unmount s) t" if "in_flight s = []"
    using copy_button.unmount_gone [OF inv that] copy_button.gone_step by blast
  then show ?thesis
    using inv one copy_events [OF assms]
    by (auto simp: copy_inv_def CopyButton_def CheckIcon_def CopyIcon_def)
qed

definition sample_event :: "AnalyticsEvent \<times> props" where
  "sample_event = (SummaryCopied, [])"

definition clicked_state :: counted_copy_state where
  "clicked_state = fresh_counted_state\<lparr>in_flight := [js ''a'']\<rparr>"

definition copied_state :: counted_copy_state where
  "copied_state =
     copy_button_written (Some sample_event) (clicked_state\<lparr>in_flight := [], written := [js ''a'']\<rparr>)"

lemmas sample_copy_defs = copied_state_def clicked_state_def fresh_counted_state_def fresh_copy_state_def
  copy_state.defs counted_copy_state.defs copy_button_written_def copy_ops

lemma reach_clicked: "(copy_step (copy_button_written (Some sample_event)))\<^sup>*\<^sup>* fresh_counted_state clicked_state"
proof -
  have "copy_step (copy_button_written (Some sample_event)) fresh_counted_state clicked_state"
    using clicked [of fresh_counted_state _ "js ''a''"] by (simp add: sample_copy_defs)
  then show ?thesis by (rule r_into_rtranclp)
qed

lemma reach_copied: "(copy_step (copy_button_written (Some sample_event)))\<^sup>*\<^sup>* fresh_counted_state copied_state"
proof -
  have "copy_step (copy_button_written (Some sample_event)) clicked_state copied_state"
    using wrote [of clicked_state "[]" "js ''a''" "[]" "copy_button_written (Some sample_event)"]
    by (simp add: copied_state_def) (simp add: clicked_state_def fresh_counted_state_def fresh_copy_state_def copy_state.defs)
  with reach_clicked show ?thesis by (rule rtranclp.rtrancl_into_rtrancl)
qed

theorem copy_button_truthful_witness:
  "captured copied_state = [sample_event] \<and>
   text_of (CopyButton [] (js ''Copy'') (js ''Copied'') None copied_state) = js ''Copied''"
  using copy_button_truthful [OF reach_copied, of "[]" "js ''Copy''" "js ''Copied''" None]
  by (simp add: sample_copy_defs events_for_def)

text \<open>
  The comment beside the cleanup function says that the timer never fires after the component
  is gone. A write that is answered after the removal sets a timer that does.
\<close>

lemma late_write_leaves_timer:
  "timers (copy_button_written a (unmount s)) \<noteq> []" "timers (code_copy_written (unmount s')) \<noteq> []"
  by (simp_all add: copy_button_written_def code_copy_written_def set_timer_def Let_def split: option.split)

end
