(* ===== verification/DocsPages.thy ===== *)
theory DocsPages
  imports CopyButton
begin

text \<open>
  The documentation pages: \<^verbatim>\<open>web/src/components/docs/docs-nav.ts\<close>,
  \<^verbatim>\<open>web/src/components/docs/docs-sidebar.tsx\<close>,
  \<^verbatim>\<open>web/src/components/docs/copy-code-block.tsx\<close> and the elements of \<^verbatim>\<open>web/mdx-components.tsx\<close>.

  The text a code block copies is compared with the text it shows. The label of a block is
  looked up in an object literal, which also has the properties every object inherits; the
  lookup is modelled with them.
\<close>

section \<open>Navigation\<close>

record DocsNavItem =
  nav_href :: string
  nav_label :: string
  nav_description :: string

definition DOCS_NAV_ITEMS :: "DocsNavItem list" where
  "DOCS_NAV_ITEMS =
     [\<lparr>nav_href = ''/docs'', nav_label = ''Overview'',
       nav_description = ''What MicroAI Paygate is and how to read the platform docs.''\<rparr>,
      \<lparr>nav_href = ''/docs/quickstart'', nav_label = ''Quickstart'',
       nav_description = ''Run the stack locally and complete the first paid request.''\<rparr>,
      \<lparr>nav_href = ''/docs/sdk'', nav_label = ''SDK'',
       nav_description = ''Use the private TypeScript SDK from an AI API client.''\<rparr>,
      \<lparr>nav_href = ''/docs/api'', nav_label = ''API'',
       nav_description = ''Gateway endpoints, headers, receipts, and OpenAPI links.''\<rparr>,
      \<lparr>nav_href = ''/docs/protocol'', nav_label = ''Protocol'',
       nav_description = ''The current custom x402-style challenge, signing, and receipt flow.''\<rparr>,
      \<lparr>nav_href = ''/docs/architecture'', nav_label = ''Architecture'',
       nav_description = ''Service boundaries, data flow, and deployment topology.''\<rparr>,
      \<lparr>nav_href = ''/docs/operations'', nav_label = ''Operations'',
       nav_description = ''Environment variables, providers, tests, and troubleshooting.''\<rparr>,
      \<lparr>nav_href = ''/docs/security-limits'', nav_label = ''Security & Limits'',
       nav_description = ''Security model, current limitations, and roadmap boundaries.''\<rparr>]"

definition nav_link :: "jstring \<Rightarrow> DocsNavItem \<Rightarrow> vnode" where
  "nav_link pathname item =
     (let active = (pathname = js (nav_href item)) in
      El ''a''
        ([(''href'', AStr (js (nav_href item)))] @
         (if active then [(''aria-current'', AStr (js ''page''))] else []) @
         [(''className'', AStr (class_names
            [js ''min-w-[180px] border border-ink px-3 py-2 transition-colors lg:block lg:min-w-0'',
             js (if active then ''bg-ink text-paper'' else ''bg-paper text-ink hover:bg-paper-deep'')]))])
        [El ''span'' [] [Txt (js (nav_label item))],
         El ''span''
           [(''className'', AStr (class_names
              [js ''mt-1 hidden text-xs leading-5 lg:block'',
               js (if active then ''text-paper/75'' else ''text-ink-soft'')]))]
           [Txt (js (nav_description item))]])"

definition DocsSidebar :: "jstring \<Rightarrow> vnode" where
  "DocsSidebar pathname =
     El ''nav'' [(''aria-label'', AStr (js ''Documentation''))]
       [El ''div'' []
          [El ''p'' [] [Txt (js ''Documentation'')],
           El ''p'' [] [Txt (js ''Full-platform reference for building, running, and integrating MicroAI Paygate.'')]],
        El ''div'' [] (map (nav_link pathname) DOCS_NAV_ITEMS)]"

section \<open>React nodes\<close>

text \<open>\<open>REmpty\<close> is \<^verbatim>\<open>null\<close>, \<^verbatim>\<open>undefined\<close> or a boolean; an element has its class and its children.\<close>

datatype react_node =
    RStr jstring | RNum jsnum | RArr "react_node list" | RElem "jstring option" react_node | REmpty

fun extractCopyText :: "react_node \<Rightarrow> jstring" where
  "extractCopyText (RStr s) = s"
| "extractCopyText (RNum x) = num_to_string x"
| "extractCopyText (RArr ns) = concat (map extractCopyText ns)"
| "extractCopyText (RElem c n) = extractCopyText n"
| "extractCopyText REmpty = []"

text \<open>What the browser shows of a node whose elements are the browser's own.\<close>

fun shown :: "react_node \<Rightarrow> vnode list" where
  "shown (RStr s) = [Txt s]"
| "shown (RNum x) = [Txt (num_to_string x)]"
| "shown (RArr ns) = concat (map shown ns)"
| "shown (RElem c n) = [El ''code'' (case c of None \<Rightarrow> [] | Some s \<Rightarrow> [(''className'', AStr s)]) (shown n)]"
| "shown REmpty = []"

text \<open>\<^verbatim>\<open>Children.toArray\<close>: nested lists are flattened and empty nodes dropped.\<close>

fun to_array :: "react_node \<Rightarrow> react_node list" where
  "to_array (RArr ns) = concat (map to_array ns)"
| "to_array REmpty = []"
| "to_array n = [n]"

section \<open>The label of a code block\<close>

definition language_unit :: "cunit \<Rightarrow> bool" where
  "language_unit u \<longleftrightarrow> (97 \<le> ascii_lower u \<and> ascii_lower u \<le> 122) \<or> (48 \<le> u \<and> u \<le> 57) \<or> u = 45"

text \<open>The group of the first match of \<^verbatim>\<open>/language-([a-z0-9-]+)/i\<close>\<close>

fun match_language :: "jstring \<Rightarrow> jstring option" where
  "match_language [] = None"
| "match_language (u # s) =
     (let rest = drop 9 (u # s); found = takeWhile language_unit rest in
      if map ascii_lower (take 9 (u # s)) = js ''language-'' \<and> found \<noteq> [] then Some found
      else match_language s)"

definition ascii_upper :: "cunit \<Rightarrow> cunit" where
  "ascii_upper u = (if 97 \<le> u \<and> u \<le> 122 then u - 32 else u)"

definition code_labels :: "(jstring \<times> jstring) list" where
  "code_labels =
     map (\<lambda>(k, v). (js k, js v))
       [(''bash'', ''Terminal''), (''sh'', ''Terminal''), (''shell'', ''Terminal''), (''http'', ''HTTP''),
        (''json'', ''JSON''), (''ts'', ''TypeScript''), (''tsx'', ''TSX'')]"

text \<open>The names of \<^verbatim>\<open>Object.prototype\<close> the pattern can match; their values are functions.\<close>

definition inherited_names :: "jstring list" where
  "inherited_names =
     map js [''constructor'', ''hasOwnProperty'', ''isPrototypeOf'', ''propertyIsEnumerable'',
       ''toLocaleString'', ''toString'', ''valueOf'']"

datatype code_label = Label jstring | InheritedFunction

definition getCodeLabel :: "react_node \<Rightarrow> code_label" where
  "getCodeLabel children =
     (case to_array children of
        RElem (Some className) _ # _ \<Rightarrow>
          (case match_language className of
             None \<Rightarrow> Label (js ''Code'')
           | Some language \<Rightarrow>
               (case map_of code_labels language of
                  Some l \<Rightarrow> Label l
                | None \<Rightarrow>
                    if language \<in> set inherited_names then InheritedFunction
                    else Label (map ascii_upper language)))
      | _ \<Rightarrow> Label (js ''Code''))"

text \<open>\<^verbatim>\<open>CopyCodeBlock\<close>: calling \<^verbatim>\<open>toLowerCase\<close> of a label that is a function throws.\<close>

definition CopyCodeBlock ::
    "'sig platform \<Rightarrow> react_node \<Rightarrow> jstring option \<Rightarrow> copy_state \<Rightarrow> (thrown, vnode) result" where
  "CopyCodeBlock P children className s =
     (case getCodeLabel children of
        InheritedFunction \<Rightarrow> Inl (NativeError TypeError)
      | Label label \<Rightarrow>
          Inr (El ''div'' []
            [El ''div'' [] [El ''span'' [] [Txt label], CodeCopyButton P label s],
             El ''pre''
               [(''className'', AStr (class_names
                  [js ''m-0 max-w-full overflow-x-auto bg-ink p-4 font-mono text-xs leading-6 text-paper'',
                   (case className of None \<Rightarrow> [] | Some c \<Rightarrow> c)]))]
               (shown children)]))"

definition copy_value :: "react_node \<Rightarrow> jstring" where
  "copy_value children = trimEnd (extractCopyText children)"

section \<open>\<^verbatim>\<open>mdx-components.tsx\<close>\<close>

definition cx :: "jstring option list \<Rightarrow> jstring" where
  "cx classes = class_names (map (\<lambda>c. case c of None \<Rightarrow> [] | Some s \<Rightarrow> s) classes)"

definition mdx_code_class :: "jstring option \<Rightarrow> jstring" where
  "mdx_code_class className =
     (let isBlockCode = (case className of None \<Rightarrow> False | Some c \<Rightarrow> str_includes c (js ''language-'')) in
      cx [Some (if isBlockCode then js ''font-mono text-xs text-paper''
                else js ''border border-ink/20 bg-paper-deep px-1.5 py-0.5 font-mono text-[0.86em] text-ink''),
          className])"

text \<open>
  An element of the documentation gets its properties and its children; what it renders may
  throw only for a code block. \<^verbatim>\<open>{...props} className={...}\<close> keeps every other property.
\<close>

type_synonym mdx_component = "(string \<times> attr) list \<Rightarrow> react_node \<Rightarrow> (thrown, vnode) result"

fun put_attr :: "string \<Rightarrow> attr \<Rightarrow> (string \<times> attr) list \<Rightarrow> (string \<times> attr) list" where
  "put_attr k v [] = [(k, v)]"
| "put_attr k v ((k', v') # ps) = (if k' = k then (k, v) # ps else (k', v') # put_attr k v ps)"

definition class_of :: "(string \<times> attr) list \<Rightarrow> jstring option" where
  "class_of ps = (case map_of ps ''className'' of Some (AStr s) \<Rightarrow> Some s | _ \<Rightarrow> None)"

definition with_class :: "(jstring option \<Rightarrow> jstring) \<Rightarrow> (string \<times> attr) list \<Rightarrow> (string \<times> attr) list" where
  "with_class f ps = put_attr ''className'' (AStr (f (class_of ps))) ps"

definition styled :: "string \<Rightarrow> string \<Rightarrow> mdx_component" where
  "styled tag classes ps children =
     Inr (El tag (with_class (\<lambda>c. cx [Some (js classes), c]) ps) (shown children))"

definition MDX_STYLES :: "(string \<times> string) list" where
  "MDX_STYLES =
     [(''h1'', ''font-display text-[44px] leading-[0.95] tracking-tight text-ink md:text-[64px]''),
      (''h2'', ''mt-12 scroll-mt-28 border-t border-ink pt-8 font-display text-[30px] leading-none tracking-tight text-ink md:text-[42px]''),
      (''h3'', ''mt-8 font-display text-[23px] leading-tight text-ink md:text-[28px]''),
      (''p'', ''mt-4 max-w-3xl font-sans text-base leading-7 text-ink-soft''),
      (''a'', ''font-medium text-accent underline decoration-accent/40 underline-offset-4 transition-colors hover:text-accent-press''),
      (''ul'', ''mt-4 list-disc space-y-2 pl-6 text-ink-soft''),
      (''ol'', ''mt-4 list-decimal space-y-2 pl-6 text-ink-soft''),
      (''li'', ''pl-1 leading-7''),
      (''blockquote'', ''mt-6 border-l-4 border-accent bg-accent-soft px-5 py-4 font-sans text-sm leading-7 text-ink''),
      (''thead'', ''bg-ink text-paper''),
      (''tbody'', ''divide-y divide-ink''),
      (''th'', ''px-4 py-3 font-mono text-[10px] uppercase tracking-[0.14em]''),
      (''td'', ''px-4 py-3 align-top text-sm leading-6 text-ink-soft'')]"

definition mdx_code :: mdx_component where
  "mdx_code ps children = Inr (El ''code'' (with_class mdx_code_class ps) (shown children))"

definition mdx_pre :: "'sig platform \<Rightarrow> copy_state \<Rightarrow> mdx_component" where
  "mdx_pre P st ps children = CopyCodeBlock P children (class_of ps) st"

definition mdx_table :: mdx_component where
  "mdx_table ps children =
     Inr (El ''div'' []
       [El ''table'' (with_class (\<lambda>c. cx [Some (js ''min-w-full border-collapse text-left''), c]) ps) (shown children)])"

definition mdx_tr :: mdx_component where
  "mdx_tr ps children = Inr (El ''tr'' ps (shown children))"

text \<open>The components given by the caller come last in the literal and win.\<close>

definition useMDXComponents ::
    "'sig platform \<Rightarrow> copy_state \<Rightarrow> (string \<times> mdx_component) list \<Rightarrow> string \<Rightarrow> mdx_component option" where
  "useMDXComponents P st components tag =
     (map_of (map (\<lambda>(t, c). (t, styled t c)) MDX_STYLES @
        [(''code'', mdx_code), (''pre'', mdx_pre P st), (''table'', mdx_table), (''tr'', mdx_tr)]) ++
      map_of components) tag"

section \<open>Facts\<close>

lemma map_of_put_attr: "map_of (put_attr k v ps) k' = (if k' = k then Some v else map_of ps k')"
  by (induction k v ps rule: put_attr.induct) auto

text \<open>The author's class is kept behind the fixed ones, and every other property as it is.\<close>

lemma with_class_attr:
  "map_of (with_class f ps) ''className'' = Some (AStr (f (class_of ps)))"
  "k \<noteq> ''className'' \<Longrightarrow> map_of (with_class f ps) k = map_of ps k"
  by (simp_all add: with_class_def map_of_put_attr)

lemma cx_two:
  "a \<noteq> [] \<Longrightarrow> cx [Some a, c] = (case c of Some d \<Rightarrow> if d = [] then a else a @ js '' '' @ d | None \<Rightarrow> a)"
  by (simp add: cx_def class_names_def split: option.split)

lemma override_wins: "map_of components tag = Some c \<Longrightarrow> useMDXComponents P st components tag = Some c"
  by (simp add: useMDXComponents_def map_add_def)

lemma extract_is_shown: "extractCopyText n = texts_of (shown n)"
proof (induction n)
  case (RArr ns)
  then show ?case by (induction ns) simp_all
qed simp_all

lemma trimEnd_prefix': "prefix (trimEnd s) s"
  by (metis prefixI rev_append rev_rev_ident takeWhile_dropWhile_id trimEnd_def)

text \<open>The text a block copies is the text it shows, without white space at its end.\<close>

lemma copies_what_is_shown:
  "\<exists>w. texts_of (shown children) = copy_value children @ w \<and> list_all is_space w"
proof -
  let ?t = "extractCopyText children"
  have "rev ?t = takeWhile is_space (rev ?t) @ dropWhile is_space (rev ?t)" by simp
  then have "?t = copy_value children @ rev (takeWhile is_space (rev ?t))"
    unfolding copy_value_def trimEnd_def by (metis rev_append rev_rev_ident)
  moreover have "list_all is_space (rev (takeWhile is_space (rev ?t)))"
    by (auto simp: list_all_iff dest: set_takeWhileD)
  ultimately show ?thesis unfolding extract_is_shown by blast
qed

text \<open>A block whose language is the name of an inherited property cannot be rendered.\<close>

lemma constructor_block_throws:
  "CopyCodeBlock P (RElem (Some (js ''language-constructor'')) (RStr s)) c st = Inl (NativeError TypeError)"
proof -
  have "match_language (js ''language-constructor'') = Some (js ''constructor'')" by code_simp
  moreover have "map_of code_labels (js ''constructor'') = None" "js ''constructor'' \<in> set inherited_names"
    by (simp_all add: code_labels_def inherited_names_def)
  ultimately show ?thesis by (simp add: CopyCodeBlock_def getCodeLabel_def)
qed

text \<open>On a page of the documentation exactly one entry of the sidebar is marked as current.\<close>

definition current_links :: "jstring \<Rightarrow> DocsNavItem list" where
  "current_links pathname =
     filter (\<lambda>i. attr_of ''aria-current'' (nav_link pathname i) = Some (AStr (js ''page''))) DOCS_NAV_ITEMS"

lemma nav_link_current:
  "attr_of ''aria-current'' (nav_link pathname i) = Some (AStr (js ''page'')) \<longleftrightarrow> pathname = js (nav_href i)"
  by (simp add: nav_link_def attr_of_def Let_def)

lemma distinct_hrefs: "distinct (map nav_href DOCS_NAV_ITEMS)"
  by (simp add: DOCS_NAV_ITEMS_def)

lemma filter_key: "distinct (map f xs) \<Longrightarrow> i \<in> set xs \<Longrightarrow> filter (\<lambda>j. f i = f j) xs = [i]"
  by (induction xs) (auto simp: filter_empty_conv image_iff)

lemma one_current_link:
  assumes "i \<in> set DOCS_NAV_ITEMS"
  shows "current_links (js (nav_href i)) = [i]"
proof -
  have "filter (\<lambda>j. nav_href i = nav_href j) DOCS_NAV_ITEMS = [i]"
    using filter_key [OF distinct_hrefs assms] .
  then show ?thesis by (simp add: current_links_def nav_link_current)
qed

text \<open>Every element but the code block shows exactly the text of its children.\<close>

lemma elements_show_their_text:
  assumes "useMDXComponents P st [] tag = Some c" "tag \<noteq> ''pre''"
  shows "\<exists>v. c ps children = Inr v \<and> text_of v = extractCopyText children"
proof -
  consider t k where "c = styled t k" | "c = mdx_code" | "c = mdx_table" | "c = mdx_tr"
    using assms
    by (auto simp: useMDXComponents_def map_add_Some_iff split: if_splits dest!: map_of_SomeD)
  then show ?thesis
    by cases (simp_all add: styled_def mdx_code_def mdx_table_def mdx_tr_def extract_is_shown)
qed

end
