(* ===== verification/StatusStrip.thy ===== *)
theory StatusStrip
  imports PageState Jsx
begin

text \<open>
  The progress strip: \<^verbatim>\<open>web/src/components/status-strip.tsx\<close> and the step labels of
  \<^verbatim>\<open>web/src/lib/types.ts\<close>.

  The strip is a function of the step and of whether there is an error. Its property is about
  the composition with the payment flow: for the states the hook can reach, the six items
  split into finished ones, one in progress and pending ones.
\<close>

section \<open>Step labels\<close>

definition X402_STEPS :: "X402Step list" where
  "X402_STEPS = [S_request, S_challenge, S_sign, S_verify, S_ai, S_receipt]"

record StepLabel =
  sl_id :: X402Step
  sl_index :: nat
  sl_short :: string
  sl_long :: string

definition STEP_LABELS :: "StepLabel list" where
  "STEP_LABELS =
     [\<lparr>sl_id = S_request, sl_index = 1, sl_short = ''Request'', sl_long = ''Send unsigned request''\<rparr>,
      \<lparr>sl_id = S_challenge, sl_index = 2, sl_short = ''Challenge'', sl_long = ''Receive 402 payment context''\<rparr>,
      \<lparr>sl_id = S_sign, sl_index = 3, sl_short = ''Sign'', sl_long = ''Sign EIP-712 in wallet''\<rparr>,
      \<lparr>sl_id = S_verify, sl_index = 4, sl_short = ''Verify'', sl_long = ''Verifier checks signature''\<rparr>,
      \<lparr>sl_id = S_ai, sl_index = 5, sl_short = ''Generate'', sl_long = ''AI provider runs the request''\<rparr>,
      \<lparr>sl_id = S_receipt, sl_index = 6, sl_short = ''Receipt'', sl_long = ''Signed receipt returned''\<rparr>]"

section \<open>The strip\<close>

text \<open>\<^verbatim>\<open>findIndex\<close>: -1 if there is none.\<close>

fun findIndex :: "('a \<Rightarrow> bool) \<Rightarrow> 'a list \<Rightarrow> int" where
  "findIndex p [] = -1"
| "findIndex p (x # xs) =
     (if p x then 0 else (let i = findIndex p xs in if i = -1 then -1 else i + 1))"

definition activeIdx :: "X402Step \<Rightarrow> int" where
  "activeIdx step =
     (if step = S_idle then -1
      else if step = S_done then int (length STEP_LABELS)
      else findIndex (\<lambda>s. sl_id s = step) STEP_LABELS)"

definition strip_label :: "X402Step \<Rightarrow> jstring" where
  "strip_label step =
     (if step = S_idle then js ''Idle''
      else if step = S_done then js ''Complete''
      else js ''Step '' @ int_string (activeIdx step + 1) @ js '' of '' @
        int_string (int (length STEP_LABELS)))"

definition strip_word :: "X402Step \<Rightarrow> bool \<Rightarrow> jstring" where
  "strip_word step hasError =
     (if step = S_idle then js ''Ready''
      else if step = S_done then js ''Settled''
      else if hasError then js ''Halted''
      else js ''Live'')"

text \<open>\<^verbatim>\<open>String(s.index).padStart(2, "0")\<close>\<close>

definition padStart2 :: "jstring \<Rightarrow> jstring" where
  "padStart2 s = replicate (2 - length s) (cu (CHR ''0'')) @ s"

text \<open>One item; the marks are a pulsing dot, a check mark and a cross.\<close>

definition strip_item :: "int \<Rightarrow> bool \<Rightarrow> int \<Rightarrow> StepLabel \<Rightarrow> vnode" where
  "strip_item active hasError i s =
     (let isDone = (i < active); isActive = (i = active); isPending = (active < i);
          isFailed = (hasError \<and> isActive)
      in
      El ''li''
        [(''className'', AStr (class_names
           [js ''relative min-w-0 border-l border-ink px-3 py-3 first:border-l-0 transition-colors duration-200'',
            class_if isFailed ''bg-alert-soft text-alert'',
            class_if (\<not> isFailed \<and> isDone) ''bg-ink text-paper'',
            class_if (\<not> isFailed \<and> isActive) ''bg-paper text-ink'',
            class_if (\<not> isFailed \<and> isPending) ''bg-paper-deep text-ink-faint'']))]
        ([El ''div'' []
            ([El ''span'' [] [Txt (padStart2 (int_string (int (sl_index s))))]] @
             only (isActive \<and> \<not> isFailed)
               (El ''span'' [(''className'', AStr (js ''size-1.5 bg-accent pulse-dot''))] []) @
             only (isDone \<and> \<not> isFailed) (El ''span'' [] [Txt [0x2713]]) @
             only isFailed (El ''span'' [] [Txt [0x2717]])),
          El ''div'' [] [Txt (js (sl_short s))]] @
         only (isActive \<and> \<not> isFailed)
           (El ''div'' [(''className'', AStr (js ''stripe-shift absolute inset-x-0 bottom-0 h-[3px]''))] []) @
         only (isDone \<and> \<not> isFailed)
           (El ''div'' [(''className'', AStr (js ''absolute inset-x-0 bottom-0 h-[3px] bg-accent''))] []) @
         only isFailed
           (El ''div'' [(''className'', AStr (js ''absolute inset-x-0 bottom-0 h-[3px] bg-alert''))] [])))"

definition strip_items :: "X402Step \<Rightarrow> bool \<Rightarrow> vnode list" where
  "strip_items step hasError =
     map (\<lambda>(i, s). strip_item (activeIdx step) hasError (int i) s) (enumerate 0 STEP_LABELS)"

definition StatusStrip :: "X402Step \<Rightarrow> bool \<Rightarrow> vnode" where
  "StatusStrip step hasError =
     El ''div''
       [(''role'', AStr (js ''status'')), (''aria-live'', AStr (js ''polite'')),
        (''aria-label'', AStr (strip_label step))]
       [El ''div'' []
          [El ''span'' [] [Txt (js ''x402 flow'')], El ''span'' [] [Txt (strip_word step hasError)]],
        El ''ol'' [] (strip_items step hasError)]"

section \<open>What the strip shows\<close>

text \<open>The mark of an item, read off its text: index, mark, short label.\<close>

datatype mark = Checked | Crossed | Unmarked

definition item_text :: "StepLabel \<Rightarrow> mark \<Rightarrow> jstring" where
  "item_text s m =
     padStart2 (int_string (int (sl_index s))) @
     (case m of Checked \<Rightarrow> [0x2713] | Crossed \<Rightarrow> [0x2717] | Unmarked \<Rightarrow> []) @ js (sl_short s)"

definition pulsing :: "vnode \<Rightarrow> bool" where
  "pulsing v \<longleftrightarrow>
     list_ex (\<lambda>n. attr_of ''className'' n = Some (AStr (js ''size-1.5 bg-accent pulse-dot''))) (nodes v)"

lemma item_text_marks:
  "text_of (strip_item a e i s) =
     item_text s (if i < a then Checked else if i = a \<and> e then Crossed else Unmarked)"
  by (auto simp: strip_item_def item_text_def Let_def only_def)

lemma item_class_not_dot:
  "class_names (js (CHR ''r'' # s) # cs) \<noteq> js (CHR ''s'' # t)"
  by (cases "filter (\<lambda>c. c \<noteq> []) cs") (simp_all add: class_names_def join_spaces_Cons js_Cons)

lemma item_pulsing: "pulsing (strip_item a e i s) \<longleftrightarrow> i = a \<and> \<not> e"
  by (simp add: strip_item_def pulsing_def Let_def attr_of_def only_def item_class_not_dot)

lemma nth_strip_items:
  "i < length STEP_LABELS \<Longrightarrow>
     strip_items step e ! i = strip_item (activeIdx step) e (int i) (STEP_LABELS ! i)"
  by (simp add: strip_items_def nth_enumerate_eq)

lemma length_STEP_LABELS [simp]: "length STEP_LABELS = 6"
  by (simp add: STEP_LABELS_def)

lemma length_strip_items [simp]: "length (strip_items step e) = 6"
  by (simp add: strip_items_def)

lemma activeIdx_bounds: "step \<notin> {S_idle, S_done, S_error} \<Longrightarrow> 0 \<le> activeIdx step \<and> activeIdx step < 6"
  by (cases step) (simp_all add: activeIdx_def STEP_LABELS_def)

lemma filter_single: "filter (\<lambda>i. i = k) [0..<n] = (if k < n then [k] else [])"
  by (induction n) auto

lemma pulsing_items:
  assumes "0 \<le> activeIdx step" "activeIdx step < 6"
  shows "filter (\<lambda>i. pulsing (strip_items step False ! i)) [0..<6] = [nat (activeIdx step)]"
proof -
  have "filter (\<lambda>i. pulsing (strip_items step False ! i)) [0..<6] =
      filter (\<lambda>i. i = nat (activeIdx step)) [0..<6]"
    using assms(1) by (intro filter_cong) (auto simp: nth_strip_items item_pulsing)
  also have "\<dots> = [nat (activeIdx step)]"
    using assms by (simp add: filter_single del: upt_rec_numeral)
  finally show ?thesis .
qed

lemma quiet_items:
  assumes "e \<or> activeIdx step < 0 \<or> 6 \<le> activeIdx step"
  shows "filter (\<lambda>i. pulsing (strip_items step e ! i)) [0..<6] = []"
  using assms by (auto simp: filter_empty_conv nth_strip_items item_pulsing simp del: upt_rec_numeral)

section \<open>The strip beside the payment flow\<close>

definition flow_word :: "UseX402State \<Rightarrow> string" where
  "flow_word s =
     (if s = INITIAL_STATE then ''Ready'' else if us_isRunning s then ''Live''
      else if us_error s \<noteq> None then ''Halted'' else ''Settled'')"

definition flow_mark :: "UseX402State \<Rightarrow> nat \<Rightarrow> mark" where
  "flow_mark s i =
     (if int i < activeIdx (us_step s) then Checked
      else if int i = activeIdx (us_step s) \<and> us_error s \<noteq> None then Crossed else Unmarked)"

lemma strip_texts:
  "map text_of (strip_items (us_step s) (us_error s \<noteq> None)) =
     map (\<lambda>i. item_text (STEP_LABELS ! i) (flow_mark s i)) [0..<6]"
proof (rule nth_equalityI)
  fix i
  assume "i < length (map text_of (strip_items (us_step s) (us_error s \<noteq> None)))"
  then show "map text_of (strip_items (us_step s) (us_error s \<noteq> None)) ! i =
      map (\<lambda>i. item_text (STEP_LABELS ! i) (flow_mark s i)) [0..<6] ! i"
    by (simp add: nth_strip_items item_text_marks flow_mark_def del: upt_rec_numeral)
qed simp

lemma flow_word_page:
  assumes "page_inv h"
  shows "strip_word (us_step (h_state h)) (us_error (h_state h) \<noteq> None) = js (flow_word (h_state h))"
  using assms
proof (cases rule: page_cases)
  case fresh
  then show ?thesis by (simp add: strip_word_def flow_word_def INITIAL_STATE_def)
next
  case running
  then have "h_state h \<noteq> INITIAL_STATE" by (auto simp: INITIAL_STATE_def)
  with running show ?thesis by (simp add: strip_word_def flow_word_def)
next
  case failed
  then have "h_state h \<noteq> INITIAL_STATE" by (auto simp: INITIAL_STATE_def)
  with failed show ?thesis by (simp add: strip_word_def flow_word_def)
next
  case finished
  then have "h_state h \<noteq> INITIAL_STATE" by (auto simp: INITIAL_STATE_def)
  with finished show ?thesis by (simp add: strip_word_def flow_word_def)
qed

lemma pulsing_page:
  assumes "page_inv h"
  shows "filter (\<lambda>i. pulsing (strip_items (us_step (h_state h)) (us_error (h_state h) \<noteq> None) ! i)) [0..<6] =
    (if us_isRunning (h_state h) then [nat (activeIdx (us_step (h_state h)))] else [])"
  using assms
proof (cases rule: page_cases)
  case fresh
  then show ?thesis using quiet_items [of False S_idle] by (simp add: INITIAL_STATE_def activeIdx_def)
next
  case running
  then show ?thesis using pulsing_items activeIdx_bounds by simp
next
  case failed
  then show ?thesis using quiet_items [of True] by simp
next
  case finished
  then show ?thesis using quiet_items [of False S_done] by (simp add: activeIdx_def)
qed

text \<open>C17:
  The strip shows the state of the payment flow, in every history of the hook: the word on it
  says ready, live, halted or settled exactly when the flow is fresh, running, failed or
  finished; of the six items those before the current step are checked, the current one is
  crossed out if the flow failed there, and later ones carry no mark; a dot pulses on
  exactly one item, the current step, while the flow runs, and on none otherwise.
\<close>

theorem strip_tracks_flow:
  assumes "hook_init h" "(hook_step P)\<^sup>*\<^sup>* h h'"
  shows "let s = h_state h'; items = strip_items (us_step s) (us_error s \<noteq> None) in
    strip_word (us_step s) (us_error s \<noteq> None) = js (flow_word s) \<and>
    map text_of items = map (\<lambda>i. item_text (STEP_LABELS ! i) (flow_mark s i)) [0..<6] \<and>
    filter (\<lambda>i. pulsing (items ! i)) [0..<6] =
      (if us_isRunning s then [nat (activeIdx (us_step s))] else []) \<and>
    (us_isRunning s \<longrightarrow> sl_id (STEP_LABELS ! nat (activeIdx (us_step s))) = us_step s)"
proof -
  have inv: "page_inv h'" using page.inv_reachable [OF assms] .
  have "sl_id (STEP_LABELS ! nat (activeIdx (us_step (h_state h')))) = us_step (h_state h')"
    if "us_isRunning (h_state h')"
    using inv that
    by (cases rule: page_cases; cases "us_step (h_state h')")
      (auto simp: activeIdx_def STEP_LABELS_def INITIAL_STATE_def)
  then show ?thesis
    using flow_word_page [OF inv] pulsing_page [OF inv] strip_texts by (simp add: Let_def del: upt_rec_numeral)
qed

lemma once_state: "us_step (h_state once) = S_request" "us_error (h_state once) = None" "us_isRunning (h_state once)"
  "h_state once \<noteq> INITIAL_STATE"
  using trim_hi
  by (auto simp: once_def submit_def Let_def empty_hook_def effect_defs INITIAL_STATE_def)

theorem strip_tracks_flow_witness:
  "strip_word (us_step (h_state once)) False = js ''Live'' \<and>
   filter (\<lambda>i. pulsing (strip_items S_request False ! i)) [0..<6] = [0] \<and>
   sl_id (STEP_LABELS ! 0) = us_step (h_state once)"
  using strip_tracks_flow [OF hook_init_empty reach_once [of sample_platform]] once_state
  by (simp add: Let_def flow_word_def activeIdx_def STEP_LABELS_def del: upt_rec_numeral)

end
