(* ===== verification/OutputCard.thy ===== *)
theory OutputCard
  imports WebReceipts CopyButton
begin

text \<open>
  The output card: \<^verbatim>\<open>web/src/components/output-card.tsx\<close>.

  \<^verbatim>\<open>useReceiptVerification\<close> verifies the shown receipt in the background. Renders with other
  receipts, the run of the effect, and the answers of verifications interleave; an effect
  whose receipt was replaced is cancelled. The property is that the shown verdict is always
  the verdict of the shown receipt, and that a receipt is never left unverified.
\<close>

section \<open>State of the verification\<close>

datatype ReceiptVerifyState = V_missing | V_verifying | V_valid | V_invalid

definition getReceiptVerificationKey :: "json option \<Rightarrow> jstring option" where
  "getReceiptVerificationKey receipt =
     (if \<not> truthy receipt then None
      else Some (stringify (obj_lit
        [(''receipt'', field receipt ''receipt''), (''signature'', field receipt ''signature''),
         (''server_public_key'', field receipt ''server_public_key'')])))"

text \<open>A run of the effect that waits for its verification.\<close>

record verification =
  vf_receipt :: "json option"
  vf_key :: "jstring option"
  vf_cancelled :: bool

text \<open>
  \<open>rv_dirty\<close>: the component was rendered with new dependencies and React has not run the
  effect for them yet. The result is the component's state, a key and a verdict.
\<close>

record receipt_verification =
  rv_receipt :: "json option"
  rv_dirty :: bool
  rv_key :: "jstring option"
  rv_ok :: bool
  rv_running :: "verification list"

definition fresh_verification :: receipt_verification where
  "fresh_verification =
     \<lparr>rv_receipt = None, rv_dirty = False, rv_key = None, rv_ok = False, rv_running = []\<rparr>"

section \<open>Operations\<close>

definition render_with :: "json option \<Rightarrow> receipt_verification \<Rightarrow> receipt_verification" where
  "render_with receipt s = s\<lparr>rv_receipt := receipt, rv_dirty := True\<rparr>"

text \<open>The cleanup function of the earlier run, then the effect.\<close>

definition run_effect :: "receipt_verification \<Rightarrow> receipt_verification" where
  "run_effect s =
     (let receipt = rv_receipt s; receiptKey = getReceiptVerificationKey receipt;
          cleaned = map (\<lambda>v. v\<lparr>vf_cancelled := True\<rparr>) (rv_running s)
      in
      if \<not> truthy receipt \<or> receiptKey = None \<or> receiptKey = Some []
      then s\<lparr>rv_dirty := False, rv_running := cleaned\<rparr>
      else
        s\<lparr>rv_dirty := False,
          rv_running := cleaned @ [\<lparr>vf_receipt = receipt, vf_key = receiptKey, vf_cancelled = False\<rparr>]\<rparr>)"

text \<open>The \<^verbatim>\<open>then\<close> and the \<^verbatim>\<open>catch\<close> of the promise.\<close>

definition verification_settled ::
    "verification \<Rightarrow> (thrown, bool) result \<Rightarrow> receipt_verification \<Rightarrow> receipt_verification" where
  "verification_settled v outcome s =
     (if vf_cancelled v then s
      else
        (case outcome of
           Inr ok \<Rightarrow> s\<lparr>rv_key := vf_key v, rv_ok := ok\<rparr>
         | Inl _ \<Rightarrow> s\<lparr>rv_key := vf_key v, rv_ok := False\<rparr>))"

definition useReceiptVerification :: "receipt_verification \<Rightarrow> ReceiptVerifyState" where
  "useReceiptVerification s =
     (if \<not> truthy (rv_receipt s) then V_missing
      else if rv_key s \<noteq> getReceiptVerificationKey (rv_receipt s) then V_verifying
      else if rv_ok s then V_valid else V_invalid)"

text \<open>\<^verbatim>\<open>verifyReceipt\<close> of the web code catches every exception, so its promise is fulfilled.\<close>

inductive verification_step ::
    "'sig platform \<Rightarrow> receipt_verification \<Rightarrow> receipt_verification \<Rightarrow> bool" for P where
  rendered: "(\<And>r. receipt = Some r \<Longrightarrow> json_ok r) \<Longrightarrow> verification_step P s (render_with receipt s)"
| effect: "rv_dirty s \<Longrightarrow> verification_step P s (run_effect s)"
| answered: "rv_running s = us @ v # vs \<Longrightarrow>
    verification_step P s
      (verification_settled v (Inr (web_verifyReceipt P (vf_receipt v))) (s\<lparr>rv_running := us @ vs\<rparr>))"

section \<open>Rendering\<close>

definition ReceiptStatusBadge :: "ReceiptVerifyState \<Rightarrow> vnode" where
  "ReceiptStatusBadge state =
     (if state = V_valid then Badge T_ok [Txt ([0x2713] @ js '' Receipt verified'')] []
      else if state = V_invalid then Badge T_alert [Txt ([0x2717] @ js '' Receipt not verified'')] []
      else if state = V_verifying then Badge T_muted [Txt (js ''Verifying receipt'' @ [0x2026])] []
      else Badge T_muted [Txt (js ''Receipt not returned'')] [])"

definition describeReceiptState :: "ReceiptVerifyState \<Rightarrow> jstring" where
  "describeReceiptState state =
     (if state = V_valid then
        js ''The signed X-402 receipt was decoded and its gateway signature verified in this browser.''
      else if state = V_invalid then
        js ''The X-402 receipt was decoded, but the gateway signature did not verify.''
      else if state = V_verifying then
        js ''The X-402 receipt was decoded and signature verification is running locally.''
      else
        js ''The summary succeeded without an X-402-Receipt header, so there is no receipt ID to verify.'')"

text \<open>
  The properties of the card at their declared types: the receipt comes with its id, a string.
  The last two arguments are the states of the copy buttons.
\<close>

definition OutputCard ::
    "jstring \<Rightarrow> jstring option \<Rightarrow> ReceiptVerifyState \<Rightarrow> 'x copy_state_scheme \<Rightarrow> 'x copy_state_scheme \<Rightarrow>
       vnode list" where
  "OutputCard summary receipt_id verifyState c1 c2 =
     (if summary = [] then []
      else
        [El ''article'' []
          [El ''header'' []
             [El ''div'' [] [El ''span'' [] [Txt (js ''Output'')], ReceiptStatusBadge verifyState],
              CopyButton summary (js ''Copy summary'') (js ''Copied'') None c1],
           El ''div'' [] [El ''p'' [] [Txt summary]],
           El ''footer'' []
             (El ''div'' []
                [El ''div'' []
                   [El ''span'' [] [Txt (js ''Receipt'')],
                    (case receipt_id of
                       Some rid \<Rightarrow> El ''code'' [] [Txt rid]
                     | None \<Rightarrow> El ''span'' [] [Txt (js ''not returned'')])],
                 El ''p'' [] [Txt (describeReceiptState verifyState)]]
              # (case receipt_id of
                   Some rid \<Rightarrow> [CopyButton rid (js ''Copy receipt ID'') (js ''Copied'') None c2]
                 | None \<Rightarrow> []))]])"

text \<open>The events the two copy buttons of the card record.\<close>

definition summary_copy_event :: "jstring \<Rightarrow> bool \<Rightarrow> AnalyticsEvent \<times> props" where
  "summary_copy_event summary has_receipt =
     (SummaryCopied,
      [(js ''summary_char_count'', Some (JNum (num_of_int (int (length summary))))),
       (js ''has_receipt'', Some (JBool has_receipt))])"

definition receipt_id_copy_event :: "AnalyticsEvent \<times> props" where
  "receipt_id_copy_event = (ReceiptIdCopied, [(js ''has_receipt'', Some (JBool True))])"

section \<open>The key determines the verdict\<close>

definition key_object :: "json option \<Rightarrow> json" where
  "key_object r =
     obj_lit [(''receipt'', field r ''receipt''), (''signature'', field r ''signature''),
       (''server_public_key'', field r ''server_public_key'')]"

lemma json_ok_member: "json_ok (JObj kvs) \<Longrightarrow> map_of kvs k = Some v \<Longrightarrow> json_ok v"
  using map_of_SomeD [of kvs k v] by (auto simp: list_all_iff)

lemma json_ok_field: "(\<And>v. r = Some v \<Longrightarrow> json_ok v) \<Longrightarrow> field r k = Some w \<Longrightarrow> json_ok w"
  using json_ok_member by (cases r; cases "the r") auto

lemma key_object_fields:
  "field (Some (key_object r)) ''receipt'' = field r ''receipt''"
  "field (Some (key_object r)) ''signature'' = field r ''signature''"
  "field (Some (key_object r)) ''server_public_key'' = field r ''server_public_key''"
  by (cases "field r ''receipt''"; cases "field r ''signature''"; cases "field r ''server_public_key''";
      simp add: key_object_def obj_lit_def map_filter_simps)+

lemma json_ok_key_object:
  assumes "\<And>v. r = Some v \<Longrightarrow> json_ok v"
  shows "json_ok (key_object r)"
  using json_ok_field [OF assms]
  by (cases "field r ''receipt''"; cases "field r ''signature''"; cases "field r ''server_public_key''")
    (auto simp: key_object_def obj_lit_def map_filter_simps canonical_named named_key)

lemma key_determines_verdict:
  assumes "\<And>v. r = Some v \<Longrightarrow> json_ok v" "\<And>v. q = Some v \<Longrightarrow> json_ok v"
    and "truthy r" "getReceiptVerificationKey r = getReceiptVerificationKey q"
  shows "web_verifyReceipt P r = web_verifyReceipt P q"
proof -
  have "stringify (key_object r) = stringify (key_object q)"
    using assms(3, 4) by (simp add: getReceiptVerificationKey_def key_object_def split: if_splits)
  then have "key_object r = key_object q"
    using json.enc_inj json_ok_key_object [OF assms(1)] json_ok_key_object [OF assms(2)] by blast
  then have "field r ''receipt'' = field q ''receipt''" "field r ''signature'' = field q ''signature''"
    "field r ''server_public_key'' = field q ''server_public_key''"
    using key_object_fields [of r] key_object_fields [of q] by simp_all
  then show ?thesis by (simp only: web_verifyReceipt_def)
qed

section \<open>The invariant\<close>

definition checked_receipt :: "json option \<Rightarrow> bool" where
  "checked_receipt r \<longleftrightarrow> (\<forall>v. r = Some v \<longrightarrow> json_ok v)"

definition verdict_known :: "'sig platform \<Rightarrow> receipt_verification \<Rightarrow> bool" where
  "verdict_known P s \<longleftrightarrow>
     rv_key s = None \<or>
     (\<exists>r. checked_receipt r \<and> rv_key s = getReceiptVerificationKey r \<and> rv_ok s = web_verifyReceipt P r)"

definition verification_inv :: "'sig platform \<Rightarrow> receipt_verification \<Rightarrow> bool" where
  "verification_inv P s \<longleftrightarrow>
     checked_receipt (rv_receipt s) \<and>
     (\<forall>v \<in> set (rv_running s). checked_receipt (vf_receipt v) \<and>
        vf_key v = getReceiptVerificationKey (vf_receipt v) \<and>
        (\<not> rv_dirty s \<and> \<not> vf_cancelled v \<longrightarrow> vf_receipt v = rv_receipt s)) \<and>
     verdict_known P s \<and>
     (\<not> rv_dirty s \<and> truthy (rv_receipt s) \<and> rv_key s \<noteq> getReceiptVerificationKey (rv_receipt s) \<longrightarrow>
        (\<exists>v \<in> set (rv_running s). \<not> vf_cancelled v))"

lemma key_nonempty: "checked_receipt r \<Longrightarrow> truthy r \<Longrightarrow> \<exists>u k. getReceiptVerificationKey r = Some (u # k)"
proof -
  assume a: "checked_receipt r" "truthy r"
  then have "stringify (key_object r) \<noteq> []"
    by (intro stringify_not_Nil json_ok_key_object) (simp add: checked_receipt_def)
  then show ?thesis
    using a by (cases "stringify (key_object r)") (simp_all add: getReceiptVerificationKey_def key_object_def)
qed

lemma run_effect_inv:
  assumes "verification_inv P s"
  shows "verification_inv P (run_effect s)"
proof (cases "truthy (rv_receipt s)")
  case True
  with key_nonempty obtain u k where "getReceiptVerificationKey (rv_receipt s) = Some (u # k)"
    using assms unfolding verification_inv_def by blast
  then show ?thesis
    using assms True by (auto simp: verification_inv_def run_effect_def verdict_known_def Let_def)
next
  case False
  then show ?thesis
    using assms by (auto simp: verification_inv_def run_effect_def verdict_known_def Let_def)
qed

lemma settled_inv:
  assumes "verification_inv P s" "rv_running s = us @ v # vs"
  shows "verification_inv P
    (verification_settled v (Inr (web_verifyReceipt P (vf_receipt v))) (s\<lparr>rv_running := us @ vs\<rparr>))"
proof (cases "vf_cancelled v")
  case True
  then show ?thesis
    using assms by (auto simp: verification_inv_def verification_settled_def verdict_known_def)
next
  case False
  then show ?thesis
    using assms by (auto simp: verification_inv_def verification_settled_def verdict_known_def)
qed

lemma verification_step_inv: "verification_step P s t \<Longrightarrow> verification_inv P s \<Longrightarrow> verification_inv P t"
proof (induction rule: verification_step.induct)
  case (rendered receipt s)
  then show ?case
    by (auto simp: verification_inv_def render_with_def verdict_known_def checked_receipt_def)
next
  case (effect s)
  then show ?case by (blast intro: run_effect_inv)
next
  case (answered s us v vs)
  then show ?case by (blast intro: settled_inv)
qed

interpretation verification: transition_system "\<lambda>s. s = fresh_verification" "verification_step P"
  "verification_inv P" for P
proof
  fix s
  assume "s = fresh_verification"
  then show "verification_inv P s"
    by (simp add: verification_inv_def fresh_verification_def verdict_known_def checked_receipt_def)
next
  fix s t
  assume "verification_inv P s" "verification_step P s t"
  then show "verification_inv P t" by (rule verification_step_inv [rotated])
qed

section \<open>Properties\<close>

text \<open>C8:
  The verdict shown is the verdict of the receipt shown. In every interleaving of renders
  with other receipts, runs of the effect and answers of verifications: the card says valid
  only if the shown receipt verifies, and invalid only if it does not, also when the verdict
  was computed for an earlier, equal receipt; and while it says verifying, an effect is due
  or a verification of this receipt is running that will be taken over.
\<close>

theorem shown_verdict_is_of_shown_receipt:
  assumes "(verification_step P)\<^sup>*\<^sup>* fresh_verification s"
  shows "case useReceiptVerification s of
      V_missing \<Rightarrow> \<not> truthy (rv_receipt s)
    | V_valid \<Rightarrow> web_verifyReceipt P (rv_receipt s)
    | V_invalid \<Rightarrow> \<not> web_verifyReceipt P (rv_receipt s)
    | V_verifying \<Rightarrow>
        rv_dirty s \<or> (\<exists>v \<in> set (rv_running s). \<not> vf_cancelled v \<and> vf_receipt v = rv_receipt s)"
proof -
  have inv: "verification_inv P s" using verification.inv_reachable [OF refl assms] .
  have "rv_ok s = web_verifyReceipt P (rv_receipt s)"
    if "truthy (rv_receipt s)" "rv_key s = getReceiptVerificationKey (rv_receipt s)"
  proof -
    have "rv_key s \<noteq> None" using that by (simp add: getReceiptVerificationKey_def)
    then obtain r where "checked_receipt r" "rv_key s = getReceiptVerificationKey r"
      "rv_ok s = web_verifyReceipt P r"
      using inv by (auto simp: verification_inv_def verdict_known_def)
    then show ?thesis
      using key_determines_verdict [of "rv_receipt s" r P] that inv
      by (simp add: verification_inv_def checked_receipt_def)
  qed
  then show ?thesis
    using inv by (auto simp: useReceiptVerification_def verification_inv_def)
qed

text \<open>A receipt that is rendered, whose effect runs and whose verification is answered.\<close>

definition verified_sample :: receipt_verification where
  "verified_sample =
     \<lparr>rv_receipt = Some (json_of_signed sample_signed), rv_dirty = False,
      rv_key = getReceiptVerificationKey (Some (json_of_signed sample_signed)), rv_ok = True,
      rv_running = []\<rparr>"

lemma sample_signed_verifies: "web_verifyReceipt sample_platform (Some (json_of_signed sample_signed))"
  by (simp add: web_verifyReceipt_def json_of_signed_def json_of_receipt_def sample_signed_def
      sample_platform_def getBytes_value_def sample_key_def)

lemma reach_verified_sample: "(verification_step sample_platform)\<^sup>*\<^sup>* fresh_verification verified_sample"
proof -
  let ?r = "Some (json_of_signed sample_signed)" and ?P = sample_platform
  let ?s1 = "render_with ?r fresh_verification"
  have ok: "json_ok (json_of_signed sample_signed)" by (rule json_ok_json_of_signed [OF wf_sample_signed])
  have t: "truthy ?r" by (simp add: json_of_signed_def)
  obtain u k where key: "getReceiptVerificationKey ?r = Some (u # k)"
    using key_nonempty [of ?r] ok t by (auto simp: checked_receipt_def)
  let ?v = "\<lparr>vf_receipt = ?r, vf_key = getReceiptVerificationKey ?r, vf_cancelled = False\<rparr>"
  have s2: "rv_running (run_effect ?s1) = [] @ ?v # []"
    using t key by (simp add: run_effect_def render_with_def fresh_verification_def Let_def)
  have "verification_step ?P fresh_verification ?s1" using ok by (intro rendered) auto
  moreover have "verification_step ?P ?s1 (run_effect ?s1)" by (rule effect) (simp add: render_with_def)
  moreover have "verification_step ?P (run_effect ?s1) verified_sample"
    using answered [OF s2, of ?P] sample_signed_verifies t key
    by (simp add: verification_settled_def verified_sample_def run_effect_def render_with_def
        fresh_verification_def Let_def)
  ultimately show ?thesis by (meson rtranclp.rtrancl_into_rtrancl rtranclp.rtrancl_refl)
qed

theorem shown_verdict_is_of_shown_receipt_witness:
  "useReceiptVerification verified_sample = V_valid \<and>
   web_verifyReceipt sample_platform (rv_receipt verified_sample)"
proof -
  have "useReceiptVerification verified_sample = V_valid"
    by (simp add: useReceiptVerification_def verified_sample_def json_of_signed_def)
  then show ?thesis
    using shown_verdict_is_of_shown_receipt [OF reach_verified_sample] by simp
qed

end
