(* ===== verification/SummarizeForm.thy ===== *)
theory SummarizeForm
  imports StatusStrip OutputCard
begin

text \<open>
  The form and the error banner: \<^verbatim>\<open>web/src/components/summarize-form.tsx\<close> and
  \<^verbatim>\<open>web/src/components/error-banner.tsx\<close>, on top of the payment flow.

  The hook alone allows a submission at any time, with older runs superseded. The form offers
  the user fewer controls: which ones is read off the rendered tree, and the transition system
  \<open>form_step\<close> lets the user only click what is there. The property of the composition is that
  a user of the page can never have two payment flows open at once.
\<close>

section \<open>The error banner\<close>

text \<open>The handlers are optional properties, given by their names.\<close>

definition ErrorBanner :: "ClassifiedError \<Rightarrow> string option \<Rightarrow> string option \<Rightarrow> vnode" where
  "ErrorBanner error onRetry onDismiss =
     El ''div'' [(''role'', AStr (js ''alert''))]
       [El ''div'' [(''aria-hidden'', AFlag True)] [],
        El ''div'' []
          [El ''div'' []
             ([El ''h3'' [] [Txt (ce_title error)], El ''p'' [] [Txt (ce_message error)]] @
              (case ce_detail error of
                 None \<Rightarrow> []
               | Some d \<Rightarrow>
                   only (d \<noteq> [])
                     (El ''details'' []
                       [El ''summary'' [] [Txt (js ''show debug detail'')], El ''pre'' [] [Txt d]]))),
           El ''div'' []
             ((case onRetry of
                 None \<Rightarrow> []
               | Some f \<Rightarrow> only (ce_recoverable error) (Button B_primary SZ_sm [] [(''onClick'', AFun f)] [Txt (js ''Retry'')])) @
              (case onDismiss of
                 None \<Rightarrow> []
               | Some f \<Rightarrow> [Button B_ghost SZ_sm [] [(''onClick'', AFun f)] [Txt (js ''Dismiss'')]]))]]"

section \<open>The form\<close>

definition SAMPLE_PROMPT :: jstring where
  "SAMPLE_PROMPT = js ''Bitcoin: A Peer-to-Peer Electronic Cash System. A purely peer-to-peer version of electronic cash would allow online payments to be sent directly from one party to another without going through a financial institution. Digital signatures provide part of the solution, but the main benefits are lost if a trusted third party is still required to prevent double-spending. We propose a solution to the double-spending problem using a peer-to-peer network. The network timestamps transactions by hashing them into an ongoing chain of hash-based proof-of-work, forming a record that cannot be changed without redoing the proof-of-work.''"

record form =
  fm_input :: jstring
  fm_hook :: hook
  fm_captured :: "(AnalyticsEvent \<times> props) list"

definition wordCount :: "jstring \<Rightarrow> nat" where
  "wordCount input = (if trim input \<noteq> [] then length (split_spaces (trim input)) else 0)"

definition canSubmit :: "jstring \<Rightarrow> UseX402State \<Rightarrow> bool" where
  "canSubmit input s \<longleftrightarrow> 0 < wordCount input \<and> \<not> us_isRunning s"

definition setInput :: "jstring \<Rightarrow> form \<Rightarrow> form" where
  "setInput v f = f\<lparr>fm_input := v\<rparr>"

definition use_sample :: "form \<Rightarrow> form" where
  "use_sample f =
     (setInput SAMPLE_PROMPT f)\<lparr>fm_captured := fm_captured f @
        [(SamplePromptLoaded,
          [(js ''input_word_count'', num (int (length (split_spaces (trim SAMPLE_PROMPT))))),
           (js ''input_char_count'', num (int (length SAMPLE_PROMPT)))])]\<rparr>"

definition handleSubmit :: "FlowContext \<Rightarrow> bool \<Rightarrow> form \<Rightarrow> form" where
  "handleSubmit flow wallet f =
     (if \<not> canSubmit (fm_input f) (h_state (fm_hook f)) then f
      else f\<lparr>fm_hook := submit (fm_input f) flow wallet (fm_hook f)\<rparr>)"

definition handleReset :: "form \<Rightarrow> form" where
  "handleReset f = f\<lparr>fm_hook := reset_hook (fm_hook f)\<rparr>"

definition getReceiptAnnouncement :: "json option \<Rightarrow> ReceiptVerifyState \<Rightarrow> jstring" where
  "getReceiptAnnouncement summary state =
     (if \<not> truthy summary then []
      else if state = V_valid then js ''Receipt verified.''
      else if state = V_invalid then js ''Receipt not verified.''
      else if state = V_verifying then js ''Verifying receipt'' @ [0x2026]
      else js ''Receipt not returned.'')"

definition PlaceholderCard :: vnode where
  "PlaceholderCard =
     El ''div'' []
       [El ''p'' [] [Txt (js ''Awaiting input'')],
        El ''p'' [] [Txt (js ''Sign once.''), El ''br'' [] [], Txt (js ''Get a signed answer back.'')],
        El ''p'' []
          [Txt (js ''The gateway returns ''), El ''code'' [] [Txt (js ''402 Payment Required'')], Txt (js '' ''),
           Txt (js ''with a payment context. Your wallet signs it, the verifier checks the signature, the AI runs the request, and a signed receipt is returned in the response header.'')]]"

text \<open>The build-time display settings.\<close>

record display =
  DISPLAY_AMOUNT :: jstring
  DISPLAY_TOKEN :: jstring
  DISPLAY_CHAIN_NAME :: jstring

definition input_column :: "display \<Rightarrow> jstring \<Rightarrow> UseX402State \<Rightarrow> vnode" where
  "input_column D input s =
     El ''section'' [(''aria-labelledby'', AStr (js ''input-heading''))]
       [El ''div'' []
          [El ''div'' []
             [El ''h3'' [(''id'', AStr (js ''input-heading''))] [Txt (js ''01 '' @ [0x2014] @ js '' Your text'')],
              El ''button'' [(''type'', AStr (js ''button'')), (''onClick'', AFun ''use_sample'')]
                [Txt (js ''Use sample'')]],
           El ''textarea''
             [(''value'', AStr input), (''onChange'', AFun ''setInput''),
              (''placeholder'', AStr (js ''Paste any text. The summary returns after a '' @
                 DISPLAY_CHAIN_NAME D @ js '' signature.'')),
              (''aria-label'', AStr (js ''Text to summarize''))] [],
           El ''div'' []
             [El ''span'' []
                [Txt (dec_string (wordCount input)), Txt (js '' word''),
                 Txt (if wordCount input = 1 then [] else js ''s''), Txt (js '' '' @ [0xB7] @ js '' ''),
                 Txt (dec_string (length input)), Txt (js '' chars'')],
              El ''span'' []
                [El ''span'' [] [Txt (js ''cost'')],
                 El ''span'' [] [Txt (DISPLAY_AMOUNT D), Txt (js '' ''), Txt (DISPLAY_TOKEN D)]]]],
        El ''div'' []
          [El ''p'' []
             [Txt (js ''Wallet signs the EIP-712 challenge '' @ [0x2014] @ js '' no on-chain transaction, no gas. Receipt is signed by the gateway and verifiable in your browser.'')],
           El ''div'' []
             (only (truthy (us_summary s) \<or> us_error s \<noteq> None)
                (Button B_ghost SZ_sm [] [(''onClick'', AFun ''handleReset'')] [Txt (js ''Reset'')]) @
              [Button B_primary SZ_md [] [(''onClick'', AFun ''handleSubmit''), (''disabled'', AFlag (\<not> canSubmit input s))]
                 [Txt (if us_isRunning s then js ''Working'' @ [0x2026] else js ''Sign & summarize'')]])]]"

text \<open>
  The output card is rendered for a summary of its declared type, a string. \<open>cs\<close> are the
  states of the card's copy buttons.
\<close>

definition result_column ::
    "ReceiptVerifyState \<Rightarrow> 'x copy_state_scheme \<times> 'x copy_state_scheme \<Rightarrow> UseX402State \<Rightarrow> vnode" where
  "result_column verifyState cs s =
     El ''section'' [(''aria-labelledby'', AStr (js ''result-heading''))]
       ([El ''h3'' [(''id'', AStr (js ''result-heading''))] [Txt (js ''Payment flow and result'')],
         El ''div'' [(''role'', AStr (js ''status'')), (''aria-live'', AStr (js ''polite''))]
           [Txt (getReceiptAnnouncement (us_summary s) verifyState)],
         StatusStrip (us_step s) (us_error s \<noteq> None)] @
        (case us_error s of
           None \<Rightarrow> []
         | Some e \<Rightarrow> [ErrorBanner e (Some ''handleSubmit'') (Some ''handleReset'')]) @
        (case us_summary s of
           Some (JStr summary) \<Rightarrow>
             OutputCard summary (str_of (field (field (us_receipt s) ''receipt'') ''id'')) verifyState
               (fst cs) (snd cs)
         | _ \<Rightarrow> []) @
        only (\<not> truthy (us_summary s) \<and> us_error s = None \<and> us_step s = S_idle) PlaceholderCard)"

definition SummarizeForm ::
    "display \<Rightarrow> ReceiptVerifyState \<Rightarrow> 'x copy_state_scheme \<times> 'x copy_state_scheme \<Rightarrow> form \<Rightarrow> vnode" where
  "SummarizeForm D verifyState cs f =
     El ''div'' []
       [input_column D (fm_input f) (h_state (fm_hook f)), result_column verifyState cs (h_state (fm_hook f))]"

section \<open>The page as the user drives it\<close>

definition offered :: "form \<Rightarrow> string set" where
  "offered f =
     handlers [SummarizeForm \<lparr>DISPLAY_AMOUNT = [], DISPLAY_TOKEN = [], DISPLAY_CHAIN_NAME = []\<rparr> V_missing
       (fresh_copy_state, fresh_copy_state) f]"

inductive form_step :: "'sig platform \<Rightarrow> form \<Rightarrow> form \<Rightarrow> bool" for P where
  typed: "form_step P f (setInput v f)"
| sampled: "''use_sample'' \<in> offered f \<Longrightarrow> form_step P f (use_sample f)"
| submitted: "''handleSubmit'' \<in> offered f \<Longrightarrow> form_step P f (handleSubmit flow wallet f)"
| dismissed: "''handleReset'' \<in> offered f \<Longrightarrow> form_step P f (handleReset f)"
| continued: "h_runs (fm_hook f) i = Some r \<Longrightarrow> resume P view wallet r ans (fm_hook f) = Some rh \<Longrightarrow>
    form_step P f (f\<lparr>fm_hook := put_run rh\<rparr>)"
| timed: "h_runs (fm_hook f) i = Some r \<Longrightarrow> run_timer r \<Longrightarrow>
    form_step P f (f\<lparr>fm_hook := put_run (fire_timer r (fm_hook f))\<rparr>)"

section \<open>What is offered\<close>

lemma handlers_union: "handlers vs = (\<Union>v \<in> set vs. handlers [v])"
  by (auto simp: handlers_def)

lemma handlers_strip [simp]: "handlers (StatusStrip step e # vs) = handlers vs"
proof -
  have "handlers [strip_item a e i l] = {}" for a i l by (simp add: strip_item_def Let_def)
  then have "handlers (strip_items step e) = {}"
    using handlers_union [of "strip_items step e"] by (auto simp: strip_items_def)
  then show ?thesis by (simp add: StatusStrip_def)
qed

lemma handlers_copy [simp]: "handlers (CopyButton v l c a s # vs) = insert ''onClick'' (handlers vs)"
  by (simp add: CopyButton_def CheckIcon_def CopyIcon_def)

lemma handlers_card [simp]:
  "handlers (OutputCard summary rid v c1 c2) = (if summary = [] then {} else {''onClick''})"
  by (simp add: OutputCard_def ReceiptStatusBadge_def split: option.split)

lemma handlers_banner [simp]:
  "handlers (ErrorBanner e retry dismiss # vs) =
     (if ce_recoverable e then set_option retry else {}) \<union> set_option dismiss \<union> handlers vs"
  by (auto simp: ErrorBanner_def Button_def split: option.split)

lemma handlers_placeholder [simp]: "handlers [PlaceholderCard] = {}"
  by (simp add: PlaceholderCard_def)

lemma handlers_form:
  "handlers [SummarizeForm D v cs f] =
     (let s = h_state (fm_hook f) in
      {''use_sample''} \<union>
      (if truthy (us_summary s) \<or> us_error s \<noteq> None then {''handleReset''} else {}) \<union>
      (if canSubmit (fm_input f) s \<or> (\<exists>e. us_error s = Some e \<and> ce_recoverable e) then {''handleSubmit''} else {}) \<union>
      (if \<exists>t. us_summary s = Some (JStr t) \<and> t \<noteq> [] then {''onClick''} else {}))"
  by (auto simp: SummarizeForm_def input_column_def result_column_def Button_def Let_def
      split: option.splits json.splits if_splits)

lemma offered_iff:
  "''handleReset'' \<in> offered f \<longleftrightarrow>
     truthy (us_summary (h_state (fm_hook f))) \<or> us_error (h_state (fm_hook f)) \<noteq> None"
  "''handleSubmit'' \<in> offered f \<longleftrightarrow>
     canSubmit (fm_input f) (h_state (fm_hook f)) \<or>
     (\<exists>e. us_error (h_state (fm_hook f)) = Some e \<and> ce_recoverable e)"
  by (simp_all add: offered_def handlers_form Let_def)

section \<open>One flow at a time\<close>

definition lone_run :: "hook \<Rightarrow> bool" where
  "lone_run h \<longleftrightarrow> (\<forall>i r. h_runs h i = Some r \<longrightarrow> run_pc r \<noteq> Finished \<longrightarrow> i = h_runId h)"

definition form_inv :: "form \<Rightarrow> bool" where
  "form_inv f \<longleftrightarrow> page_inv (fm_hook f) \<and> lone_run (fm_hook f)"

definition form_init :: "form \<Rightarrow> bool" where
  "form_init f \<longleftrightarrow> fm_input f = [] \<and> hook_init (fm_hook f) \<and> fm_captured f = []"

text \<open>If the page is not running, no run waits for anything.\<close>

lemma idle_all_finished:
  assumes "form_inv f" "\<not> us_isRunning (h_state (fm_hook f))" "h_runs (fm_hook f) i = Some r"
  shows "run_pc r = Finished"
proof (rule ccontr)
  assume "run_pc r \<noteq> Finished"
  then have "i = h_runId (fm_hook f)" using assms by (auto simp: form_inv_def lone_run_def)
  then show False
    using assms \<open>run_pc r \<noteq> Finished\<close> by (auto simp: form_inv_def page_inv_def hook_inv_def)
qed

lemma offered_reset_idle:
  assumes "form_inv f" "''handleReset'' \<in> offered f"
  shows "\<not> us_isRunning (h_state (fm_hook f))"
proof -
  have "page_inv (fm_hook f)" using assms by (simp add: form_inv_def)
  then show ?thesis using assms(2) by (cases rule: page_cases) (auto simp: offered_iff INITIAL_STATE_def)
qed

lemma submit_lone:
  assumes "form_inv f" "\<not> us_isRunning (h_state (fm_hook f))"
  shows "lone_run (submit txt flow wallet (fm_hook f))"
  using idle_all_finished [OF assms] by (auto simp: lone_run_def submit_def Let_def effect_defs)

lemma reset_lone:
  assumes "form_inv f" "\<not> us_isRunning (h_state (fm_hook f))"
  shows "lone_run (reset_hook (fm_hook f))"
  using idle_all_finished [OF assms] by (auto simp: lone_run_def reset_hook_def)

lemma put_run_lone:
  assumes "lone_run h" "h_runs h i = Some r" "run_id r = i" "segment_ok r h rh"
  shows "lone_run (put_run rh)"
  using assms by (cases rh) (fastforce simp: lone_run_def put_run_def segment_ok_def)

lemma timer_lone:
  assumes "lone_run h" "h_runs h i = Some r" "run_id r = i"
  shows "lone_run (put_run (fire_timer r h))"
  using assms by (fastforce simp: lone_run_def put_run_def fire_timer_def update_def)

lemma form_step_hook:
  "form_step P f f' \<Longrightarrow> fm_hook f' = fm_hook f \<or> hook_step P (fm_hook f) (fm_hook f')"
  by (induction rule: form_step.induct)
    (auto simp: setInput_def use_sample_def handleSubmit_def handleReset_def intro: hook_step.intros)

lemma form_step_lone: "form_step P f f' \<Longrightarrow> form_inv f \<Longrightarrow> lone_run (fm_hook f')"
proof (induction rule: form_step.induct)
  case (submitted f flow wallet)
  then show ?case
    using submit_lone by (auto simp: handleSubmit_def canSubmit_def form_inv_def)
next
  case (dismissed f)
  then show ?case using reset_lone offered_reset_idle by (simp add: handleReset_def)
next
  case (continued f i r view wallet ans rh)
  have inv: "hook_inv (fm_hook f)" using continued(3) by (simp add: form_inv_def page_inv_def)
  have "run_pc r \<noteq> Finished" using continued(2) resume_finished [of r P view wallet ans "fm_hook f"] by auto
  then have "segment_ok r (fm_hook f) rh"
    using resume_ok [OF hook_invD(4) [OF inv continued(1)] continued(2)] by blast
  moreover have "lone_run (fm_hook f)" using continued(3) by (simp add: form_inv_def)
  ultimately show ?case
    using put_run_lone [OF _ continued(1) hook_invD(1) [OF inv continued(1)]] by simp
next
  case (timed f i r)
  then show ?case
    using timer_lone hook_invD(1) [of "fm_hook f"] by (auto simp: form_inv_def page_inv_def)
qed (simp_all add: form_inv_def setInput_def use_sample_def)

interpretation summarize_form: transition_system form_init "form_step P" form_inv for P
proof
  fix f
  assume "form_init f"
  then show "form_inv f"
    using page.inv_init by (simp add: form_inv_def form_init_def lone_run_def hook_init_def)
next
  fix f f'
  assume inv: "form_inv f" and step: "form_step P f f'"
  have "page_inv (fm_hook f')"
    using form_step_hook [OF step] page.inv_step inv by (auto simp: form_inv_def)
  then show "form_inv f'" using form_step_lone [OF step inv] by (simp add: form_inv_def)
qed

section \<open>Properties\<close>


definition empty_form :: form where
  "empty_form = \<lparr>fm_input = [], fm_hook = empty_hook, fm_captured = []\<rparr>"

definition typed_form :: form where
  "typed_form = setInput (js ''hi'') empty_form"

definition sent_form :: form where
  "sent_form = handleSubmit sample_flow True typed_form"

lemma typed_form_submits: "canSubmit (fm_input typed_form) (h_state (fm_hook typed_form))"
  using trim_hi
  by (simp add: canSubmit_def wordCount_def typed_form_def setInput_def empty_form_def empty_hook_def
      INITIAL_STATE_def)

lemma reach_sent_form: "(form_step P)\<^sup>*\<^sup>* empty_form sent_form"
proof -
  have "form_step P empty_form typed_form" unfolding typed_form_def by (rule typed)
  moreover have "form_step P typed_form sent_form"
    unfolding sent_form_def by (rule submitted) (simp add: offered_iff typed_form_submits)
  ultimately show ?thesis by (meson rtranclp.rtrancl_into_rtrancl rtranclp.rtrancl_refl)
qed


end
