(* ===== verification/WalletWidget.thy ===== *)
theory WalletWidget
  imports Wallet Jsx
begin

text \<open>
  The wallet widget: \<^verbatim>\<open>web/src/components/wallet-widget.tsx\<close>.

  The widget keeps a small state and several asynchronous functions that change it: the
  initial load, the handler of account changes, and the two buttons. Each is a \<open>task\<close>, one
  constructor per \<^verbatim>\<open>await\<close>; the tasks, the provider's events, React's effects and the removal
  of the widget interleave in any order. The expected chain and its name are the build-time
  settings \<^verbatim>\<open>EXPECTED_CHAIN\<close> and \<^verbatim>\<open>EXPECTED_CHAIN_NAME\<close>, the arguments \<open>X\<close> and \<open>N\<close>.
\<close>

section \<open>State\<close>

datatype wallet_state =
    W_loading | W_missing | W_disconnected | W_connected (w_address: jstring) (w_chainId: jsnum)

datatype task =
    LoadStart
  | LoadRead
  | AccountChain jstring
  | ConnectAccount
  | ConnectChain jstring
  | SwitchRequest
  | SwitchCheck

text \<open>
  \<open>ww_resets\<close> counts the calls of \<^verbatim>\<open>browserAnalytics.reset\<close>; \<open>ww_accounts\<close> and \<open>ww_chains\<close>
  record what the wallet has reported so far, in any way; the latest account list of an
  account event is \<open>ww_live\<close>.
\<close>

record widget =
  ww_state :: wallet_state
  ww_switching :: bool
  ww_last :: "jstring option"
  ww_error :: "jstring option"
  ww_mounted :: bool
  ww_sub_accounts :: bool
  ww_sub_chain :: bool
  ww_tasks :: "task list"
  ww_resets :: nat
  ww_accounts :: "jstring list"
  ww_chains :: "jsnum list"
  ww_live :: "jstring list option"

definition fresh_widget :: widget where
  "fresh_widget =
     \<lparr>ww_state = W_loading, ww_switching = False, ww_last = None, ww_error = None,
      ww_mounted = True, ww_sub_accounts = False, ww_sub_chain = False, ww_tasks = [LoadStart],
      ww_resets = 0, ww_accounts = [], ww_chains = [], ww_live = None\<rparr>"

section \<open>Small operations\<close>

text \<open>\<^verbatim>\<open>parseInt(s, 16)\<close>\<close>

definition parseInt16 :: "jstring \<Rightarrow> jsnum" where
  "parseInt16 s =
     (let t = dropWhile is_space s;
          neg = startsWith t (js ''-'');
          t1 = (if neg \<or> startsWith t (js ''+'') then drop 1 t else t);
          t2 = (if startsWith t1 (js ''0x'') \<or> startsWith t1 (js ''0X'') then drop 2 t1 else t1);
          digits = takeWhile (\<lambda>u. hex_val u \<noteq> None) t2
      in
      if digits = [] then NaN
      else to_double (if neg then - of_nat (hex_value digits) else of_nat (hex_value digits)))"

definition num_eq :: "jsnum \<Rightarrow> jsnum \<Rightarrow> bool" where
  "num_eq x y \<longleftrightarrow> x = y \<and> x \<noteq> NaN"

text \<open>
  The argument is what a thrown value shows; \<open>None\<close> if it is no object. Calling
  \<^verbatim>\<open>toLowerCase\<close> on a message that is no string throws.
\<close>

definition isUserRejection :: "'sig platform \<Rightarrow> thrown_view option \<Rightarrow> (thrown, bool) result" where
  "isUserRejection P err =
     (case err of
        None \<Rightarrow> Inr False
      | Some e \<Rightarrow>
          if tv_code e = Some (JNum (num_of_int 4001)) \<or> tv_code e = Some (JStr (js ''ACTION_REJECTED''))
          then Inr True
          else
            bindR (call_toLowerCase P (if nullish (tv_message e) then Some (JStr []) else tv_message e))
              (\<lambda>m. Inr (str_includes m (js ''user rejected'') \<or> str_includes m (js ''user denied'') \<or>
                 str_includes m (js ''rejected the request'') \<or> str_includes m (js ''action_rejected''))))"

text \<open>Setting state after the removal does nothing.\<close>

definition setState :: "(wallet_state \<Rightarrow> wallet_state) \<Rightarrow> widget \<Rightarrow> widget" where
  "setState f s = (if ww_mounted s then s\<lparr>ww_state := f (ww_state s)\<rparr> else s)"

definition setSwitching :: "bool \<Rightarrow> widget \<Rightarrow> widget" where
  "setSwitching b s = (if ww_mounted s then s\<lparr>ww_switching := b\<rparr> else s)"

definition setActionError :: "jstring option \<Rightarrow> widget \<Rightarrow> widget" where
  "setActionError e s = (if ww_mounted s then s\<lparr>ww_error := e\<rparr> else s)"

definition reset_analytics :: "widget \<Rightarrow> widget" where
  "reset_analytics s = s\<lparr>ww_resets := ww_resets s + 1\<rparr>"

definition add_task :: "task \<Rightarrow> widget \<Rightarrow> widget" where
  "add_task t s = s\<lparr>ww_tasks := ww_tasks s @ [t]\<rparr>"

definition seen_account :: "jstring \<Rightarrow> widget \<Rightarrow> widget" where
  "seen_account a s = s\<lparr>ww_accounts := ww_accounts s @ [a]\<rparr>"

definition seen_chain :: "jsnum option \<Rightarrow> widget \<Rightarrow> widget" where
  "seen_chain c s = (case c of None \<Rightarrow> s | Some x \<Rightarrow> s\<lparr>ww_chains := ww_chains s @ [x]\<rparr>)"

text \<open>\<^verbatim>\<open>chain ?? 0\<close>\<close>

definition chain_or_zero :: "jsnum option \<Rightarrow> jsnum" where
  "chain_or_zero c = (case c of None \<Rightarrow> num_of_int 0 | Some x \<Rightarrow> x)"

section \<open>Effects\<close>

definition remember_address :: "widget \<Rightarrow> widget" where
  "remember_address s =
     s\<lparr>ww_last := (case ww_state s of W_connected a c \<Rightarrow> Some a | _ \<Rightarrow> None)\<rparr>"

definition error_timeout :: "widget \<Rightarrow> widget" where
  "error_timeout s = setActionError None s"

definition cleanup :: "widget \<Rightarrow> widget" where
  "cleanup s = s\<lparr>ww_mounted := False, ww_sub_accounts := False, ww_sub_chain := False\<rparr>"

section \<open>The initial load\<close>

text \<open>
  \<open>present\<close> is \<^verbatim>\<open>hasWallet()\<close>; the two registrations with the provider may throw.
\<close>

definition load_start :: "bool \<Rightarrow> bool \<Rightarrow> bool \<Rightarrow> widget \<Rightarrow> widget" where
  "load_start present acc_throws chain_throws s =
     (if \<not> ww_mounted s then s
      else if \<not> present then setState (\<lambda>_. W_missing) s
      else if acc_throws then setState (\<lambda>_. W_disconnected) s
      else
        (let s1 = s\<lparr>ww_sub_accounts := True\<rparr> in
         if chain_throws then setState (\<lambda>_. W_disconnected) s1
         else add_task LoadRead (s1\<lparr>ww_sub_chain := True\<rparr>)))"

definition load_read :: "(thrown, jstring option \<times> jsnum option) result \<Rightarrow> widget \<Rightarrow> widget" where
  "load_read outcome s =
     (if \<not> ww_mounted s then s
      else
        (case outcome of
           Inr (addr, chain) \<Rightarrow>
             (case (addr, chain) of
                (Some a, Some c) \<Rightarrow>
                  if a \<noteq> [] then setState (\<lambda>_. W_connected a c) (seen_chain chain (seen_account a s))
                  else setState (\<lambda>_. W_disconnected) s
              | _ \<Rightarrow> setState (\<lambda>_. W_disconnected) s)
         | Inl _ \<Rightarrow> setState (\<lambda>_. W_disconnected) s))"

section \<open>Events of the provider\<close>

definition accounts_changed :: "jstring list \<Rightarrow> widget \<Rightarrow> widget" where
  "accounts_changed accounts s =
     (let s0 = s\<lparr>ww_live := Some accounts\<rparr>; known = (case ww_last s of None \<Rightarrow> [] | Some l \<Rightarrow> l) in
      case accounts of
        [] \<Rightarrow> setState (\<lambda>_. W_disconnected) (if known \<noteq> [] then reset_analytics s0 else s0)
      | a # _ \<Rightarrow>
          if a = [] then setState (\<lambda>_. W_disconnected) (if known \<noteq> [] then reset_analytics s0 else s0)
          else
            add_task (AccountChain a)
              (seen_account a (if known \<noteq> [] \<and> known \<noteq> a then reset_analytics s0 else s0)))"

definition account_chain_read :: "jstring \<Rightarrow> (thrown, jsnum option) result \<Rightarrow> widget \<Rightarrow> widget" where
  "account_chain_read a outcome s =
     (case outcome of
        Inl _ \<Rightarrow> s
      | Inr chain \<Rightarrow>
          setState
            (\<lambda>prev. case prev of
               W_connected _ c \<Rightarrow> W_connected a c
             | _ \<Rightarrow> W_connected a (chain_or_zero chain))
            (seen_chain chain s))"

definition chain_changed :: "jstring \<Rightarrow> widget \<Rightarrow> widget" where
  "chain_changed hex s =
     (let chainId = parseInt16 hex in
      setState (\<lambda>prev. case prev of W_connected a _ \<Rightarrow> W_connected a chainId | _ \<Rightarrow> prev)
        (seen_chain (Some chainId) s))"

section \<open>The buttons\<close>

text \<open>The \<^verbatim>\<open>catch\<close> of both: a rejection by the user is no error to show.\<close>

definition action_failed ::
    "'sig platform \<Rightarrow> thrown_view option \<Rightarrow> jstring \<Rightarrow> widget \<Rightarrow> widget" where
  "action_failed P err msg s =
     (case isUserRejection P err of
        Inr rejected \<Rightarrow> if \<not> rejected then setActionError (Some msg) s else s
      | Inl _ \<Rightarrow> s)"

definition connect_failed :: jstring where
  "connect_failed = js ''Couldn't connect to wallet '' @ [0x2014] @ js '' try again or refresh.''"

definition connect_clicked :: "widget \<Rightarrow> widget" where
  "connect_clicked s = add_task ConnectAccount (setActionError None s)"

definition connect_account_read ::
    "'sig platform \<Rightarrow> (thrown \<Rightarrow> thrown_view option) \<Rightarrow> (thrown, jstring) result \<Rightarrow> widget \<Rightarrow> widget" where
  "connect_account_read P view outcome s =
     (case outcome of
        Inr addr \<Rightarrow> add_task (ConnectChain addr) (seen_account addr s)
      | Inl e \<Rightarrow> action_failed P (view e) connect_failed s)"

definition connect_chain_read ::
    "'sig platform \<Rightarrow> (thrown \<Rightarrow> thrown_view option) \<Rightarrow> jstring \<Rightarrow> (thrown, jsnum option) result \<Rightarrow>
       widget \<Rightarrow> widget" where
  "connect_chain_read P view addr outcome s =
     (case outcome of
        Inr chain \<Rightarrow> setState (\<lambda>_. W_connected addr (chain_or_zero chain)) (seen_chain chain s)
      | Inl e \<Rightarrow> action_failed P (view e) connect_failed s)"

definition switch_clicked :: "widget \<Rightarrow> widget" where
  "switch_clicked s = add_task SwitchRequest (setActionError None (setSwitching True s))"

definition switch_failed :: "jstring \<Rightarrow> jstring" where
  "switch_failed N = js ''Couldn't switch to '' @ N @ js '' '' @ [0x2014] @ js '' check your wallet.''"

definition switch_requested ::
    "'sig platform \<Rightarrow> (thrown \<Rightarrow> thrown_view option) \<Rightarrow> jstring \<Rightarrow> (thrown, unit) result \<Rightarrow> widget \<Rightarrow> widget" where
  "switch_requested P view N outcome s =
     (case outcome of
        Inr _ \<Rightarrow> add_task SwitchCheck s
      | Inl e \<Rightarrow> setSwitching False (action_failed P (view e) (switch_failed N) s))"

definition switch_checked ::
    "'sig platform \<Rightarrow> (thrown \<Rightarrow> thrown_view option) \<Rightarrow> jsnum \<Rightarrow> jstring \<Rightarrow>
       (thrown, jsnum option) result \<Rightarrow> widget \<Rightarrow> widget" where
  "switch_checked P view X N outcome s =
     setSwitching False
       (case outcome of
          Inl e \<Rightarrow> action_failed P (view e) (switch_failed N) s
        | Inr postSwitch \<Rightarrow>
            (let s1 = seen_chain postSwitch s in
             if \<not> (case postSwitch of None \<Rightarrow> False | Some c \<Rightarrow> num_eq c X) then
               setActionError (Some (js ''Switch to '' @ N @
                 js '' didn't take. Open your wallet and switch manually.'')) s1
             else
               setState (\<lambda>prev. case prev of W_connected a _ \<Rightarrow> W_connected a X | _ \<Rightarrow> prev) s1))"

section \<open>Rendering\<close>

definition ActionErrorChip :: "jstring \<Rightarrow> vnode" where
  "ActionErrorChip msg =
     El ''span'' [(''role'', AStr (js ''alert'')), (''title'', AStr msg)] [Txt (js ''! ''), Txt msg]"

definition error_chip :: "jstring option \<Rightarrow> vnode list" where
  "error_chip e = (case e of None \<Rightarrow> [] | Some m \<Rightarrow> only (m \<noteq> []) (ActionErrorChip m))"

text \<open>The string of a number always exists, so \<^verbatim>\<open>getChainMeta\<close> does not throw here.\<close>

definition chain_name :: "jsnum \<Rightarrow> jstring" where
  "chain_name chainId =
     (case getChainMeta (Some (JNum chainId)) of Inr meta \<Rightarrow> cm_name meta | Inl _ \<Rightarrow> [])"

definition connected_view :: "jsnum \<Rightarrow> jstring \<Rightarrow> jstring \<Rightarrow> jsnum \<Rightarrow> widget \<Rightarrow> vnode" where
  "connected_view X N address chainId s =
     (let onCorrect = num_eq chainId X in
      El ''div'' []
        ([Badge (if onCorrect then T_ok else T_alert)
            [Txt (if onCorrect then [0x2713] @ js '' '' else [0x2717] @ js '' ''), Txt (chain_name chainId)] [],
          El ''span'' [] [Txt (shortenAddress address 4)]] @
         only (\<not> onCorrect)
           (Button B_danger SZ_sm [] [(''disabled'', AFlag (ww_switching s)), (''onClick'', AFun ''switch'')]
              [Txt (if ww_switching s then js ''Switching'' @ [0x2026] else js ''Switch to '' @ N)]) @
         error_chip (ww_error s)))"

definition WalletWidget :: "jsnum \<Rightarrow> jstring \<Rightarrow> widget \<Rightarrow> vnode" where
  "WalletWidget X N s =
     (case ww_state s of
        W_loading \<Rightarrow> Badge T_muted [Txt (js ''Checking wallet'' @ [0x2026])] []
      | W_missing \<Rightarrow>
          El ''a'' [(''href'', AStr (js ''https://metamask.io/download'')), (''target'', AStr (js ''_blank'')),
            (''rel'', AStr (js ''noreferrer''))]
            [Badge T_alert [Txt (js ''No wallet '' @ [0xB7] @ js '' install MetaMask'')] []]
      | W_disconnected \<Rightarrow>
          El ''div'' []
            (Button B_secondary SZ_sm [] [(''onClick'', AFun ''connect'')] [Txt (js ''Connect wallet'')] # error_chip (ww_error s))
      | W_connected address chainId \<Rightarrow> connected_view X N address chainId s)"

section \<open>The widget as a transition system\<close>

datatype answer =
    A_ready bool bool bool
  | A_read "(thrown, jstring option \<times> jsnum option) result"
  | A_chain "(thrown, jsnum option) result"
  | A_account "(thrown, jstring) result"
  | A_done "(thrown, unit) result"

text \<open>\<open>None\<close> if the answer is not one of what the task waits for.\<close>

definition run_task ::
    "'sig platform \<Rightarrow> (thrown \<Rightarrow> thrown_view option) \<Rightarrow> jsnum \<Rightarrow> jstring \<Rightarrow> task \<Rightarrow> answer \<Rightarrow>
       widget \<Rightarrow> widget option" where
  "run_task P view X N t ans s =
     (case (t, ans) of
        (LoadStart, A_ready present acc_throws chain_throws) \<Rightarrow> Some (load_start present acc_throws chain_throws s)
      | (LoadRead, A_read out) \<Rightarrow> Some (load_read out s)
      | (AccountChain a, A_chain out) \<Rightarrow> Some (account_chain_read a out s)
      | (ConnectAccount, A_account out) \<Rightarrow> Some (connect_account_read P view out s)
      | (ConnectChain a, A_chain out) \<Rightarrow> Some (connect_chain_read P view a out s)
      | (SwitchRequest, A_done out) \<Rightarrow> Some (switch_requested P view N out s)
      | (SwitchCheck, A_chain out) \<Rightarrow> Some (switch_checked P view X N out s)
      | _ \<Rightarrow> None)"

inductive widget_step :: "'sig platform \<Rightarrow> jsnum \<Rightarrow> jstring \<Rightarrow> widget \<Rightarrow> widget \<Rightarrow> bool" for P X N where
  answered: "ww_tasks s = us @ t # vs \<Longrightarrow> run_task P view X N t ans (s\<lparr>ww_tasks := us @ vs\<rparr>) = Some s' \<Longrightarrow>
    widget_step P X N s s'"
| accounts_event: "ww_sub_accounts s \<Longrightarrow> widget_step P X N s (accounts_changed accounts s)"
| chain_event: "ww_sub_chain s \<Longrightarrow> widget_step P X N s (chain_changed hex s)"
| connect_click: "ww_mounted s \<Longrightarrow> ''connect'' \<in> handlers [WalletWidget X N s] \<Longrightarrow>
    widget_step P X N s (connect_clicked s)"
| switch_click: "ww_mounted s \<Longrightarrow> ''switch'' \<in> handlers [WalletWidget X N s] \<Longrightarrow>
    widget_step P X N s (switch_clicked s)"
| address_effect: "ww_mounted s \<Longrightarrow> widget_step P X N s (remember_address s)"
| error_timer: "ww_mounted s \<Longrightarrow> widget_step P X N s (error_timeout s)"
| unmounted: "ww_mounted s \<Longrightarrow> widget_step P X N s (cleanup s)"

section \<open>The invariant\<close>

fun switch_task :: "task \<Rightarrow> bool" where
  "switch_task SwitchRequest = True"
| "switch_task SwitchCheck = True"
| "switch_task t = False"

fun load_task :: "task \<Rightarrow> bool" where
  "load_task LoadStart = True"
| "load_task LoadRead = True"
| "load_task t = False"

fun task_account :: "task \<Rightarrow> jstring set" where
  "task_account (AccountChain a) = {a}"
| "task_account (ConnectChain a) = {a}"
| "task_account t = {}"

text \<open>What is shown was reported by the wallet; 0 stands for a chain it did not tell.\<close>

fun shown_ok :: "jstring set \<Rightarrow> jsnum set \<Rightarrow> wallet_state \<Rightarrow> bool" where
  "shown_ok A C (W_connected a c) \<longleftrightarrow> a \<in> A \<and> (c = num_of_int 0 \<or> c \<in> C)"
| "shown_ok A C w \<longleftrightarrow> True"

definition reported :: "widget \<Rightarrow> bool" where
  "reported s \<longleftrightarrow> shown_ok (set (ww_accounts s)) (set (ww_chains s)) (ww_state s)"

lemma shown_ok_mono: "shown_ok A C w \<Longrightarrow> A \<subseteq> B \<Longrightarrow> C \<subseteq> D \<Longrightarrow> shown_ok B D w"
  by (cases w) auto

lemma shown_ok_insert [simp]:
  "shown_ok A C w \<Longrightarrow> shown_ok (insert a A) C w" "shown_ok A C w \<Longrightarrow> shown_ok A (insert c C) w"
  using shown_ok_mono [of A C w "insert a A" C] shown_ok_mono [of A C w A "insert c C"] by auto

definition widget_inv :: "widget \<Rightarrow> bool" where
  "widget_inv s \<longleftrightarrow>
     (ww_mounted s \<and> ww_state s = W_loading \<longrightarrow> list_ex load_task (ww_tasks s)) \<and>
     (ww_mounted s \<longrightarrow> length (filter switch_task (ww_tasks s)) = (if ww_switching s then 1 else 0)) \<and>
     (\<not> ww_mounted s \<longrightarrow> \<not> ww_sub_accounts s \<and> \<not> ww_sub_chain s) \<and>
     reported s \<and> (\<Union>t \<in> set (ww_tasks s). task_account t) \<subseteq> set (ww_accounts s)"

lemmas widget_ops = setState_def setSwitching_def setActionError_def reset_analytics_def add_task_def
  seen_account_def seen_chain_def chain_or_zero_def

lemma offered_widget:
  "''connect'' \<in> handlers [WalletWidget X N s] \<longleftrightarrow> ww_state s = W_disconnected"
  "''switch'' \<in> handlers [WalletWidget X N s] \<longleftrightarrow>
     (\<exists>a c. ww_state s = W_connected a c \<and> \<not> num_eq c X \<and> \<not> ww_switching s)"
  by (auto simp: WalletWidget_def connected_view_def Let_def Button_def error_chip_def ActionErrorChip_def
      split: wallet_state.split option.split if_splits)

lemmas inv_defs = widget_inv_def reported_def widget_ops

lemma load_inv:
  assumes "widget_inv s"
  shows "ww_tasks s = us @ LoadStart # vs \<Longrightarrow> widget_inv (load_start p a c (s\<lparr>ww_tasks := us @ vs\<rparr>))"
    and "ww_tasks s = us @ LoadRead # vs \<Longrightarrow> widget_inv (load_read out (s\<lparr>ww_tasks := us @ vs\<rparr>))"
  using assms
  by (auto simp: inv_defs load_start_def load_read_def Let_def split: sum.split option.split)

lemma account_inv:
  assumes "widget_inv s"
  shows "ww_tasks s = us @ AccountChain a # vs \<Longrightarrow> widget_inv (account_chain_read a out (s\<lparr>ww_tasks := us @ vs\<rparr>))"
  using assms
  by (cases "ww_state s") (auto simp: inv_defs account_chain_read_def split: sum.split option.split)

lemma failed_inv: "widget_inv s \<Longrightarrow> widget_inv (action_failed P e m s)"
  by (auto simp: inv_defs action_failed_def split: sum.split)

lemma connect_inv:
  assumes "widget_inv s"
  shows "ww_tasks s = us @ ConnectAccount # vs \<Longrightarrow>
      widget_inv (connect_account_read P view out (s\<lparr>ww_tasks := us @ vs\<rparr>))"
    and "ww_tasks s = us @ ConnectChain a # vs \<Longrightarrow>
      widget_inv (connect_chain_read P view a outc (s\<lparr>ww_tasks := us @ vs\<rparr>))"
  using assms
  by (auto simp: inv_defs connect_account_read_def connect_chain_read_def action_failed_def
      split: sum.split option.split)

lemma switch_inv:
  assumes "widget_inv s"
  shows "ww_tasks s = us @ SwitchRequest # vs \<Longrightarrow>
      widget_inv (switch_requested P view N out (s\<lparr>ww_tasks := us @ vs\<rparr>))"
    and "ww_tasks s = us @ SwitchCheck # vs \<Longrightarrow>
      widget_inv (switch_checked P view X N outc (s\<lparr>ww_tasks := us @ vs\<rparr>))"
proof -
  assume "ww_tasks s = us @ SwitchRequest # vs"
  then show "widget_inv (switch_requested P view N out (s\<lparr>ww_tasks := us @ vs\<rparr>))"
    using assms
    by (auto simp: inv_defs switch_requested_def action_failed_def split: sum.split option.split if_splits)
next
  assume "ww_tasks s = us @ SwitchCheck # vs"
  then show "widget_inv (switch_checked P view X N outc (s\<lparr>ww_tasks := us @ vs\<rparr>))"
    using assms
    by (cases "ww_state s")
      (auto simp: inv_defs switch_checked_def action_failed_def Let_def num_eq_def split: sum.split option.split if_splits)
qed

lemma run_task_inv:
  assumes "widget_inv s" "ww_tasks s = us @ t # vs"
    and "run_task P view X N t ans (s\<lparr>ww_tasks := us @ vs\<rparr>) = Some s'"
  shows "widget_inv s'"
  using assms
  by (cases t; cases ans) (auto simp: run_task_def intro: load_inv account_inv connect_inv switch_inv)

lemma accounts_inv: "widget_inv s \<Longrightarrow> widget_inv (accounts_changed accounts s)"
  by (cases accounts) (auto simp: inv_defs accounts_changed_def Let_def split: option.split)

lemma chain_inv: "widget_inv s \<Longrightarrow> widget_inv (chain_changed hex s)"
  by (cases "ww_state s") (auto simp: inv_defs chain_changed_def Let_def)

lemma effect_inv:
  assumes "widget_inv s"
  shows "widget_inv (remember_address s)" "widget_inv (error_timeout s)" "widget_inv (cleanup s)"
  using assms by (auto simp: inv_defs remember_address_def error_timeout_def cleanup_def)

lemma click_inv:
  assumes "widget_inv s"
  shows "widget_inv (connect_clicked s)"
    and "ww_mounted s \<Longrightarrow> \<not> ww_switching s \<Longrightarrow> widget_inv (switch_clicked s)"
  using assms by (auto simp: inv_defs connect_clicked_def switch_clicked_def)

lemma widget_step_inv: "widget_step P X N s t \<Longrightarrow> widget_inv s \<Longrightarrow> widget_inv t"
  by (induction rule: widget_step.induct)
    (auto simp: offered_widget intro: run_task_inv accounts_inv chain_inv effect_inv click_inv)

interpretation wallet_widget: transition_system "\<lambda>s. s = fresh_widget" "widget_step P X N" widget_inv for P X N
proof
  fix s
  assume "s = fresh_widget"
  then show "widget_inv s" by (simp add: inv_defs fresh_widget_def)
next
  fix s t
  assume "widget_inv s" "widget_step P X N s t"
  then show "widget_inv t" by (rule widget_step_inv [rotated])
qed

section \<open>Properties\<close>


text \<open>A short history: the load finds a wallet, and one account event arrives meanwhile.\<close>

definition loaded_widget :: widget where
  "loaded_widget = load_start True False False (fresh_widget\<lparr>ww_tasks := []\<rparr>)"

definition event_widget :: widget where
  "event_widget = accounts_changed [js ''0xaa''] loaded_widget"

definition read_widget :: widget where
  "read_widget = load_read (Inr (None, None)) (event_widget\<lparr>ww_tasks := [AccountChain (js ''0xaa'')]\<rparr>)"

definition left_widget :: widget where
  "left_widget = accounts_changed [] read_widget"

definition stale_widget :: widget where
  "stale_widget =
     account_chain_read (js ''0xaa'') (Inr (Some (num_of_int 84532))) (left_widget\<lparr>ww_tasks := []\<rparr>)"

lemmas history_defs = loaded_widget_def event_widget_def read_widget_def left_widget_def stale_widget_def
  fresh_widget_def load_start_def accounts_changed_def load_read_def account_chain_read_def widget_ops Let_def

lemma history:
  "widget_step P X N fresh_widget loaded_widget" "widget_step P X N loaded_widget event_widget"
  "widget_step P X N event_widget read_widget" "widget_step P X N read_widget left_widget"
  "widget_step P X N left_widget stale_widget"
proof -
  show "widget_step P X N fresh_widget loaded_widget"
    by (rule answered [where us = "[]" and t = LoadStart and vs = "[]" and ans = "A_ready True False False"
          and view = "\<lambda>_. None"])
      (simp_all add: run_task_def loaded_widget_def, simp add: fresh_widget_def)
  show "widget_step P X N loaded_widget event_widget"
    unfolding event_widget_def by (rule accounts_event) (simp add: history_defs)
  show "widget_step P X N event_widget read_widget"
    by (rule answered [where us = "[]" and t = LoadRead and vs = "[AccountChain (js ''0xaa'')]"
          and ans = "A_read (Inr (None, None))" and view = "\<lambda>_. None"])
      (simp_all add: run_task_def read_widget_def, simp add: history_defs)
  show "widget_step P X N read_widget left_widget"
    unfolding left_widget_def by (rule accounts_event) (simp add: history_defs)
  show "widget_step P X N left_widget stale_widget"
    by (rule answered [where us = "[]" and t = "AccountChain (js ''0xaa'')" and vs = "[]"
          and ans = "A_chain (Inr (Some (num_of_int 84532)))" and view = "\<lambda>_. None"])
      (simp_all add: run_task_def stale_widget_def, simp add: history_defs)
qed

lemma reach_stale: "(widget_step P X N)\<^sup>*\<^sup>* fresh_widget stale_widget"
  using history by (meson rtranclp.rtrancl_into_rtrancl rtranclp.rtrancl_refl)


text \<open>
  The handler of account changes reads the chain before it sets the state and does not check
  whether a later event has overtaken it: after the wallet reported that no account is
  connected, and with nothing left to run, the widget can show the earlier account.
\<close>

lemma stale_account_shown:
  "\<exists>s. (widget_step P X N)\<^sup>*\<^sup>* fresh_widget s \<and> ww_mounted s \<and> ww_tasks s = [] \<and> ww_live s = Some [] \<and>
     ww_state s = W_connected (js ''0xaa'') (num_of_int 84532)"
  by (rule exI [of _ stale_widget], rule conjI, rule reach_stale) (simp add: history_defs)

text \<open>When the effects have run, a change of the account resets the identity exactly once.\<close>

lemma account_change_resets:
  assumes "ww_state s = W_connected a c" "a \<noteq> []" "remember_address s = s"
  shows "ww_resets (accounts_changed accounts s) =
    ww_resets s + (if take 1 accounts = [a] then 0 else 1)"
proof -
  have "ww_last (remember_address s) = Some a" using assms(1) by (simp add: remember_address_def)
  then have "ww_last s = Some a" using assms(3) by simp
  then show ?thesis
    using assms(2) by (cases accounts) (auto simp: accounts_changed_def widget_ops Let_def)
qed

section \<open>Chain ids in hexadecimal\<close>

lemma takeWhile_hex: "takeWhile (\<lambda>u. \<exists>d. hex_val u = Some d) (hex_digits n) = hex_digits n"
proof (rule takeWhile_eq_all_conv [THEN iffD2], induction n rule: hex_digits.induct)
  case (1 n)
  then show ?case by (subst hex_digits.simps) (auto simp: hex_val_char)
qed

lemma hex_digits_not_Nil [simp]: "hex_digits n \<noteq> []"
  by (subst hex_digits.simps) simp

lemma parseInt16_hex: "parseInt16 (js ''0x'' @ hex_digits n) = to_double (of_nat n)"
proof -
  have "\<not> is_space (cu (CHR ''0''))" by (simp add: is_space_def word_le_nat_alt word_unat_eq_iff)
  then have "dropWhile is_space (js ''0x'' @ hex_digits n) = js ''0x'' @ hex_digits n"
    by (simp add: js_Cons)
  then show ?thesis
    by (simp add: parseInt16_def Let_def takeWhile_hex hex_value_digits startsWith_def js_Cons)
qed

text \<open>C34:
  The chain id sent to the wallet and the one read from its events agree: for a chain id
  that is a non-negative safe integer, the hexadecimal string of a switch request, echoed by
  the wallet in its event, is read as that chain id, so the widget shows the chain that was
  asked for.
\<close>

theorem chain_id_roundtrip:
  assumes "0 \<le> n" "n \<le> max_safe_integer" "toString16 P (Some (JNum (num_of_int n))) = Inr digits"
    and "ww_state s = W_connected a c" "ww_mounted s"
  shows "ww_state (chain_changed (js ''0x'' @ digits) s) = W_connected a (num_of_int n)"
proof -
  have "digits = hex_digits (nat n)" using toString16_nat [OF assms(1, 2), of P] assms(3) by simp
  moreover have "to_double (of_nat (nat n)) = num_of_int n"
    using to_double_int [of n] assms(1, 2) by (simp add: of_nat_nat)
  ultimately show ?thesis
    using assms(4, 5) by (simp add: chain_changed_def parseInt16_hex Let_def widget_ops)
qed

theorem chain_id_roundtrip_witness:
  "ww_state (chain_changed (js ''0x'' @ hex_digits 8453) stale_widget) = W_connected (js ''0xaa'') (num_of_int 8453)"
  by (rule chain_id_roundtrip [where n = 8453 and P = sample_platform and c = "num_of_int 84532"])
    (simp_all add: max_safe_integer_def toString16_nat history_defs)

end
