(* ===== verification/ChainSetting.thy ===== *)
theory ChainSetting
  imports WalletWidget
begin

text \<open>
  The build-time settings of \<^verbatim>\<open>web/src/components/wallet-widget.tsx\<close>: the chain the widget expects is
  \<^verbatim>\<open>Number\<close> of a setting, its name another one, each with a default. \<open>Number_of\<close> is the conversion
  of a string to a number that the language defines.

  Facts: which settings name a chain, and what the widget does with one that names none.
\<close>

section \<open>Strings as numbers\<close>

text \<open>Digits of a base up to sixteen, after a prefix such as \<^verbatim>\<open>0x\<close>.\<close>

definition radix_number :: "nat \<Rightarrow> jstring \<Rightarrow> jsnum" where
  "radix_number b s =
     (if s \<noteq> [] \<and> list_all (\<lambda>u. case hex_val u of None \<Rightarrow> False | Some d \<Rightarrow> d < b) s
      then to_double (of_nat (foldl (\<lambda>a u. a * b + the (hex_val u)) 0 s))
      else NaN)"

text \<open>A decimal literal without its sign: digits, a point and digits, an exponent.\<close>

definition decimal_number :: "bool \<Rightarrow> jstring \<Rightarrow> jsnum" where
  "decimal_number neg s =
     (let ip = takeWhile is_digit s; s2 = dropWhile is_digit s;
          point = startsWith s2 (js ''.'');
          fp = (if point then takeWhile is_digit (drop 1 s2) else []);
          s3 = (if point then dropWhile is_digit (drop 1 s2) else s2)
      in
      if s = js ''Infinity'' then Inf neg
      else if ip = [] \<and> fp = [] then NaN
      else
        (case parse_exponent s3 of
           Some (ex, []) \<Rightarrow>
             (let m = rat_of_nat (digits_value (ip @ fp)) * 10 powi (ex - int (length fp))
              in to_double (if neg then - m else m))
         | _ \<Rightarrow> NaN))"

definition Number_of :: "jstring \<Rightarrow> jsnum" where
  "Number_of v =
     (let s = trim v; p = take 2 s in
      if s = [] then Fin 0
      else if p = js ''0x'' \<or> p = js ''0X'' then radix_number 16 (drop 2 s)
      else if p = js ''0o'' \<or> p = js ''0O'' then radix_number 8 (drop 2 s)
      else if p = js ''0b'' \<or> p = js ''0B'' then radix_number 2 (drop 2 s)
      else if startsWith s (js ''-'') then decimal_number True (drop 1 s)
      else if startsWith s (js ''+'') then decimal_number False (drop 1 s)
      else decimal_number False s)"

section \<open>The settings\<close>

text \<open>\<^verbatim>\<open>??\<close> replaces only a missing value.\<close>

definition or_else :: "jstring option \<Rightarrow> string \<Rightarrow> jstring" where
  "or_else v d = (case v of None \<Rightarrow> js d | Some s \<Rightarrow> s)"

definition EXPECTED_CHAIN :: "jstring option \<Rightarrow> jsnum" where
  "EXPECTED_CHAIN v = Number_of (or_else v ''84532'')"

definition EXPECTED_CHAIN_NAME :: "jstring option \<Rightarrow> jstring" where
  "EXPECTED_CHAIN_NAME v = or_else v ''Base Sepolia''"

section \<open>Facts\<close>

lemma digit_not_space: "is_digit u \<Longrightarrow> \<not> is_space u"
  by (auto simp: is_digit_def is_space_def word_le_nat_alt word_unat_eq_iff)

lemma trim_inner:
  assumes "list_all is_space a" "list_all is_space b" "s \<noteq> []" "\<not> is_space (hd s)" "\<not> is_space (last s)"
  shows "trim (a @ s @ b) = s"
proof -
  have "trimStart (a @ s @ b) = s @ b"
    using assms(1, 3, 4) by (cases s) (auto simp: trimStart_def dropWhile_append list_all_iff)
  moreover have "dropWhile is_space (rev b @ rev s) = rev s"
    using assms(2, 3, 5) by (cases s rule: rev_cases) (auto simp: dropWhile_append list_all_iff)
  ultimately show ?thesis by (simp add: trim_def trimEnd_def)
qed

lemma decimal_number_digits:
  assumes "list_all is_digit s" "s \<noteq> []"
  shows "decimal_number False s = to_double (of_nat (digits_value s))"
proof -
  have all: "takeWhile is_digit s = s" "dropWhile is_digit s = []"
    using assms(1) by (simp_all add: takeWhile_eq_all_conv dropWhile_eq_Nil_conv list_all_iff)
  have "s \<noteq> js ''Infinity''"
    using assms(1) by (auto simp: js_Cons is_digit_def)
  then show ?thesis
    using assms(2) unfolding decimal_number_def all
    by (simp add: startsWith_def parse_exponent_def js_Cons)
qed

lemma digits_no_prefix:
  assumes "list_all is_digit s" "s \<noteq> []"
  shows "take 2 s \<notin> {js ''0x'', js ''0X'', js ''0o'', js ''0O'', js ''0b'', js ''0B''}"
    "\<not> startsWith s (js ''-'')" "\<not> startsWith s (js ''+'')"
proof -
  obtain u t where s: "s = u # t" using assms(2) list.exhaust_sel by blast
  show "take 2 s \<notin> {js ''0x'', js ''0X'', js ''0o'', js ''0O'', js ''0b'', js ''0B''}"
    using assms(1) by (cases t) (auto simp: s js_Cons is_digit_def)
  show "\<not> startsWith s (js ''-'')" "\<not> startsWith s (js ''+'')"
    using assms(1) by (auto simp: s js_Cons is_digit_def startsWith_def)
qed

text \<open>A decimal numeral, with white space around it or not, denotes its number.\<close>

lemma Number_of_digits:
  assumes "list_all is_digit s" "s \<noteq> []" "list_all is_space a" "list_all is_space b"
  shows "Number_of (a @ s @ b) = to_double (of_nat (digits_value s))"
proof -
  have "\<not> is_space (hd s)" "\<not> is_space (last s)"
    using assms(1, 2) digit_not_space by (auto simp: list_all_iff)
  from trim_inner [OF assms(3, 4, 2) this] show ?thesis
    using digits_no_prefix [OF assms(1, 2)] decimal_number_digits [OF assms(1, 2)] assms(2)
    by (simp add: Number_of_def Let_def)
qed

lemma Number_of_int:
  assumes "int n \<le> max_safe_integer" "list_all is_space a" "list_all is_space b"
  shows "Number_of (a @ dec_string n @ b) = num_of_int (int n)"
  using Number_of_digits [OF dec_string_digits dec_string_nonempty assms(2, 3), of n] to_double_int [of "int n"] assms(1)
  by simp

lemma EXPECTED_CHAIN_default: "EXPECTED_CHAIN None = num_of_int 84532"
proof -
  have "js ''84532'' = [] @ dec_string 84532 @ []"
    by (simp add: dec_string.simps js_Cons cu_def digit_def unit_of_def)
  then show ?thesis
    using Number_of_int [of 84532 "[]" "[]"] by (simp add: EXPECTED_CHAIN_def or_else_def max_safe_integer_def)
qed

text \<open>An empty setting is not a missing one: it names chain 0, which no wallet is on.\<close>

lemma EXPECTED_CHAIN_blank: "list_all is_space v \<Longrightarrow> EXPECTED_CHAIN (Some v) = num_of_int 0"
  using trim_eq_Nil_iff [of v] by (simp add: EXPECTED_CHAIN_def or_else_def Number_of_def num_of_int_def)

section \<open>The widget under a setting\<close>

definition offers_switch :: "vnode \<Rightarrow> bool" where
  "offers_switch v = (case v of Txt _ \<Rightarrow> False | El tag ps _ \<Rightarrow> (''onClick'', AFun ''switch'') \<in> set ps)"

text \<open>A connected widget offers to switch exactly if the wallet is on another chain than the setting names.\<close>

lemma switch_offered_iff:
  assumes "ww_state s = W_connected a c"
  shows "pick offers_switch [WalletWidget X N s] = [] \<longleftrightarrow> num_eq c X"
  using assms
  by (simp add: WalletWidget_def connected_view_def Let_def Badge_def Button_def only_def error_chip_def ActionErrorChip_def
      offers_switch_def split: option.split)

lemma connected_under_setting:
  assumes "ww_state s = W_connected a c" "int n \<le> max_safe_integer"
  shows "pick offers_switch [WalletWidget (EXPECTED_CHAIN (Some (dec_string n))) N s] = [] \<longleftrightarrow> c = num_of_int (int n)"
  using Number_of_int [OF assms(2), of "[]" "[]"]
  by (auto simp: switch_offered_iff [OF assms(1)] EXPECTED_CHAIN_def or_else_def num_eq_def num_of_int_def)

text \<open>
  A setting that is no number makes the widget reject every chain: the switch is always
  offered, and a switch that the wallet made is reported as failed.
\<close>

lemma malformed_setting:
  assumes "EXPECTED_CHAIN v = NaN"
  shows "ww_state s = W_connected a c \<Longrightarrow> pick offers_switch [WalletWidget (EXPECTED_CHAIN v) N s] \<noteq> []"
    and "ww_mounted s \<Longrightarrow> ww_error (switch_checked P view (EXPECTED_CHAIN v) N (Inr c') s) =
      Some (js ''Switch to '' @ N @ js '' didn't take. Open your wallet and switch manually.'')"
  by (simp_all add: switch_offered_iff assms num_eq_def switch_checked_def setSwitching_def setActionError_def
      seen_chain_def Let_def split: option.split)

lemma malformed_example: "EXPECTED_CHAIN (Some (js ''base'')) = NaN"
proof -
  have "trim ([] @ js ''base'' @ []) = js ''base''"
    by (rule trim_inner) (simp_all add: js_Cons is_space_def word_le_nat_alt word_unat_eq_iff)
  then show ?thesis
    by (simp add: EXPECTED_CHAIN_def or_else_def Number_of_def decimal_number_def js_Cons startsWith_def is_digit_def)
qed

end
