(* ===== verification/ReceiptViews.thy ===== *)
theory ReceiptViews
  imports ReceiptStorage OutputCard Wallet
begin

text \<open>
  The stored receipts on the page: \<^verbatim>\<open>web/src/components/receipt-card.tsx\<close> and
  \<^verbatim>\<open>web/src/components/receipt-history.tsx\<close>.

  Entries come from \<^verbatim>\<open>localStorage\<close> after \<^verbatim>\<open>isValidEntry\<close>, so fields that check does not cover
  are of unknown shape here, and rendering may throw: a value that React cannot render, or a
  date out of range. The first part models the language's \<^verbatim>\<open>toISOString\<close> and
  \<^verbatim>\<open>JSON.stringify(v, null, 2)\<close>, which the card uses.
\<close>

section \<open>Dates\<close>

text \<open>Year, month and day of a day number counted from 1970-01-01.\<close>

definition civil_from_days :: "int \<Rightarrow> int \<times> int \<times> int" where
  "civil_from_days n =
     (let z = n + 719468; era = z div 146097; doe = z mod 146097;
          yoe = (doe - doe div 1460 + doe div 36524 - doe div 146096) div 365;
          doy = doe - (365 * yoe + yoe div 4 - yoe div 100);
          mp = (5 * doy + 2) div 153;
          d = doy - (153 * mp + 2) div 5 + 1;
          m = (if mp < 10 then mp + 3 else mp - 9)
      in (yoe + era * 400 + (if m \<le> 2 then 1 else 0), m, d))"

definition padded :: "nat \<Rightarrow> int \<Rightarrow> jstring" where
  "padded k n = (let s = dec_string (nat n) in replicate (k - length s) (cu (CHR ''0'')) @ s)"

definition iso_year :: "int \<Rightarrow> jstring" where
  "iso_year y =
     (if 0 \<le> y \<and> y \<le> 9999 then padded 4 y
      else (if y < 0 then js ''-'' else js ''+'') @ padded 6 \<bar>y\<bar>)"

definition iso_string :: "int \<Rightarrow> jstring" where
  "iso_string t =
     (let ms = t mod 86400000 in
      case civil_from_days (t div 86400000) of (y, m, d) \<Rightarrow>
        iso_year y @ js ''-'' @ padded 2 m @ js ''-'' @ padded 2 d @ js ''T'' @
        padded 2 (ms div 3600000) @ js '':'' @ padded 2 (ms div 60000 mod 60) @ js '':'' @
        padded 2 (ms div 1000 mod 60) @ js ''.'' @ padded 3 (ms mod 1000) @ js ''Z'')"

text \<open>\<^verbatim>\<open>new Date(x).toISOString()\<close>: the time is truncated, and must be within range.\<close>

definition max_time :: int where
  "max_time = 8640000000000000"

definition toISOString :: "jsnum \<Rightarrow> (thrown, jstring) result" where
  "toISOString x =
     (case x of
        Fin r \<Rightarrow>
          if of_int max_time < \<bar>r\<bar> then Inl (NativeError RangeError)
          else Inr (iso_string (if r < 0 then - \<lfloor>- r\<rfloor> else \<lfloor>r\<rfloor>))
      | _ \<Rightarrow> Inl (NativeError RangeError))"

section \<open>Indented JSON\<close>

definition newline :: "nat \<Rightarrow> jstring" where
  "newline n = 10 # replicate n (cu (CHR '' ''))"

fun join_with :: "jstring \<Rightarrow> jstring list \<Rightarrow> jstring" where
  "join_with sep [] = []"
| "join_with sep [s] = s"
| "join_with sep (s # t # ss) = s @ sep @ join_with sep (t # ss)"

fun pretty :: "nat \<Rightarrow> json \<Rightarrow> jstring" where
  "pretty n (JArr vs) =
     (if vs = [] then js ''[]''
      else js ''['' @ newline (n + 2) @ join_with (js '','' @ newline (n + 2)) (map (pretty (n + 2)) vs) @
        newline n @ js '']'')"
| "pretty n (JObj kvs) =
     (if kvs = [] then js ''{}''
      else js ''{'' @ newline (n + 2) @
        join_with (js '','' @ newline (n + 2))
          (map (\<lambda>kv. quote (fst kv) @ js '': '' @ pretty (n + 2) (snd kv)) kvs) @
        newline n @ js ''}'')"
| "pretty n v = stringify v"

section \<open>Values as children\<close>

fun collect :: "('e, 'a list) result list \<Rightarrow> ('e, 'a list) result" where
  "collect [] = Inr []"
| "collect (r # rs) = bindR r (\<lambda>x. bindR (collect rs) (\<lambda>xs. Inr (x @ xs)))"

fun children_of :: "json \<Rightarrow> (thrown, vnode list) result" where
  "children_of JNull = Inr []"
| "children_of (JBool b) = Inr []"
| "children_of (JNum x) = Inr [Txt (num_to_string x)]"
| "children_of (JStr s) = Inr [Txt s]"
| "children_of (JArr vs) = collect (map children_of vs)"
| "children_of (JObj kvs) = Inl (JsError (js ''Objects are not valid as a React child''))"

definition child :: "json option \<Rightarrow> (thrown, vnode list) result" where
  "child v = (case v of None \<Rightarrow> Inr [] | Some w \<Rightarrow> children_of w)"

section \<open>The card\<close>

datatype VerifyState = C_idle | C_verifying | C_valid | C_invalid

text \<open>\<^verbatim>\<open>handleVerify\<close>: before and after its \<^verbatim>\<open>await\<close>\<close>

definition handleVerify_start :: "VerifyState \<Rightarrow> VerifyState" where
  "handleVerify_start s = C_verifying"

definition handleVerify_end :: "'sig platform \<Rightarrow> json option \<Rightarrow> VerifyState" where
  "handleVerify_end P sr = (if web_verifyReceipt P sr then C_valid else C_invalid)"

definition VerifyControl :: "VerifyState \<Rightarrow> vnode list" where
  "VerifyControl state =
     only (state = C_idle)
       (El ''button'' [(''type'', AStr (js ''button'')), (''onClick'', AFun ''handleVerify'')]
          [Txt (js ''Verify signature'')]) @
     [El ''div'' [(''role'', AStr (js ''status'')), (''aria-live'', AStr (js ''polite''))]
        (only (state = C_verifying) (Badge T_muted [Txt (js ''Verifying signature'' @ [0x2026])] []) @
         only (state = C_valid) (Badge T_ok [Txt ([0x2713] @ js '' Signature valid'')] []) @
         only (state = C_invalid) (Badge T_alert [Txt ([0x2717] @ js '' Signature invalid'')] []))]"

text \<open>Subtraction and division of doubles, and \<^verbatim>\<open>Math.floor\<close>; the arguments are finite.\<close>

definition floor_div :: "rat \<Rightarrow> rat \<Rightarrow> jstring" where
  "floor_div d k = (case to_double (d / k) of Fin r \<Rightarrow> num_to_string (num_of_int \<lfloor>r\<rfloor>) | x \<Rightarrow> num_to_string x)"

definition formatRelative :: "int \<Rightarrow> rat \<Rightarrow> jstring" where
  "formatRelative now ms =
     (case to_double (of_int now - ms) of
        Fin diff \<Rightarrow>
          if diff < 60000 then js ''just now''
          else if diff < 3600000 then floor_div diff 60000 @ js ''m ago''
          else if diff < 86400000 then floor_div diff 3600000 @ js ''h ago''
          else floor_div diff 86400000 @ js ''d ago''
      | Inf neg \<Rightarrow> if neg then js ''just now'' else num_to_string (Inf neg) @ js ''d ago''
      | NaN \<Rightarrow> num_to_string NaN @ js ''d ago'')"

text \<open>\<^verbatim>\<open>promptPreview.length === 80\<close>\<close>

definition length_80 :: "json \<Rightarrow> bool" where
  "length_80 v =
     (case v of
        JStr s \<Rightarrow> length s = 80
      | JArr vs \<Rightarrow> length vs = 80
      | JObj kvs \<Rightarrow> map_of kvs (js ''length'') = Some (JNum (num_of_int 80))
      | _ \<Rightarrow> False)"

text \<open>\<^verbatim>\<open>{promptPreview && ...}\<close>: a falsy value is itself the child.\<close>

definition preview :: "json option \<Rightarrow> (thrown, vnode list) result" where
  "preview p =
     (if \<not> truthy p then child p
      else
        bindR (child p) (\<lambda>c.
        Inr [El ''p'' []
          ([Txt [0x201C]] @ c @ [Txt (if length_80 (the p) then [0x2026] else []), Txt [0x201D]])]))"

text \<open>\<^verbatim>\<open>shortenAddress\<close> of a value; only strings occur after \<^verbatim>\<open>isValidEntry\<close>.\<close>

definition call_shortenAddress :: "json option \<Rightarrow> nat \<Rightarrow> (thrown, jstring) result" where
  "call_shortenAddress v chars =
     (case v of
        Some (JStr s) \<Rightarrow> Inr (shortenAddress s chars)
      | _ \<Rightarrow> if \<not> truthy v then Inr [] else Inl (NativeError TypeError))"

record card_state =
  cs_expanded :: bool
  cs_verify :: VerifyState
  cs_copy :: copy_state

definition fresh_card :: card_state where
  "fresh_card = \<lparr>cs_expanded = False, cs_verify = C_idle, cs_copy = fresh_copy_state\<rparr>"

definition toggle_expanded :: "card_state \<Rightarrow> card_state" where
  "toggle_expanded s = s\<lparr>cs_expanded := \<not> cs_expanded s\<rparr>"

definition card_header ::
    "int \<Rightarrow> json option \<Rightarrow> rat \<Rightarrow> json option \<Rightarrow> (thrown, vnode) result" where
  "card_header now r savedAt promptPreview =
     (let payment = field r ''payment'' in
      bindR (getChainMeta (field payment ''chainId'')) (\<lambda>meta.
      bindR (toISOString (Fin savedAt)) (\<lambda>iso.
      bindR (child (field r ''id'')) (\<lambda>rid.
      bindR (preview promptPreview) (\<lambda>pre.
      bindR (call_shortenAddress (field payment ''payer'') 4) (\<lambda>payer.
      bindR (call_shortenAddress (field payment ''recipient'') 4) (\<lambda>recipient.
      bindR (child (field payment ''amount'')) (\<lambda>amount.
      bindR (child (field payment ''token'')) (\<lambda>token.
      Inr (El ''div'' []
        ([El ''div'' []
            [El ''code'' [] rid, Badge T_muted [Txt (cm_name meta)] [],
             El ''time'' [(''dateTime'', AStr iso)] [Txt (formatRelative now savedAt)]]] @
         pre @
         [El ''div'' []
            [Txt payer, Txt (js '' ''), El ''span'' [(''aria-hidden'', AFlag True)] [Txt [0x2192]], Txt (js '' ''),
             Txt recipient, Txt (js '' ''), El ''span'' [(''aria-hidden'', AFlag True)] [Txt [0xB7]], Txt (js '' ''),
             El ''span'' [] (amount @ [Txt (js '' '')] @ token)]])))))))))))"

definition ReceiptCard ::
    "int \<Rightarrow> json option \<Rightarrow> rat \<Rightarrow> json option \<Rightarrow> card_state \<Rightarrow> (thrown, vnode) result" where
  "ReceiptCard now sr savedAt promptPreview s =
     bindR (prop_of sr ''receipt'') (\<lambda>r.
     bindR (prop_of r ''payment'') (\<lambda>payment.
     if nullish payment then Inl (NativeError TypeError)
     else
       bindR (card_header now r savedAt promptPreview) (\<lambda>header.
       bindR (call_shortenAddress (field sr ''signature'') 6) (\<lambda>sig.
       Inr (El ''li'' []
         ([El ''div'' []
             [header,
              El ''div'' []
                (CopyButton (case str_of (field r ''id'') of Some i \<Rightarrow> i | None \<Rightarrow> []) (js ''Copy'') (js ''Copied'')
                   None (cs_copy s)
                 # VerifyControl (cs_verify s))],
           El ''div'' []
             [El ''button'' [(''type'', AStr (js ''button'')), (''onClick'', AFun ''toggle_expanded'')]
                [Txt (if cs_expanded s then [0x2212] @ js '' Hide signature & JSON''
                      else js ''+ Show signature & JSON'')],
              El ''code'' [] [Txt (js ''sig ''), Txt sig]]] @
          only (cs_expanded s) (El ''pre'' [] [Txt (pretty 0 (the sr))])))))))"

section \<open>The history\<close>

text \<open>
  \<open>hs_observing\<close>: the observer is connected; \<open>hs_lengthRef\<close> is \<^verbatim>\<open>entriesLengthRef.current\<close>.
\<close>

record history =
  hs_tracked :: bool
  hs_observing :: bool
  hs_lengthRef :: nat
  hs_captured :: "(AnalyticsEvent \<times> props) list"

definition mount_history :: "nat \<Rightarrow> history" where
  "mount_history n = \<lparr>hs_tracked = False, hs_observing = True, hs_lengthRef = n, hs_captured = []\<rparr>"

definition length_effect :: "nat \<Rightarrow> history \<Rightarrow> history" where
  "length_effect n s = s\<lparr>hs_lengthRef := n\<rparr>"

text \<open>The callback gets the states of the observed element, here whether it intersects.\<close>

definition observed :: "bool list \<Rightarrow> history \<Rightarrow> history" where
  "observed entriesState s =
     (case entriesState of
        [] \<Rightarrow> s
      | isIntersecting # _ \<Rightarrow>
          if \<not> isIntersecting \<or> hs_tracked s then s
          else
            s\<lparr>hs_tracked := True, hs_observing := False,
              hs_captured := hs_captured s @
                [(ReceiptHistoryViewed,
                  [(js ''receipt_count'', Some (JNum (num_of_int (int (hs_lengthRef s)))))])]\<rparr>)"

definition unmount_history :: "history \<Rightarrow> history" where
  "unmount_history s = s\<lparr>hs_observing := False\<rparr>"

inductive history_step :: "history \<Rightarrow> history \<Rightarrow> bool" where
  "history_step s (length_effect n s)"
| "hs_observing s \<Longrightarrow> history_step s (observed es s)"
| "history_step s (unmount_history s)"

definition saved_at :: "json \<Rightarrow> rat" where
  "saved_at e = (case field (Some e) ''savedAt'' of Some (JNum (Fin r)) \<Rightarrow> r | _ \<Rightarrow> 0)"

definition entry_card :: "int \<Rightarrow> (json option \<Rightarrow> card_state) \<Rightarrow> json \<Rightarrow> (thrown, vnode list) result" where
  "entry_card now cards e =
     bindR (ReceiptCard now (field (Some e) ''receipt'') (saved_at e) (field (Some e) ''promptPreview'')
       (cards (entry_id e))) (\<lambda>v. Inr [v])"

definition ReceiptHistory ::
    "int \<Rightarrow> (json option \<Rightarrow> card_state) \<Rightarrow> json list \<Rightarrow> (thrown, vnode) result" where
  "ReceiptHistory now cards entries =
     (if length entries = 0 then
        Inr (El ''div'' []
          [El ''p'' [] [Txt (js ''No receipts yet'')],
           El ''p'' [] [Txt (js ''Sign a payment above and your receipt will appear here '' @ [0x2014] @
             js '' verifiable client-side.'')]])
      else
        bindR (collect (map (entry_card now cards) entries)) (\<lambda>items.
        Inr (El ''div'' []
          [El ''ul'' [] items,
           El ''div'' []
             [El ''p'' []
                [Txt (dec_string (length entries)), Txt (js '' receipt''),
                 Txt (if length entries = 1 then [] else js ''s''),
                 Txt (js '' '' @ [0xB7] @ js '' stored in this browser only'')],
              Button B_ghost SZ_sm [] [(''onClick'', AFun ''clearReceipts'')] [Txt (js ''Clear local history'')]]])))"

section \<open>When the history can be shown\<close>

lemma civil_examples:
  "civil_from_days 0 = (1970, 1, 1)" "civil_from_days 11016 = (2000, 2, 29)" "civil_from_days (- 1) = (1969, 12, 31)"
  by code_simp+

lemma iso_string_example: "iso_string 0 = js ''1970-01-01T00:00:00.000Z''"
  by code_simp

lemma collect_Inr_iff: "(\<exists>v. collect rs = Inr v) \<longleftrightarrow> (\<forall>r \<in> set rs. \<exists>v. r = Inr v)"
proof (induction rs)
  case (Cons r rs)
  then show ?case by (cases r; cases "collect rs") auto
qed simp

lemma getChainMeta_number: "\<exists>meta. getChainMeta (Some (JNum x)) = Inr meta"
  by (auto simp: getChainMeta_def String_of_def split: option.split)

lemma isValidEntry_shown:
  assumes "isValidEntry e"
  obtains sr r pay sig rid payer recipient amount token chain where
    "field (Some e) ''receipt'' = Some sr" "field (Some sr) ''receipt'' = Some r"
    "field (Some r) ''payment'' = Some pay" "pay \<noteq> JNull" "sr \<noteq> JNull" "r \<noteq> JNull"
    "field (Some sr) ''signature'' = Some (JStr sig)"
    "field (Some r) ''id'' = Some (JStr rid)" "field (Some pay) ''payer'' = Some (JStr payer)"
    "field (Some pay) ''recipient'' = Some (JStr recipient)" "field (Some pay) ''amount'' = Some (JStr amount)"
    "field (Some pay) ''token'' = Some (JStr token)" "field (Some pay) ''chainId'' = Some (JNum chain)"
  using assms
  by (auto simp: isValidEntry_def Let_def isString_iff str_of_Some_iff isRecord_def is_number_def
      split: if_splits option.splits json.splits)

lemma toISOString_range: "(\<exists>s. toISOString (Fin q) = Inr s) \<longleftrightarrow> \<bar>q\<bar> \<le> of_int max_time"
  by (auto simp: toISOString_def)

text \<open>React renders no objects, also not inside a list.\<close>

fun has_object :: "json \<Rightarrow> bool" where
  "has_object (JObj kvs) = True"
| "has_object (JArr vs) = list_ex has_object vs"
| "has_object v = False"

lemma children_of_shown: "(\<exists>c. children_of v = Inr c) \<longleftrightarrow> \<not> has_object v"
  by (induction v) (auto simp: collect_Inr_iff list_ex_iff)

lemma preview_shown: "(\<exists>pre. preview p = Inr pre) \<longleftrightarrow> (\<forall>v. p = Some v \<longrightarrow> \<not> has_object v)"
proof (cases p)
  case (Some v)
  then show ?thesis
    using children_of_shown [of v] by (cases "children_of v") (auto simp: preview_def child_def)
qed (simp add: preview_def child_def)

lemma entry_card_shown:
  assumes "isValidEntry e"
  shows "(\<exists>v. entry_card now cards e = Inr v) \<longleftrightarrow>
    \<bar>saved_at e\<bar> \<le> of_int max_time \<and> (\<forall>v. field (Some e) ''promptPreview'' = Some v \<longrightarrow> \<not> has_object v)"
proof -
  from assms obtain sr r pay sig rid payer recipient amount token chain where f:
    "field (Some e) ''receipt'' = Some sr" "field (Some sr) ''receipt'' = Some r"
    "field (Some r) ''payment'' = Some pay" "pay \<noteq> JNull" "sr \<noteq> JNull" "r \<noteq> JNull"
    "field (Some sr) ''signature'' = Some (JStr sig)"
    "field (Some r) ''id'' = Some (JStr rid)" "field (Some pay) ''payer'' = Some (JStr payer)"
    "field (Some pay) ''recipient'' = Some (JStr recipient)" "field (Some pay) ''amount'' = Some (JStr amount)"
    "field (Some pay) ''token'' = Some (JStr token)" "field (Some pay) ''chainId'' = Some (JNum chain)"
    by (rule isValidEntry_shown)
  obtain meta where "getChainMeta (Some (JNum chain)) = Inr meta" using getChainMeta_number by blast
  then show ?thesis
    using f toISOString_range [of "saved_at e"] preview_shown [of "field (Some e) ''promptPreview''"]
    by (cases "toISOString (Fin (saved_at e))"; cases "preview (field (Some e) ''promptPreview'')")
      (simp_all add: entry_card_def ReceiptCard_def card_header_def prop_of_def nullish_def child_def
        call_shortenAddress_def Let_def)
qed

lemma history_cards:
  "(\<exists>v. ReceiptHistory now cards entries = Inr v) \<longleftrightarrow> (\<forall>e \<in> set entries. \<exists>v. entry_card now cards e = Inr v)"
proof -
  have "(\<exists>v. ReceiptHistory now cards entries = Inr v) \<longleftrightarrow>
      (\<exists>v. collect (map (entry_card now cards) entries) = Inr v)"
    by (auto simp: ReceiptHistory_def bindR_Inr_iff)
  also have "\<dots> \<longleftrightarrow> (\<forall>e \<in> set entries. \<exists>v. entry_card now cards e = Inr v)"
    by (simp add: collect_Inr_iff)
  finally show ?thesis .
qed

text \<open>The card of a receipt that was just saved, at a time the language can show.\<close>

lemma new_entry_shown:
  assumes "savable (rc, text, savedAt)" "savedAt = num_of_int t" "\<bar>t\<bar> \<le> max_time"
  shows "\<exists>v. entry_card now cards (new_entry rc savedAt text) = Inr v"
proof -
  have "isValidEntry (new_entry rc savedAt text)"
    using savable_entry(1) [OF assms(1)] by (simp add: entry_of_args_def)
  moreover have "saved_at (new_entry rc savedAt text) = of_int t"
    by (simp add: saved_at_def new_entry_eq assms(2) num_of_int_def)
  moreover have "\<not> has_object v" if "field (Some (new_entry rc savedAt text)) ''promptPreview'' = Some v" for v
    using that by (auto simp: new_entry_eq)
  moreover have "\<bar>rat_of_int t\<bar> \<le> of_int max_time" using assms(3) by (simp flip: of_int_abs)
  ultimately show ?thesis using entry_card_shown by simp
qed

text \<open>C30:
  Which histories can be shown: the list of stored entries, all of which passed the storage's
  check, is rendered without an exception exactly if every entry's time is one the language
  can show as a date and no entry's prompt preview is or contains an object. The storage's
  check looks at neither, and one such entry makes the whole list fail.
\<close>

theorem history_shown_iff:
  assumes "\<forall>e \<in> set entries. isValidEntry e"
  shows "(\<exists>v. ReceiptHistory now cards entries = Inr v) \<longleftrightarrow>
    (\<forall>e \<in> set entries. \<bar>saved_at e\<bar> \<le> of_int max_time \<and>
       (\<forall>v. field (Some e) ''promptPreview'' = Some v \<longrightarrow> \<not> has_object v))"
  unfolding history_cards using assms entry_card_shown by blast

definition far_entry :: json where
  "far_entry = new_entry (json_of_signed sample_signed) (num_of_int 9000000000000000) (js ''hi'')"

definition noted_entry :: json where
  "noted_entry = JObj [(js ''receipt'', json_of_signed sample_signed), (js ''savedAt'', JNum (num_of_int 0)),
     (js ''promptPreview'', JObj [])]"

lemma valid_far_entry: "isValidEntry far_entry"
proof -
  have "savable (json_of_signed sample_signed, js ''hi'', num_of_int 9000000000000000)"
    using savable_sample by (simp add: savable_def max_safe_integer_def)
  then show ?thesis using savable_entry(1) by (fastforce simp: far_entry_def entry_of_args_def)
qed

lemma valid_noted_entry: "isValidEntry noted_entry"
  using valid_far_entry by (simp add: far_entry_def noted_entry_def new_entry_eq isValidEntry_def num_of_int_def isFinite_num_def)

theorem history_shown_iff_witness:
  "\<not> (\<exists>v. ReceiptHistory 0 (\<lambda>_. fresh_card) [far_entry] = Inr v) \<and>
   \<not> (\<exists>v. ReceiptHistory 0 (\<lambda>_. fresh_card) [noted_entry] = Inr v)"
proof -
  have "saved_at far_entry = 9000000000000000" "field (Some noted_entry) ''promptPreview'' = Some (JObj [])"
    by (simp_all add: far_entry_def noted_entry_def new_entry_eq saved_at_def num_of_int_def)
  then show ?thesis
    using history_shown_iff [of "[far_entry]" 0 "\<lambda>_. fresh_card"] valid_far_entry
      history_shown_iff [of "[noted_entry]" 0 "\<lambda>_. fresh_card"] valid_noted_entry
    by (simp add: max_time_def)
qed

section \<open>How old a receipt is\<close>

lemma floor_div_exact:
  assumes "1 < k" "k \<le> d" "d \<le> max_safe_integer"
  shows "floor_div (of_int d) (of_int k) = int_string (d div k)"
proof -
  obtain r where r: "to_double (of_int d / of_int k) = Fin r" "\<lfloor>r\<rfloor> = d div k"
    using floor_to_double_div [OF assms(2, 3, 1)] .
  have "0 \<le> d div k" "d div k \<le> d" using zdiv_mono2 [of d 1 k] assms by (simp_all add: pos_imp_zdiv_nonneg_iff)
  then have "\<bar>d div k\<bar> \<le> max_safe_integer" using assms(3) by linarith
  then show ?thesis by (simp add: floor_div_def r num_to_string_int)
qed

text \<open>C39:
  The age of a receipt is shown exactly, although it is computed with rounded numbers: for times
  in whole milliseconds whose difference is a safe integer, a receipt is \<^verbatim>\<open>just now\<close> below a minute (or
  if it lies in the future), and otherwise its age is given rounded down, in minutes from 1 to 59,
  then in hours from 1 to 23, then in days.
\<close>

theorem relative_time_exact:
  assumes "\<bar>now - t\<bar> \<le> max_safe_integer"
  shows "now - t < 60000 \<and> formatRelative now (of_int t) = js ''just now'' \<or>
    (\<exists>m. 1 \<le> m \<and> m < 60 \<and> m * 60000 \<le> now - t \<and> now - t < (m + 1) * 60000 \<and>
       formatRelative now (of_int t) = int_string m @ js ''m ago'') \<or>
    (\<exists>h. 1 \<le> h \<and> h < 24 \<and> h * 3600000 \<le> now - t \<and> now - t < (h + 1) * 3600000 \<and>
       formatRelative now (of_int t) = int_string h @ js ''h ago'') \<or>
    (\<exists>n. 1 \<le> n \<and> n * 86400000 \<le> now - t \<and> now - t < (n + 1) * 86400000 \<and>
       formatRelative now (of_int t) = int_string n @ js ''d ago'')"
proof -
  define d where "d = now - t"
  have "d \<le> max_safe_integer" using assms by (simp add: d_def)
  note exact = floor_div_exact [OF _ _ this]
  have "to_double (of_int d) = Fin (of_int d)" using to_double_int [OF assms] by (simp add: d_def num_of_int_def)
  then have shown: "formatRelative now (of_int t) =
      (if d < 60000 then js ''just now''
       else if d < 3600000 then int_string (d div 60000) @ js ''m ago''
       else if d < 86400000 then int_string (d div 3600000) @ js ''h ago''
       else int_string (d div 86400000) @ js ''d ago'')"
    using exact [of 60000] exact [of 3600000] exact [of 86400000] by (simp add: formatRelative_def d_def)
  consider "d < 60000" | "60000 \<le> d" "d < 3600000" | "3600000 \<le> d" "d < 86400000" | "86400000 \<le> d" by linarith
  then show ?thesis
  proof cases
    case 2
    show ?thesis
      by (rule disjI2, rule disjI1, rule exI [of _ "d div 60000"])
        (use 2 div_between [of 60000 d] in \<open>simp add: shown d_def [symmetric]\<close>)
  next
    case 3
    show ?thesis
      by (rule disjI2, rule disjI2, rule disjI1, rule exI [of _ "d div 3600000"])
        (use 3 div_between [of 3600000 d] in \<open>simp add: shown d_def [symmetric]\<close>)
  next
    case 4
    show ?thesis
      by (rule disjI2, rule disjI2, rule disjI2, rule exI [of _ "d div 86400000"])
        (use 4 div_between [of 86400000 d] in \<open>simp add: shown d_def [symmetric]\<close>)
  qed (simp add: shown d_def [symmetric])
qed

theorem relative_time_exact_witness:
  "formatRelative 1700000000000 (of_int 1699999880001) = js ''1m ago''"
proof -
  have "int_string 1 @ js ''m ago'' = js ''1m ago''" by code_simp
  moreover have one: "m = 1" if "m * 60000 \<le> 119999" "59999 < m * 60000" for m :: int using that by linarith
  ultimately show ?thesis
    using relative_time_exact [of 1700000000000 1699999880001] by (auto simp: max_safe_integer_def dest: one)
qed

section \<open>The view is counted once\<close>

definition history_inv :: "history \<Rightarrow> bool" where
  "history_inv s \<longleftrightarrow>
     length (hs_captured s) = (if hs_tracked s then 1 else 0) \<and> (hs_tracked s \<longrightarrow> \<not> hs_observing s)"

interpretation history: transition_system "\<lambda>s. \<exists>n. s = mount_history n" history_step history_inv
proof
  fix s t
  assume "history_inv s" "history_step s t"
  then show "history_inv t"
    by (induction rule: history_step.induct [OF \<open>history_step s t\<close>])
      (auto simp: history_inv_def length_effect_def observed_def unmount_history_def split: list.split)
qed (auto simp: history_inv_def mount_history_def)

lemma history_viewed_once:
  "history_step\<^sup>*\<^sup>* (mount_history n) s \<Longrightarrow> length (hs_captured s) \<le> 1"
  using history.inv_reachable [OF exI [of _ n], OF refl] by (auto simp: history_inv_def)

end
