(* ===== verification/PageEffects.thy ===== *)
theory PageEffects
  imports ReducedMotion Platform Jsx
begin

text \<open>
  Background effects of the page: the wake-up banner
  (\<^verbatim>\<open>web/src/components/cold-start-warmup.tsx\<close>) and smooth scrolling
  (\<^verbatim>\<open>web/src/components/smooth-scroll.tsx\<close>). Of Lenis, the scrolling library, only the creation,
  the driving and the destruction of instances are modelled.
\<close>

section \<open>The wake-up banner\<close>

text \<open>The addresses asked; an answer or a failure of a probe both count as settled.\<close>

definition createWarmupProbes :: "jstring \<Rightarrow> jstring option \<Rightarrow> jstring list" where
  "createWarmupProbes gatewayUrl verifierUrl =
     [gatewayUrl @ js ''/healthz''] @
     (case verifierUrl of None \<Rightarrow> [] | Some v \<Rightarrow> if v = [] then [] else [v @ js ''/health''])"

record warmup =
  wu_warm :: bool
  wu_pending :: "jstring list"
  wu_mounted :: bool
  wu_aborted :: bool

definition mount_warmup :: "jstring option \<Rightarrow> jstring option \<Rightarrow> warmup" where
  "mount_warmup gatewayUrl verifierUrl =
     (case gatewayUrl of
        None \<Rightarrow> \<lparr>wu_warm = True, wu_pending = [], wu_mounted = True, wu_aborted = False\<rparr>
      | Some g \<Rightarrow>
          if g = [] then \<lparr>wu_warm = True, wu_pending = [], wu_mounted = True, wu_aborted = False\<rparr>
          else
            \<lparr>wu_warm = False, wu_pending = createWarmupProbes g verifierUrl, wu_mounted = True,
             wu_aborted = False\<rparr>)"

text \<open>One probe settles; after the last one \<^verbatim>\<open>setWarm(true)\<close> runs.\<close>

definition probe_settled :: "nat \<Rightarrow> warmup \<Rightarrow> warmup" where
  "probe_settled i s =
     (let rest = take i (wu_pending s) @ drop (Suc i) (wu_pending s) in
      s\<lparr>wu_pending := rest, wu_warm := wu_warm s \<or> (rest = [] \<and> wu_mounted s)\<rparr>)"

definition unmount_warmup :: "warmup \<Rightarrow> warmup" where
  "unmount_warmup s = s\<lparr>wu_mounted := False, wu_aborted := True\<rparr>"

definition ColdStartWarmup :: "warmup \<Rightarrow> vnode list" where
  "ColdStartWarmup s =
     (if wu_warm s then []
      else
        [El ''div'' [(''role'', AStr (js ''status'')), (''aria-live'', AStr (js ''polite''))]
           [Txt ([0xA7] @ js '' Free tier wake-up '' @ [0x2014] @ js '' first request may take ~30 seconds'')]])"

inductive warmup_step :: "warmup \<Rightarrow> warmup \<Rightarrow> bool" where
  settles: "i < length (wu_pending s) \<Longrightarrow> warmup_step s (probe_settled i s)"
| leaves: "wu_mounted s \<Longrightarrow> warmup_step s (unmount_warmup s)"

definition warmup_inv :: "warmup \<Rightarrow> bool" where
  "warmup_inv s \<longleftrightarrow> (wu_mounted s \<longrightarrow> (wu_warm s \<longleftrightarrow> wu_pending s = [])) \<and> length (wu_pending s) \<le> 2"

interpretation warmup: transition_system "\<lambda>s. \<exists>g v. s = mount_warmup g v" warmup_step warmup_inv
proof
  fix s
  assume "\<exists>g v. s = mount_warmup g v"
  then show "warmup_inv s"
    by (auto simp: warmup_inv_def mount_warmup_def createWarmupProbes_def split: option.split)
next
  fix s t
  assume inv: "warmup_inv s" and step: "warmup_step s t"
  from step inv show "warmup_inv t"
    by (induction rule: warmup_step.induct)
      (auto simp: warmup_inv_def probe_settled_def unmount_warmup_def Let_def)
qed

text \<open>The banner is shown exactly while a probe is pending: it goes away when all have settled.\<close>

lemma banner_while_probing:
  assumes "warmup_step\<^sup>*\<^sup>* (mount_warmup g v) s" "wu_mounted s"
  shows "ColdStartWarmup s = [] \<longleftrightarrow> wu_pending s = []"
  using warmup.inv_reachable [OF _ assms(1)] assms(2) by (auto simp: warmup_inv_def ColdStartWarmup_def)

section \<open>Smooth scrolling\<close>

text \<open>
  The instances of the scroller that are not destroyed, the instances with a requested
  animation frame, and the calls of \<^verbatim>\<open>lenis.raf\<close>. \<open>sc_captured\<close> is the instance the cleanup of the
  last run destroys.
\<close>

record scrolling =
  sc_live :: "nat list"
  sc_frames :: "nat list"
  sc_driven :: "nat list"
  sc_made :: nat
  sc_captured :: nat

definition fresh_scrolling :: scrolling where
  "fresh_scrolling = \<lparr>sc_live = [], sc_frames = [], sc_driven = [], sc_made = 0, sc_captured = 0\<rparr>"

definition scroll_start :: "scrolling \<Rightarrow> scrolling" where
  "scroll_start e =
     e\<lparr>sc_live := sc_live e @ [sc_made e], sc_frames := sc_frames e @ [sc_made e],
       sc_made := sc_made e + 1, sc_captured := sc_made e\<rparr>"

text \<open>\<^verbatim>\<open>tick\<close>: the frame of an instance runs and requests the next one.\<close>

inductive scroll_tick :: "scrolling \<Rightarrow> scrolling \<Rightarrow> bool" where
  frame: "i \<in> set (sc_frames e) \<Longrightarrow> scroll_tick e (e\<lparr>sc_driven := sc_driven e @ [i]\<rparr>)"

definition scroll_stop :: "scrolling \<Rightarrow> scrolling" where
  "scroll_stop e =
     e\<lparr>sc_frames := filter (\<lambda>i. i \<noteq> sc_captured e) (sc_frames e),
       sc_live := filter (\<lambda>i. i \<noteq> sc_captured e) (sc_live e)\<rparr>"

definition scroll_sound :: "scrolling \<Rightarrow> bool" where
  "scroll_sound e \<longleftrightarrow> sc_frames e = sc_live e \<and> (sc_live e = [] \<or> sc_live e = [sc_captured e])"

interpretation scroller: motion_effect scroll_start scroll_stop scroll_tick "\<lambda>e. length (sc_live e)" scroll_sound
proof
  fix e e'
  assume "scroll_sound e" "scroll_tick e e'"
  then show "scroll_sound e' \<and> length (sc_live e') = length (sc_live e)"
    by (auto simp: scroll_sound_def elim: scroll_tick.cases)
qed (auto simp: scroll_sound_def scroll_start_def scroll_stop_def)

text \<open>
  A component that has caught up with the preference has one scroller if motion is allowed and
  none otherwise; a removed one has none and no frame requested.
\<close>

lemma scrolling_follows_preference:
  assumes "(motion_step scroll_start scroll_stop scroll_tick)\<^sup>*\<^sup>* (mount_motion window fresh_scrolling) s"
  shows "quiet s \<Longrightarrow> length (sc_live (mo_effect s)) = (if snapshot_of s then 0 else 1)"
    and "\<not> mo_mounted s \<Longrightarrow> sc_live (mo_effect s) = [] \<and> md_listening (mo_media s) = []"
  using scroller.follows_preference [OF _ _ assms] by (simp_all add: scroll_sound_def fresh_scrolling_def)

text \<open>A scroller is only driven while it exists.\<close>

lemma driven_is_live: "scroll_sound e \<Longrightarrow> scroll_tick e e' \<Longrightarrow> \<exists>i \<in> set (sc_live e). sc_driven e' = sc_driven e @ [i]"
  by (auto simp: scroll_sound_def elim!: scroll_tick.cases)

end
