(* ===== verification/SitePages.thy ===== *)
theory SitePages
  imports ProtocolDiagram DocsPages SummarizeForm ChainSetting ReceiptViews PageEffects
begin

text \<open>
  The pages that put the components together: \<^verbatim>\<open>web/src/app/page.tsx\<close>, \<^verbatim>\<open>web/src/app/layout.tsx\<close>,
  \<^verbatim>\<open>web/src/app/docs/layout.tsx\<close> and the parts they share in \<^verbatim>\<open>web/src/components\<close>: \<^verbatim>\<open>nav.tsx\<close>,
  \<^verbatim>\<open>hero.tsx\<close>, \<^verbatim>\<open>how-it-works.tsx\<close>, \<^verbatim>\<open>footer.tsx\<close> and \<^verbatim>\<open>docs/docs-shell.tsx\<close>. Texts, links, anchors and
  accessibility attributes are kept, fixed style classes are left out. The components with
  state are rendered from their states; what can throw while rendering makes the page throw.
\<close>

section \<open>Build-time settings\<close>

text \<open>The values of \<^verbatim>\<open>process.env\<close> the pages read.\<close>

record site_env =
  NEXT_PUBLIC_PAYMENT_AMOUNT :: "jstring option"
  NEXT_PUBLIC_PAYMENT_TOKEN :: "jstring option"
  NEXT_PUBLIC_EXPECTED_CHAIN_NAME :: "jstring option"
  NEXT_PUBLIC_EXPECTED_CHAIN_ID :: "jstring option"

definition display_of :: "site_env \<Rightarrow> display" where
  "display_of E =
     \<lparr>DISPLAY_AMOUNT = or_else (NEXT_PUBLIC_PAYMENT_AMOUNT E) ''0.001'',
      DISPLAY_TOKEN = or_else (NEXT_PUBLIC_PAYMENT_TOKEN E) ''USDC'',
      DISPLAY_CHAIN_NAME = or_else (NEXT_PUBLIC_EXPECTED_CHAIN_NAME E) ''Base Sepolia''\<rparr>"

definition DISPLAY_CHAIN_ID :: "site_env \<Rightarrow> jstring" where
  "DISPLAY_CHAIN_ID E = or_else (NEXT_PUBLIC_EXPECTED_CHAIN_ID E) ''84532''"

section \<open>Hero\<close>

definition middle_dot :: jstring where
  "middle_dot = js '' '' @ [0xB7] @ js '' ''"

definition dash :: jstring where
  "dash = js '' '' @ [0x2014] @ js '' ''"

definition TICKER_ITEMS :: "site_env \<Rightarrow> jstring list" where
  "TICKER_ITEMS E =
     [js ''x402'', js ''pay-per-call AI'',
      DISPLAY_AMOUNT (display_of E) @ js '' '' @ DISPLAY_TOKEN (display_of E) @ js '' per request'',
      js ''EIP-712 typed data'', js ''ECDSA receipts'',
      DISPLAY_CHAIN_NAME (display_of E) @ middle_dot @ DISPLAY_CHAIN_ID E,
      js ''open source'' @ middle_dot @ js ''MIT'', js ''keccak-256 hashing'', js ''verified client-side'']"

definition TICKER_RUN :: "site_env \<Rightarrow> jstring list" where
  "TICKER_RUN E = concat (replicate 3 (TICKER_ITEMS E))"

definition Ticker :: "site_env \<Rightarrow> vnode list" where
  "Ticker E =
     [El ''div'' []
        [Txt (js ''x402-style'' @ middle_dot @ js ''signed receipts'' @ middle_dot),
         Txt (DISPLAY_CHAIN_NAME (display_of E))],
      El ''div'' []
        [El ''div'' [(''aria-hidden'', AFlag True)]
           (map (\<lambda>item.
              El ''span'' []
                [El ''span'' [(''aria-hidden'', AFlag True)] [Txt [0x2726]], El ''span'' [] [Txt item]])
            (TICKER_RUN E))]]"

definition Stat :: "string \<Rightarrow> jstring \<Rightarrow> bool \<Rightarrow> vnode" where
  "Stat label value hideOnMobile =
     El ''div''
       [(''className'', AStr (js ''flex-1 px-5 py-3 lg:px-8 lg:py-3.5 '' @
           js (if hideOnMobile then ''hidden lg:block'' else '''')))]
       [El ''div'' [] [Txt (js label)], El ''div'' [] [Txt value]]"

definition watermark :: "jstring \<Rightarrow> vnode" where
  "watermark t = El ''div'' [(''aria-hidden'', AFlag True)] [Txt t]"

definition hero_copy :: "site_env \<Rightarrow> vnode" where
  "hero_copy E =
     El ''div'' []
       [El ''p'' []
          [Txt (js ''An open-source reference for HTTP''), Txt (js '' ''), El ''span'' [] [Txt (js ''402'')],
           Txt (dash @ js ''runnable, end-to-end, right in this browser tab.'')],
        El ''h1'' []
          [Txt (js ''Pay-per-call AI,''), El ''br'' [] [], El ''span'' [] [Txt (js ''authorized'')],
           Txt (js '' on ''), Txt (DISPLAY_CHAIN_NAME (display_of E)), Txt (js ''.'')],
        El ''p'' []
          [El ''span'' [] [Txt (js ''A'')],
           Txt (js ''n HTTP 402 reference, end-to-end. The wallet signs ''), El ''em'' [] [Txt (js ''once'')],
           Txt (js '' with EIP-712. The Rust verifier checks the signature. The AI provider runs the request. The gateway returns a signed receipt'' @ dash),
           El ''strong'' [] [Txt (js ''verifiable right here'')], Txt (js '', in this browser tab.'')],
        El ''div'' []
          [El ''a'' [(''href'', AStr (js ''#try''))]
             [Txt (js ''Try it now''), El ''span'' [(''aria-hidden'', AFlag True)] [Txt [0x2193]]],
           El ''a'' [(''href'', AStr (js ''/docs''))] [Txt (js ''Read docs'')]]]"

definition Hero :: "site_env \<Rightarrow> vnode \<Rightarrow> vnode" where
  "Hero E diagram =
     El ''section'' []
       (Ticker E @
        [El ''div'' []
           [watermark (js ''01''), watermark (js ''x402''),
            watermark (js ''MicroAI Paygate'' @ middle_dot @ js ''Issue 01'' @ middle_dot @ js ''2026''),
            El ''div'' []
              [El ''span'' []
                 [Txt (js ''Issue 01'' @ middle_dot @ js ''2026'' @ middle_dot @ js ''x402 reference implementation'')]],
            El ''div'' [] [hero_copy E, El ''div'' [] [diagram]]],
         El ''div'' []
           [El ''div'' []
              [Stat ''Fee per call'' (DISPLAY_AMOUNT (display_of E) @ js '' '' @ DISPLAY_TOKEN (display_of E)) False,
               Stat ''Chain'' (DISPLAY_CHAIN_NAME (display_of E) @ middle_dot @ DISPLAY_CHAIN_ID E) False,
               Stat ''Auth'' (js ''EIP-712 typed data'') True,
               Stat ''Receipt'' (js ''ECDSA'' @ middle_dot @ js ''keccak-256'') True]]])"

section \<open>The protocol section\<close>

definition MOVES :: "(string \<times> string \<times> jstring) list" where
  "MOVES =
     [(''01'', ''Request'',
       js ''Client posts unsigned text to /api/ai/summarize. The gateway never charges before it has a signature.''),
      (''02'', ''Challenge'',
       js ''Gateway responds 402 with a payment context: recipient, amount, token, nonce, chainId, and timestamp.''),
      (''03'', ''Sign'',
       js ''Your wallet signs the EIP-712 typed data. No on-chain transaction, no gas'' @ dash @
       js ''only an authorization signature.''),
      (''04'', ''Verify'',
       js ''The Rust verifier recovers the signer, enforces chain ID parity, timestamp window, and rejects replayed nonces.''),
      (''05'', ''Generate'',
       js ''Only after the signature is verified does the gateway call the AI provider. Failure here doesn'' @
       js [CHR 0x27] @ js ''t charge you.''),
      (''06'', ''Receipt'',
       js ''Gateway signs a receipt over the request and response hashes. Returned in X-402-Receipt and verifiable client-side.'')]"

definition move_item :: "string \<times> string \<times> jstring \<Rightarrow> vnode" where
  "move_item s =
     (case s of (n, title, desc) \<Rightarrow>
        El ''li'' []
          [El ''div'' [] [El ''span'' [] [Txt (js n)], El ''span'' [(''aria-hidden'', AFlag True)] []],
           El ''h3'' [] [Txt (js title)], El ''p'' [] [Txt desc]])"

definition HowItWorks :: "site_env \<Rightarrow> vnode" where
  "HowItWorks E =
     El ''section'' [(''id'', AStr (js ''protocol''))]
       [El ''div'' []
          [El ''div'' []
             [El ''div'' []
                [El ''span'' [] [Txt ([0xA7] @ js '' 03'' @ dash @ js ''The protocol'')],
                 El ''h2'' []
                   [Txt (js ''The x402 dance,''), El ''br'' [] [], El ''span'' [] [Txt (js ''in six moves.'')]]],
              El ''p'' []
                [Txt (js ''Each step has its own failure mode and a structured error code. The status strip in the tool shows where you are in the flow, live.'')]],
           El ''ol'' [] (map move_item MOVES),
           El ''p'' []
             [Txt (js ''A valid signature proves wallet authorization'' @ dash @
                js ''it does not prove USDC moved on-chain. This implementation is a demo on ''),
              Txt (DISPLAY_CHAIN_NAME (display_of E)),
              Txt (js ''. The cryptography is real; the settlement is not.'')]]]"

section \<open>Header and footer\<close>

definition ext_link :: "string \<Rightarrow> jstring \<Rightarrow> vnode" where
  "ext_link href t =
     El ''a'' [(''href'', AStr (js href)), (''target'', AStr (js ''_blank'')), (''rel'', AStr (js ''noreferrer''))] [Txt t]"

definition Nav :: "'sig platform \<Rightarrow> site_env \<Rightarrow> vnode \<Rightarrow> vnode" where
  "Nav P E wallet =
     El ''header'' []
       [El ''div'' []
          [El ''a'' [(''href'', AStr (js ''/''))]
             [El ''span'' [] [Txt (js ''MicroAI Paygate'')],
              El ''span'' []
                [Txt (js ''x402'' @ middle_dot), Txt (lower P (DISPLAY_CHAIN_NAME (display_of E)))]],
           El ''div'' []
             [El ''a'' [(''href'', AStr (js ''/docs''))] [Txt (js ''Docs'')],
              wallet,
              ext_link ''https://github.com/AnkanMisra/MicroAI-Paygate'' (js ''View source '' @ [0x2197])]]]"

definition Footer :: vnode where
  "Footer =
     El ''footer'' []
       [El ''div'' []
          [El ''div'' []
             [El ''p'' [] [Txt (js ''MicroAI Paygate'')],
              El ''p'' [] [Txt (js ''MIT'' @ middle_dot @ js ''2026'' @ middle_dot @ js ''open source x402-style reference'')]],
           El ''nav'' []
             [El ''a'' [(''href'', AStr (js ''/docs''))] [Txt (js ''Docs'')],
              El ''a'' [(''href'', AStr (js ''/#protocol''))] [Txt (js ''Protocol'')],
              ext_link ''https://github.com/AnkanMisra/MicroAI-Paygate/blob/main/README.md'' (js ''README''),
              ext_link ''https://github.com/AnkanMisra/MicroAI-Paygate/blob/main/DEPLOY.md'' (js ''Deploy guide''),
              ext_link ''https://github.com/AnkanMisra/MicroAI-Paygate/blob/main/SECURITY.md'' (js ''Security''),
              ext_link ''https://github.com/AnkanMisra/MicroAI-Paygate'' (js ''GitHub '' @ [0x2197])]]]"

section \<open>The home page\<close>

definition SectionHeader :: "jstring \<Rightarrow> jstring \<Rightarrow> jstring \<Rightarrow> jstring \<Rightarrow> vnode" where
  "SectionHeader marker titleLeft titleRight caption =
     El ''div'' []
       [El ''div'' []
          [El ''span'' [] [Txt marker],
           El ''h2'' [] [Txt titleLeft, Txt (js '' ''), El ''span'' [] [Txt titleRight]]],
        El ''p'' [] [Txt caption]]"

definition Home ::
    "'sig platform \<Rightarrow> site_env \<Rightarrow> vnode \<Rightarrow> vnode \<Rightarrow> vnode \<Rightarrow> vnode \<Rightarrow> vnode" where
  "Home P E wallet diagram form receipts =
     El ''div'' []
       [Nav P E wallet,
        El ''main'' []
          [Hero E diagram,
           El ''section'' [(''id'', AStr (js ''try''))]
             [El ''div'' []
                [SectionHeader ([0xA7] @ js '' 01'' @ dash @ js ''The tool'') (js ''Sign once.'') (js ''Pay once.'')
                   (js ''Paste any text. The gateway will challenge you with a 402, your wallet signs it once, and a summary comes back with a verifiable receipt.''),
                 form]],
           El ''section'' [(''id'', AStr (js ''receipts''))]
             [El ''div'' []
                [SectionHeader ([0xA7] @ js '' 02'' @ dash @ js ''Your receipts'') (js ''Each signature,'') (js ''filed.'')
                   (js ''Every successful payment leaves a signed receipt. Click verify on any of them'' @ dash @
                    js ''the check runs locally in your browser, against the gateway'' @ js [CHR 0x27] @ js ''s public key.''),
                 receipts]],
           HowItWorks E],
        Footer]"

text \<open>The states the home page is rendered from.\<close>

record 'x home =
  hm_widget :: widget
  hm_motion :: "diagram motion"
  hm_form :: form
  hm_verify :: ReceiptVerifyState
  hm_copies :: "'x copy_state_scheme \<times> 'x copy_state_scheme"
  hm_cards :: "json option \<Rightarrow> card_state"
  hm_entries :: "json list"

definition wallet_part :: "site_env \<Rightarrow> widget \<Rightarrow> vnode" where
  "wallet_part E s =
     WalletWidget (EXPECTED_CHAIN (NEXT_PUBLIC_EXPECTED_CHAIN_ID E))
       (EXPECTED_CHAIN_NAME (NEXT_PUBLIC_EXPECTED_CHAIN_NAME E)) s"

definition home_page ::
    "'sig platform \<Rightarrow> site_env \<Rightarrow> (rat \<Rightarrow> rat) \<Rightarrow> (rat \<Rightarrow> rat) \<Rightarrow> int \<Rightarrow> 'x home \<Rightarrow>
       (thrown, vnode) result" where
  "home_page P E cosf sinf now s =
     bindR (ProtocolOrchestra3D cosf sinf (mo_value (hm_motion s)) (mo_effect (hm_motion s))) (\<lambda>diagram.
     bindR (ReceiptHistory now (hm_cards s) (hm_entries s)) (\<lambda>receipts.
     Inr (Home P E (wallet_part E (hm_widget s)) diagram
       (SummarizeForm (display_of E) (hm_verify s) (hm_copies s) (hm_form s)) receipts)))"

section \<open>The documentation pages and the root layout\<close>

definition RESOURCES :: "(string \<times> string) list" where
  "RESOURCES =
     [(''Gateway OpenAPI'', ''https://github.com/AnkanMisra/MicroAI-Paygate/blob/main/gateway/openapi.yaml''),
      (''SDK README'', ''https://github.com/AnkanMisra/MicroAI-Paygate/tree/main/sdk/typescript''),
      (''Deployment Guide'', ''https://github.com/AnkanMisra/MicroAI-Paygate/blob/main/DEPLOY.md''),
      (''Security Policy'', ''https://github.com/AnkanMisra/MicroAI-Paygate/blob/main/SECURITY.md'')]"

definition DocsShell :: "jstring \<Rightarrow> vnode list \<Rightarrow> vnode" where
  "DocsShell pathname children =
     El ''main'' []
       [El ''section'' []
          [El ''div'' []
             [El ''div'' []
                [El ''div'' []
                   [El ''p'' [] [Txt (js ''MicroAI Paygate docs'')],
                    El ''div'' [] [Txt (js ''Build against the ''), El ''span'' [] [Txt (js ''paygate.'')]]],
                 El ''div'' []
                   [Txt (js ''Developer documentation for the SDK, gateway API, custom x402-style flow, operations, and current production limits.'')]]]],
        El ''div'' []
          [El ''aside'' [] [DocsSidebar pathname],
           El ''article'' [] [El ''div'' [] children],
           El ''aside'' []
             [El ''div'' []
                [El ''p'' [] [Txt (js ''Resources'')],
                 El ''div'' [] (map (\<lambda>(label, href). ext_link href (js label @ js '' '' @ [0x2197])) RESOURCES)],
              El ''a'' [(''href'', AStr (js ''/#protocol''))] [Txt (js ''View live protocol section'')]]]]"

definition DocsLayout ::
    "'sig platform \<Rightarrow> site_env \<Rightarrow> vnode \<Rightarrow> jstring \<Rightarrow> vnode list \<Rightarrow> vnode" where
  "DocsLayout P E wallet pathname children = El ''div'' [] [Nav P E wallet, DocsShell pathname children, Footer]"

definition metadata_title :: "site_env \<Rightarrow> jstring" where
  "metadata_title E =
     js ''MicroAI Paygate'' @ dash @ js ''pay-per-call AI, authorized on '' @ DISPLAY_CHAIN_NAME (display_of E)"

text \<open>The scroller renders nothing.\<close>

definition RootLayout :: "warmup \<Rightarrow> vnode list \<Rightarrow> vnode" where
  "RootLayout banner children =
     El ''html'' [(''lang'', AStr (js ''en''))] [El ''body'' [] (ColdStartWarmup banner @ children)]"

section \<open>Links\<close>

definition is_link :: "vnode \<Rightarrow> bool" where
  "is_link v = (case v of Txt _ \<Rightarrow> False | El tag _ _ \<Rightarrow> tag = ''a'')"

abbreviation links :: "vnode list \<Rightarrow> vnode list" where
  "links \<equiv> pick is_link"

definition has_id :: "jstring \<Rightarrow> vnode \<Rightarrow> bool" where
  "has_id x v \<longleftrightarrow> attr_of ''id'' v = Some (AStr x)"

text \<open>The routes of the directory \<^verbatim>\<open>web/src/app\<close>.\<close>

definition ROUTES :: "string list" where
  "ROUTES = [''/'', ''/docs'', ''/docs/api'', ''/docs/architecture'', ''/docs/operations'', ''/docs/protocol'',
     ''/docs/quickstart'', ''/docs/sdk'', ''/docs/security-limits'']"

text \<open>
  A link leads to a route, to an anchor of the page it is on or of the home page, or to another
  site, which then opens in a new tab without a referrer and without access to this one.
\<close>

definition opens_safely :: "vnode \<Rightarrow> bool" where
  "opens_safely v \<longleftrightarrow>
     attr_of ''target'' v = Some (AStr (js ''_blank'')) \<and> attr_of ''rel'' v = Some (AStr (js ''noreferrer''))"

definition link_ok :: "vnode \<Rightarrow> vnode \<Rightarrow> vnode \<Rightarrow> bool" where
  "link_ok here home v \<longleftrightarrow>
     (\<exists>h. attr_of ''href'' v = Some (AStr h) \<and>
        (h \<in> set (map js ROUTES) \<or>
         (\<exists>x. h = js ''#'' @ x \<and> pick (has_id x) [here] \<noteq> []) \<or>
         (\<exists>x. h = js ''/#'' @ x \<and> pick (has_id x) [home] \<noteq> []) \<or>
         (prefix (js ''https://'') h \<and> opens_safely v)))"

lemma is_link_simps [simp]: "is_link (El tag attrs cs) \<longleftrightarrow> tag = ''a''" "\<not> is_link (Txt t)"
  by (simp_all add: is_link_def)

lemma links_El: "tag \<noteq> ''a'' \<Longrightarrow> links (El tag attrs cs # vs) = links cs @ links vs"
  by simp

lemma links_only: "links [v] = [] \<Longrightarrow> links (only b v) = []"
  by simp

declare pick_simps(4) [simp del] pick_only [simp del]
declare links_El [simp] links_only [simp]

lemma links_Badge [simp]: "links [Badge tone cs c] = links cs" "links (Badge tone cs c # v # vs) = links cs @ links (v # vs)"
  by (simp_all add: Badge_def)

lemma links_Button [simp]:
  "links [Button vt sz c rest cs] = links cs" "links (Button vt sz c rest cs # v # vs) = links cs @ links (v # vs)"
  by (simp_all add: Button_def)

lemma links_Copy [simp]:
  "links [CopyButton t l c a st] = []" "links (CopyButton t l c a st # v # vs) = links (v # vs)"
  by (simp_all add: CopyButton_def CheckIcon_def CopyIcon_def)

text \<open>Rules for trees without links, which leave the attributes alone.\<close>

lemma links_free:
  "links [] = []"
  "links vs = [] \<Longrightarrow> links (Txt t # vs) = []"
  "tag \<noteq> ''a'' \<Longrightarrow> links cs = [] \<Longrightarrow> links vs = [] \<Longrightarrow> links (El tag attrs cs # vs) = []"
  "links vs = [] \<Longrightarrow> links ws = [] \<Longrightarrow> links (vs @ ws) = []"
  "links [v] = [] \<Longrightarrow> links (only b v) = []"
  by simp_all

text \<open>The diagram, the form and the history contain no links, whatever data they show.\<close>

lemma links_diagram:
  assumes "ProtocolOrchestra3D cosf sinf b d = Inr v"
  shows "links [v] = []"
proof -
  have parts: "links [diagram_defs ns] = []" "links [arc_fill i a] = []" "links [spoke i n] = []"
    "links center_marker = []" "links [node_tile i n] = []" "links [pulse_rings] = []" "links [chevron] = []"
    "links [skeleton ns] = []" for ns i a n
    by (simp_all add: diagram_defs_def arc_fill_def spoke_def center_marker_def node_tile_def tile_rect_def
        pulse_rings_def pulse_ring_def pulse_animate_def chevron_def skeleton_def)
  have maps: "links (map (\<lambda>(i, a). arc_fill i a) (enumerate 0 as)) = []"
    "links (map (\<lambda>(i, n). spoke i n) (enumerate 0 ns)) = []"
    "links (map (\<lambda>(i, n). node_tile i n) (enumerate 0 ns)) = []" for as ns
    by (rule pick_none, auto simp: parts)+
  have "links [diagram_svg b ns] = []" for ns
    by (simp add: diagram_svg_def parts maps pick_Cons [of is_link "diagram_defs ns" "v # vs" for v vs]
        pick_Cons [of is_link "skeleton ns" "vs @ ws" for vs ws])
  then show ?thesis
    using assms by (auto simp: ProtocolOrchestra3D_def diagram_caption_def live_counter_def split: if_splits)
qed

lemma links_strip: "links [StatusStrip st e] = []"
proof -
  have "links [strip_item a e i s] = []" for a i s
    unfolding strip_item_def Let_def by (intro links_free) simp_all
  then have "links (strip_items st e) = []"
    unfolding strip_items_def by - (rule pick_none, auto)
  then show ?thesis by (simp add: StatusStrip_def)
qed

lemma links_form: "links [SummarizeForm D vs cs f] = []"
proof -
  have banner: "links [ErrorBanner e f g] = []" for e f g
    by (simp add: ErrorBanner_def split: option.split)
  have card: "links (OutputCard s r v c1 c2) = []" for s r v c1 c2
    by (simp add: OutputCard_def ReceiptStatusBadge_def split: option.split)
  have strip: "links (StatusStrip st e # vs) = links vs" for st e vs
    using links_strip pick_Cons [of is_link "StatusStrip st e" vs] by simp
  have "links [result_column vs cs s] = []" for s
    by (simp add: result_column_def banner card strip PlaceholderCard_def split: option.split json.split)
  moreover have "links [input_column D i s] = []" for i s by (simp add: input_column_def)
  ultimately show ?thesis
    using pick_Cons [of is_link "input_column D (fm_input f) (h_state (fm_hook f))"] by (simp add: SummarizeForm_def)
qed

lemma links_collect:
  "collect (map f es) = Inr vs \<Longrightarrow> (\<And>e x. e \<in> set es \<Longrightarrow> f e = Inr x \<Longrightarrow> links x = []) \<Longrightarrow> links vs = []"
proof (induction es arbitrary: vs)
  case (Cons e es)
  from Cons.prems(1) obtain x xs where x: "f e = Inr x" "collect (map f es) = Inr xs" "vs = x @ xs"
    by (auto simp: bindR_Inr_iff)
  have "links x = []" by (rule Cons.prems(2) [of e]) (simp_all add: x)
  moreover have "links xs = []" by (rule Cons.IH [OF x(2)]) (auto intro: Cons.prems(2))
  ultimately show ?case by (simp add: x)
qed simp

lemma links_children: "children_of v = Inr vs \<Longrightarrow> links vs = []"
proof (induction v arbitrary: vs)
  case (JArr ws)
  show ?case by (rule links_collect [of children_of ws]) (use JArr in auto)
qed auto

lemma links_child: "child v = Inr vs \<Longrightarrow> links vs = []"
  by (auto simp: child_def links_children split: option.splits)

lemma links_preview: "preview p = Inr vs \<Longrightarrow> links vs = []"
  by (auto simp: preview_def bindR_Inr_iff links_child split: if_splits)

lemma links_header: "card_header now r savedAt p = Inr v \<Longrightarrow> links [v] = []"
  by (auto simp: card_header_def bindR_Inr_iff Let_def dest!: links_child links_preview)

lemma links_card: "ReceiptCard now sr savedAt p s = Inr v \<Longrightarrow> links [v] = []"
proof -
  assume "ReceiptCard now sr savedAt p s = Inr v"
  then obtain r header sig where "card_header now r savedAt p = Inr header"
    and v: "v = El ''li'' []
      ([El ''div'' []
          [header, El ''div'' [] (CopyButton (case str_of (field r ''id'') of Some i \<Rightarrow> i | None \<Rightarrow> []) (js ''Copy'')
             (js ''Copied'') None (cs_copy s) # VerifyControl (cs_verify s))],
        El ''div'' []
          [El ''button'' [(''type'', AStr (js ''button'')), (''onClick'', AFun ''toggle_expanded'')]
             [Txt (if cs_expanded s then [0x2212] @ js '' Hide signature & JSON'' else js ''+ Show signature & JSON'')],
           El ''code'' [] [Txt (js ''sig ''), Txt sig]]] @
       only (cs_expanded s) (El ''pre'' [] [Txt (pretty 0 (the sr))]))"
    by (auto simp: ReceiptCard_def bindR_Inr_iff split: if_splits)
  then have "links (header # vs) = links vs" for vs
    using links_header pick_Cons [of is_link header vs] by simp
  moreover have "links (CopyButton t l c a st # VerifyControl w) = []" for t l c a st w
    by (simp add: VerifyControl_def CopyButton_def CheckIcon_def CopyIcon_def)
  ultimately show ?thesis by (simp add: v)
qed

lemma links_history: "ReceiptHistory now cards es = Inr v \<Longrightarrow> links [v] = []"
proof -
  have "collect (map (entry_card now cards) es) = Inr vs \<Longrightarrow> links vs = []" for vs
    by (erule links_collect) (auto simp: entry_card_def bindR_Inr_iff links_card)
  then show "ReceiptHistory now cards es = Inr v \<Longrightarrow> ?thesis"
    by (auto simp: ReceiptHistory_def bindR_Inr_iff split: if_splits)
qed

text \<open>What the wallet widget links to is another site.\<close>

lemma links_widget: "v \<in> set (links [WalletWidget X N s]) \<Longrightarrow> link_ok here home v"
proof -
  have chip: "links (error_chip e) = []" for e
    by (simp add: error_chip_def ActionErrorChip_def split: option.split)
  assume link: "v \<in> set (links [WalletWidget X N s])"
  show ?thesis
  proof (cases "ww_state s")
    case W_missing
    then show ?thesis
      using link by (simp add: WalletWidget_def pick_simps(4) link_ok_def attr_of_def opens_safely_def prefix_def)
        (simp add: js_def)
  qed (use link chip in \<open>simp_all add: WalletWidget_def connected_view_def Let_def Badge_def Button_def\<close>)
qed

lemma links_wallet_part: "v \<in> set (links [wallet_part E s]) \<Longrightarrow> link_ok here home v"
  unfolding wallet_part_def by (rule links_widget)

definition link_to :: "string \<Rightarrow> vnode \<Rightarrow> bool" where
  "link_to h v \<longleftrightarrow> attr_of ''href'' v = Some (AStr (js h))"

definition external :: "vnode \<Rightarrow> bool" where
  "external v \<longleftrightarrow> (\<exists>h. attr_of ''href'' v = Some (AStr h) \<and> prefix (js ''https://'') h \<and> opens_safely v)"

lemma js_prefix: "prefix (js s) (js (s @ t))"
  by (simp add: js_def)

lemma external_ext_link: "external (ext_link (''https://'' @ h) t)"
  using js_prefix [of "''https://''" h]
  by (simp add: external_def ext_link_def attr_of_def opens_safely_def)

lemma links_ext: "links (ext_link h t # vs) = ext_link h t # links vs"
  by (simp add: ext_link_def pick_simps(4))

lemma links_Link:
  "links (El ''a'' attrs cs # vs) = El ''a'' attrs cs # links cs @ links vs"
  by (simp add: pick_simps(4))

lemmas link_sets = links_ext links_Link

lemma external_here:
  "external (ext_link ''https://github.com/AnkanMisra/MicroAI-Paygate'' t)"
  "external (ext_link ''https://github.com/AnkanMisra/MicroAI-Paygate/blob/main/README.md'' t)"
  "external (ext_link ''https://github.com/AnkanMisra/MicroAI-Paygate/blob/main/DEPLOY.md'' t)"
  "external (ext_link ''https://github.com/AnkanMisra/MicroAI-Paygate/blob/main/SECURITY.md'' t)"
  "external (ext_link ''https://github.com/AnkanMisra/MicroAI-Paygate/blob/main/gateway/openapi.yaml'' t)"
  "external (ext_link ''https://github.com/AnkanMisra/MicroAI-Paygate/tree/main/sdk/typescript'' t)"
  using external_ext_link [where t = t] by simp_all

lemma nav_links:
  assumes "v \<in> set (links [Nav P E w])"
  shows "v \<in> set (links [w]) \<or> link_to ''/'' v \<or> link_to ''/docs'' v \<or> external v"
proof -
  have "links (w # u # vs) = links [w] @ links (u # vs)" for u vs by (rule pick_Cons)
  then show ?thesis
    using assms external_here(1) by (auto simp: Nav_def link_sets link_to_def attr_of_def)
qed

lemma footer_links: "v \<in> set (links [Footer]) \<Longrightarrow> link_to ''/docs'' v \<or> link_to ''/#protocol'' v \<or> external v"
  using external_here by (auto simp: Footer_def link_sets link_to_def attr_of_def)

lemma hero_links:
  assumes "v \<in> set (links [Hero E d])"
  shows "v \<in> set (links [d]) \<or> link_to ''#try'' v \<or> link_to ''/docs'' v"
proof -
  have ticker: "links (Ticker E) = []"
    unfolding Ticker_def by (intro links_free; (rule pick_none)?) auto
  have marks: "links (watermark t # vs) = links vs" "links (Stat l x b # vs) = links vs" for t vs l x b
    by (simp_all add: watermark_def Stat_def)
  have copy: "links (hero_copy E # u # vs) = links [hero_copy E] @ links (u # vs)" for u vs by (rule pick_Cons)
  have "v \<in> set (links [hero_copy E]) \<Longrightarrow> link_to ''#try'' v \<or> link_to ''/docs'' v"
    by (auto simp: hero_copy_def link_sets link_to_def attr_of_def)
  then show ?thesis using assms by (auto simp: Hero_def ticker marks copy)
qed

lemma protocol_links: "links [HowItWorks E] = []"
proof -
  have "links (map move_item MOVES) = []"
    by (rule pick_none) (auto simp: move_item_def)
  then show ?thesis by (simp add: HowItWorks_def)
qed

lemma home_links:
  assumes "v \<in> set (links [Home P E w d f r])" "links [d] = []" "links [f] = []" "links [r] = []"
  shows "v \<in> set (links [w]) \<or> link_to ''/'' v \<or> link_to ''/docs'' v \<or> link_to ''#try'' v \<or>
    link_to ''/#protocol'' v \<or> external v"
proof -
  have cons: "links (Nav P E w # u # vs) = links [Nav P E w] @ links (u # vs)"
    "links (Hero E d # u # vs) = links [Hero E d] @ links (u # vs)" for u vs
    by (rule pick_Cons)+
  have parts: "links (SectionHeader a b c t # [u]) = links [u]" for a b c t u
    by (simp add: SectionHeader_def)
  show ?thesis
    using assms nav_links [of v P E w] hero_links [of v E d] footer_links [of v]
    by (auto simp: Home_def cons parts protocol_links)
qed

lemma docs_links:
  assumes "v \<in> set (links [DocsLayout P E w path children])"
  shows "v \<in> set (links [w]) \<or> v \<in> set (links children) \<or> link_to ''/'' v \<or> link_to ''/#protocol'' v \<or>
    (\<exists>i \<in> set DOCS_NAV_ITEMS. link_to (nav_href i) v) \<or> external v"
proof -
  have cons: "links (Nav P E w # u # vs) = links [Nav P E w] @ links (u # vs)"
    "links (DocsShell path children # u # vs) = links [DocsShell path children] @ links (u # vs)" for u vs
    by (rule pick_Cons)+
  have item: "v \<in> set (links (map (nav_link path) is)) \<Longrightarrow> \<exists>i \<in> set is. link_to (nav_href i) v" for "is"
    by (induction "is") (auto simp: nav_link_def Let_def link_sets link_to_def attr_of_def)
  have res: "v \<in> set (links (map (\<lambda>(l, h). ext_link h (t l)) RESOURCES)) \<Longrightarrow> external v" for t
    using external_here by (auto simp: RESOURCES_def links_ext)
  have "v \<in> set (links [DocsShell path children]) \<Longrightarrow> v \<in> set (links children) \<or>
      link_to ''/#protocol'' v \<or> (\<exists>i \<in> set DOCS_NAV_ITEMS. link_to (nav_href i) v) \<or> external v"
    using item [of DOCS_NAV_ITEMS] res [of "\<lambda>l. js l @ js '' '' @ [0x2197]"]
    by (auto simp: DocsShell_def DocsSidebar_def links_Link link_to_def attr_of_def)
  moreover have "link_to ''/docs'' v \<Longrightarrow> \<exists>i \<in> set DOCS_NAV_ITEMS. link_to (nav_href i) v"
    by (simp add: DOCS_NAV_ITEMS_def)
  ultimately show ?thesis
    using assms nav_links [of v P E w] footer_links [of v] by (auto simp: DocsLayout_def cons)
qed

lemma pick_in:
  "p (El tag attrs cs) \<Longrightarrow> pick p (El tag attrs cs # vs) \<noteq> []"
  "pick p cs \<noteq> [] \<Longrightarrow> pick p (El tag attrs cs # vs) \<noteq> []"
  "pick p vs \<noteq> [] \<Longrightarrow> pick p (v # vs) \<noteq> []"
  by (auto simp: pick_def)

lemma home_anchors:
  "pick (has_id (js ''try'')) [Home P E w d f r] \<noteq> []"
  "pick (has_id (js ''protocol'')) [Home P E w d f r] \<noteq> []"
proof -
  show "pick (has_id (js ''try'')) [Home P E w d f r] \<noteq> []"
    unfolding Home_def by (rule pick_in(2), rule pick_in(3), rule pick_in(2), rule pick_in(3), rule pick_in(1))
      (simp add: has_id_def attr_of_def)
  show "pick (has_id (js ''protocol'')) [Home P E w d f r] \<noteq> []"
    unfolding Home_def HowItWorks_def
    by (rule pick_in(2), rule pick_in(3), rule pick_in(2), rule pick_in(3), rule pick_in(3), rule pick_in(3),
        rule pick_in(1))
      (simp add: has_id_def attr_of_def)
qed

lemma link_ok_cases:
  "link_to h v \<Longrightarrow> h \<in> set ROUTES \<Longrightarrow> link_ok here home v"
  "link_to (''#'' @ x) v \<Longrightarrow> pick (has_id (js x)) [here] \<noteq> [] \<Longrightarrow> link_ok here home v"
  "link_to (''/#'' @ x) v \<Longrightarrow> pick (has_id (js x)) [home] \<noteq> [] \<Longrightarrow> link_ok here home v"
  "external v \<Longrightarrow> link_ok here home v"
  by (auto simp: link_to_def link_ok_def external_def js_def)


definition plain_env :: site_env where
  "plain_env = \<lparr>NEXT_PUBLIC_PAYMENT_AMOUNT = None, NEXT_PUBLIC_PAYMENT_TOKEN = None,
     NEXT_PUBLIC_EXPECTED_CHAIN_NAME = None, NEXT_PUBLIC_EXPECTED_CHAIN_ID = Some (js ''8453'')\<rparr>"

definition plain_home :: "unit home" where
  "plain_home = \<lparr>hm_widget = fresh_widget, hm_motion = still_diagram, hm_form = empty_form,
     hm_verify = V_missing, hm_copies = (fresh_copy_state, fresh_copy_state), hm_cards = (\<lambda>_. fresh_card),
     hm_entries = []\<rparr>"

lemma home_has_links: "links [Home P E w d f r] \<noteq> []"
  unfolding Home_def Nav_def by (rule pick_in(2), rule pick_in(2), rule pick_in(2), rule pick_in(1)) simp


end
