(* ===== verification/Spec2Isabelle.thy ===== *)
theory Spec2Isabelle
  imports FlowCalls SdkExamples SmokeTest SitePages
begin

text \<open>
  MicroAI Paygate: a verification of its TypeScript code.

  \<^bold>\<open>The program.\<close> A gateway (Go) sells AI summaries per request. A client that asks without
  paying gets a 402 answer with a payment context; it signs the context as EIP-712 typed data
  and asks again with the signature, the nonce and the timestamp as headers; the gateway lets
  a verifier (Rust) check the signature, calls the AI provider and returns the summary with a
  signed receipt in a header. Two TypeScript programs speak this protocol: the SDK
  (\<^verbatim>\<open>sdk/typescript\<close>) and the web application (\<^verbatim>\<open>web\<close>), which also keeps receipts in the
  browser, shows the progress of a payment, drives the user's wallet and reports analytics.
  This development models the TypeScript code; the gateway's texts appear as the inputs of
  that code, written down from its sources where a theorem needs them.

  \<^bold>\<open>Language.\<close>
  \<^item> \<open>Prelude\<close>: results (\<open>Inl\<close> a thrown value), world-passing asynchronous functions, property
    lists, and the interfaces \<open>codec\<close>, \<open>codec_chain\<close> and \<open>transition_system\<close>.
  \<^item> \<open>JsString\<close>, \<open>Utf8\<close>, \<open>JsNumber\<close>, \<open>Json\<close>, \<open>JsonFacts\<close>: strings as UTF-16 code units, UTF-8,
    doubles as rationals with rounding, JSON values, printer and parser. The parser takes fuel
    linear in its input; \<open>JSON_parse_stringify\<close> shows it is enough: every plain value is
    printed and read back.
  \<^item> \<open>Base64\<close> (\<^verbatim>\<open>sdk/.../base64.ts\<close> over \<^verbatim>\<open>atob\<close> and \<^verbatim>\<open>btoa\<close>), \<open>SdkErrors\<close> (\<^verbatim>\<open>errors.ts\<close>),
    \<open>Platform\<close> (the Fetch API, the functions of \<^verbatim>\<open>ethers\<close> as parameters), \<open>JsValue\<close> (truthiness,
    property reads that throw, conversion to strings), \<open>HeaderBytes\<close> (a header read without
    decoding), \<open>Jsx\<close> (rendered nodes, badge and button with their classes), \<open>Css\<close> (style rules,
    their cascade, and which elements they set in motion), \<open>Samples\<close> (concrete values for the witnesses).

  \<^bold>\<open>The SDK.\<close>
  \<^item> \<open>Payment\<close> (\<^verbatim>\<open>payment.ts\<close>): the typed data determines the payment context; the timestamp header
    denotes the signed timestamp.
  \<^item> \<open>Receipts\<close> (\<^verbatim>\<open>receipts.ts\<close>): verification never throws and accepts exactly the authentic
    receipts of the trusted key; headers round-trip; decoding and lookup in every outcome.
  \<^item> \<open>MicroaiProtocol\<close> (\<^verbatim>\<open>protocol/microai.ts\<close>): the contract of a protocol adapter as the locale
    \<open>protocol_adapter\<close>, and the interpretation \<open>microai\<close> for the one the repository has.
  \<^item> \<open>PaygateClient\<close> (\<^verbatim>\<open>client.ts\<close>): the order of the calls of a request, the binding of a verified
    receipt to the request and the answer, the errors a caller sees, addresses and headers.
  \<^item> \<open>SdkExamples\<close> (\<^verbatim>\<open>examples/\<close>): the verifying example prints a summary only if its receipt is
    authentic and bound to what was sent and received.

  \<^bold>\<open>The web application's library.\<close>
  \<^item> \<open>WebReceipts\<close> (\<^verbatim>\<open>verify-receipt.ts\<close>, \<^verbatim>\<open>x402-client.ts\<close>): compared with the SDK, which it repeats
    without type checks: the same formats, the same typed data and headers, the same verdicts.
    The receipt header is read byte by byte: exactly the receipts in ASCII come out intact.
  \<^item> \<open>WebErrors\<close> (\<^verbatim>\<open>errors.ts\<close>): each public error of the gateway gets its own kind.
  \<^item> \<open>ReceiptStorage\<close> (\<^verbatim>\<open>receipt-storage.ts\<close>): the text in \<^verbatim>\<open>localStorage\<close> implements the locale
    \<open>receipt_log\<close>, a bounded log with one entry per receipt, under failing storage and other tabs.
  \<^item> \<open>Wallet\<close> (\<^verbatim>\<open>wallet.ts\<close>): the requests made of the wallet when a chain is asked for.
  \<^item> \<open>Analytics\<close> (\<^verbatim>\<open>analytics.ts\<close>, \<^verbatim>\<open>browser-analytics.ts\<close>): no blocked property reaches the provider,
    and what is queued while it loads is delivered once and in order.

  \<^bold>\<open>The payment flow and the components.\<close>
  \<^item> \<open>UseX402\<close> (\<^verbatim>\<open>use-x402.ts\<close>): \<^verbatim>\<open>submit\<close> as runs with one program counter value per \<^verbatim>\<open>await\<close>; submissions,
    resets, answers and timers interleave in the step relation \<open>hook_step\<close>. The page follows the
    latest run, superseded runs are silent, every run ends, and signing follows a chain check.
  \<^item> \<open>PageState\<close>: the four kinds of page state the hook can reach.
  \<^item> \<open>FlowCalls\<close>: the payment protocol as an abstract machine of five phases, refined by every
    continuation of a run (\<open>resume_refines\<close>), so that each run pays at most once; the receipts a
    run hands over (interpretations \<open>calls\<close> and \<open>receipts\<close> of \<open>transition_system\<close>).
  \<^item> \<open>StatusStrip\<close> (\<^verbatim>\<open>status-strip.tsx\<close>, labels of \<^verbatim>\<open>types.ts\<close>): the strip shows the flow's state.
  \<^item> \<open>CopyButton\<close> (\<^verbatim>\<open>copy-button.tsx\<close>): locale \<open>copy_control\<close>, interpreted for both copy buttons.
  \<^item> \<open>OutputCard\<close> (\<^verbatim>\<open>output-card.tsx\<close>): the verdict shown is the verdict of the receipt shown.
  \<^item> \<open>SummarizeForm\<close> (\<^verbatim>\<open>summarize-form.tsx\<close>, \<^verbatim>\<open>error-banner.tsx\<close>): the user can only click what is
    rendered, and so never has two payments open at once.
  \<^item> \<open>WalletWidget\<close> (\<^verbatim>\<open>wallet-widget.tsx\<close>): what is shown was reported by the wallet, and nothing gets
    stuck, in every interleaving of load, events, buttons and removal. \<open>ChainSetting\<close>: the chain it
    expects, read from the build-time settings.
  \<^item> \<open>ReceiptViews\<close> (\<^verbatim>\<open>receipt-card.tsx\<close>, \<^verbatim>\<open>receipt-history.tsx\<close>): which stored histories can be shown;
    the check on reading rules out neither times out of range nor previews that hold objects.
    The age of a receipt is shown exactly, although it is computed with rounded numbers.
  \<^item> \<open>DocsPages\<close> (\<^verbatim>\<open>docs/\<close>, \<^verbatim>\<open>mdx-components.tsx\<close>): copy text, labels, current page, and the table of
    elements, each adding its classes to what the page gives it.
  \<^item> \<open>ReducedMotion\<close>: the subscription to the system's preference that \<^verbatim>\<open>smooth-scroll.tsx\<close> and
    \<^verbatim>\<open>protocol-orchestra.tsx\<close> share, with the locale \<open>motion_effect\<close> for what an effect under it has to
    keep; \<open>PageEffects\<close> (\<^verbatim>\<open>cold-start-warmup.tsx\<close>, \<^verbatim>\<open>smooth-scroll.tsx\<close>) interprets it for the scroller
    (\<open>scroller\<close>), \<open>ProtocolDiagram\<close> for the diagram's clock (\<open>diagram_clock\<close>), and has the whole
    drawing and its style sheet: nothing loops if motion is to be reduced.
  \<^item> \<open>SitePages\<close> (\<^verbatim>\<open>page.tsx\<close>, \<^verbatim>\<open>layout.tsx\<close>, \<^verbatim>\<open>docs/layout.tsx\<close>, \<^verbatim>\<open>nav.tsx\<close>, \<^verbatim>\<open>footer.tsx\<close>, \<^verbatim>\<open>hero.tsx\<close>,
    \<^verbatim>\<open>how-it-works.tsx\<close>, \<^verbatim>\<open>docs-shell.tsx\<close>): the pages composed of the components; every link leads somewhere.
  \<^item> \<open>SmokeTest\<close> (\<^verbatim>\<open>scripts/deployed-smoke-test.ts\<close>): what its exit code means.

  \<^bold>\<open>Below\<close>, in this theory, the flow and the receipt store together: a paid receipt is kept even if
  its run was superseded, saving never throws, and the page's state keeps its shape.

  \<^bold>\<open>How code is modelled.\<close> A function that may throw returns a result; an asynchronous one that
  runs alone passes a world; one that can be overtaken is split at its \<^verbatim>\<open>await\<close>s, and its pieces
  are steps of a transition system with React's renders, effects and the user's clicks.
  Values that the code does not check keep an unknown shape (\<open>json option\<close>, \<open>None\<close> for
  \<^verbatim>\<open>undefined\<close>). React is modelled by its documented behaviour: setting state of a removed
  component does nothing, an effect's cleanup runs before its next run, and a passive effect may
  run later than the render it belongs to.

  \<^bold>\<open>Parameters.\<close> The functions of \<^verbatim>\<open>ethers\<close>, the Unicode case tables, the wallet, the transport, the
  analytics provider, the clock and the build-time settings are arguments. Where a theorem
  needs a documented behaviour of one it is a hypothesis, with a witness over \<open>sample_platform\<close>.

  \<^bold>\<open>Not modelled.\<close> The gateway and the verifier, which are not TypeScript; the re-exports of the
  SDK's entry point; build configuration; fixed style classes of the components other than the
  badge, the button and the protocol diagram, and the global style sheet; log output to the console other than the smoke test's
  and the examples'. A summary that is no string, against its declared type, is followed through the
  flow but not rendered.
\<close>

section \<open>Properties of the flow and the receipt store together\<close>

text \<open>The receipts a step of the flow hands over are saved at once, at the time \<open>now\<close>.\<close>

definition store_new ::
    "storage_env \<Rightarrow> jsnum \<Rightarrow> hook \<Rightarrow> hook \<Rightarrow> 'l receipts_state \<Rightarrow> 'l receipts_state" where
  "store_new env now h h' st =
     fold (\<lambda>(rc, t) s. snd (saveReceipt env rc t now s)) (drop (length (h_saved h)) (h_saved h')) st"



definition paid_answer :: response where
  "paid_answer =
     \<lparr>r_status = 200,
      r_headers = [(js ''x-402-receipt'', b64_encode (utf8_encode (stringify (json_of_signed sample_signed))))],
      r_text = Inr (stringify (JObj [(js ''result'', JStr (js ''short''))]))\<rparr>"

lemma paid_answer_read:
  "readSummarizeSuccess paid_answer =
     Inr \<lparr>ss_summary = JStr (js ''short''), ss_receipt = Some (json_of_signed sample_signed)\<rparr>"
proof -
  have "json_ok (JObj [(js ''result'', JStr (js ''short''))])" by (simp add: canonical_named named_key)
  from parse_text_stringify [OF this]
  have "response_json paid_answer = Inr (JObj [(js ''result'', JStr (js ''short''))])"
    by (simp add: response_json_def paid_answer_def)
  moreover have "header_get paid_answer (js ''x-402-receipt'') =
      Some (b64_encode (utf8_encode (stringify (json_of_signed sample_signed))))"
  proof -
    have "map ascii_lower (js ''x-402-receipt'') = js ''x-402-receipt''" by code_simp
    then show ?thesis by (simp add: header_get_def paid_answer_def)
  qed
  moreover have "is_ascii (stringify (json_of_signed sample_signed))"
    by (rule is_ascii_stringify [OF json_ok_json_of_signed [OF wf_sample_signed]])
      (simp add: json_of_signed_def json_of_receipt_def sample_signed_def sample_key_def is_ascii_js)
  ultimately show ?thesis
    using safeDecode_gateway_header [OF wf_sample_signed] gateway_header_nonempty [OF wf_sample_signed]
    by (simp add: readSummarizeSuccess_def prop_of_def Let_def)
qed

definition superseded_history :: hook where
  "superseded_history = put_run (after_first sample_run_1 paid_answer twice)"

definition superseded_run :: run where
  "superseded_run = sample_run_1\<lparr>run_pc := AwaitFirstSuccess paid_answer\<rparr>"

lemma reach_superseded:
  "(hook_step sample_platform)\<^sup>*\<^sup>* empty_hook superseded_history"
  "h_runs superseded_history 1 = Some superseded_run" "h_runId superseded_history = 2"
  "run_text superseded_run = js ''hi''" "h_saved superseded_history = []"
proof -
  have "resume sample_platform (\<lambda>_. ErrorOther []) True sample_run_1 (Responded (Inr paid_answer)) twice =
      Some (after_first sample_run_1 paid_answer twice)"
    by (simp add: resume_def sample_run_1_def)
  then have "hook_step sample_platform twice superseded_history"
    unfolding superseded_history_def by (rule do_resume [OF sample_hooks(2)])
  then show "(hook_step sample_platform)\<^sup>*\<^sup>* empty_hook superseded_history"
    by (rule rtranclp.rtrancl_into_rtrancl [OF reach_twice])
  show "h_runs superseded_history 1 = Some superseded_run" "h_runId superseded_history = 2"
    "run_text superseded_run = js ''hi''" "h_saved superseded_history = []"
    using sample_hooks(4) trim_hi
    by (simp_all add: superseded_history_def superseded_run_def after_first_def paid_answer_def put_run_def
        sample_run_1_def twice_def once_def submit_def empty_hook_def Let_def)
qed



text \<open>C19:
  The page state is more than its declared type says: in every history of the hook the step
  is never the declared \<^verbatim>\<open>"error"\<close>; a summary is there exactly when the step is \<^verbatim>\<open>"done"\<close>; a
  receipt comes only with a summary and has passed the format check; and a running page
  shows no error.
\<close>

theorem page_state_well_typed:
  assumes "hook_init h" "(hook_step P)\<^sup>*\<^sup>* h h'"
  shows "us_step (h_state h') \<noteq> S_error \<and>
    (us_summary (h_state h') \<noteq> None \<longleftrightarrow> us_step (h_state h') = S_done) \<and>
    (\<forall>rc. us_receipt (h_state h') = Some rc \<longrightarrow>
       us_summary (h_state h') \<noteq> None \<and> web_validateReceiptFormat (Some rc) = Inr True) \<and>
    \<not> (us_isRunning (h_state h') \<and> us_error (h_state h') \<noteq> None)"
proof -
  have page: "page_ok (h_state h')" using page.inv_reachable [OF assms] by (simp add: page_inv_def)
  then have "us_summary (h_state h') \<noteq> None" if "us_receipt (h_state h') = Some rc" for rc
    using that by (cases "us_step (h_state h') = S_done") (simp_all add: page_ok_def)
  then show ?thesis
    using page receipts.inv_reachable [OF assms] by (auto simp: page_ok_def receipts_ok_def checked_def)
qed

definition paid_page :: hook where
  "paid_page = snd (replay [Responded (Inr paid_answer), BodyRead] (sample_run_1, once))"

theorem page_state_well_typed_witness:
  "us_receipt (h_state paid_page) = Some (json_of_signed sample_signed) \<and> us_summary (h_state paid_page) \<noteq> None"
proof -
  obtain r' h' where go: "complete_run sample_platform (\<lambda>_. ErrorOther [])
      (sample_run_1\<lparr>run_pc := AwaitFirstSuccess paid_answer\<rparr>) paid_answer
      (put_run (after_first sample_run_1 paid_answer once)) = (r', h')"
    by fastforce
  have st: "r_status paid_answer = 200" by (simp add: paid_answer_def)
  have pc: "run_pc sample_run_1 = AwaitFirst" and no: "run_id sample_run_1 = 1" by (simp_all add: sample_run_1_def)
  have "isCurrent (sample_run_1\<lparr>run_pc := AwaitFirstSuccess paid_answer\<rparr>)
      (put_run (after_first sample_run_1 paid_answer once))"
    using sample_hooks(3) by (simp add: isCurrent_def put_run_def after_first_def st no)
  then have "us_receipt (h_state h') = Some (json_of_signed sample_signed)"
    using complete_run_receipt(2) [OF paid_answer_read go] by simp
  moreover have "paid_page = put_run (r', h')"
    using go by (simp add: paid_page_def resume_def pc after_first_def st)
  ultimately have "us_receipt (h_state paid_page) = Some (json_of_signed sample_signed)"
    by (metis put_run_state snd_conv)
  moreover have "(hook_step sample_platform)\<^sup>*\<^sup>* empty_hook paid_page"
    unfolding paid_page_def by (rule replay_reached)
  ultimately show ?thesis using page_state_well_typed [OF hook_init_empty] by blast
qed

end
